(* ===== verification/Kum_Prelude.thy ===== *)
theory Kum_Prelude
  imports Main "HOL-Library.Monad_Syntax"
begin

text \<open>
  The vocabulary every component shares: the collections that gather the frame
  lemmas and the defining equations of small operations, the intrusive lists of
  libwayland (\<open>wl_list\<close>) seen as HOL lists, and a generic interface for state
  machines whose invariant is kept by every step.
\<close>

named_theorems kum_frame \<open>operations leave the other fields of the state alone\<close>
named_theorems kum_inv \<open>operations keep the invariant of their component\<close>
named_theorems kum_eval \<open>equations used to evaluate closed terms\<close>

section \<open>Intrusive lists\<close>

text \<open>
  A \<open>struct wl_list\<close> head with its elements is the list of the element
  addresses in iteration order (\<open>wl_list_for_each\<close> follows \<open>next\<close> from the
  head). \<open>wl_list_insert(head, e)\<close> puts \<open>e\<close> first,
  \<open>wl_list_insert(head->prev, e)\<close> puts it last, and \<open>wl_list_remove\<close>
  unlinks an element.
\<close>

definition wl_insert :: "'a \<Rightarrow> 'a list \<Rightarrow> 'a list" where
  "wl_insert x xs = x # xs"

definition wl_insert_tail :: "'a \<Rightarrow> 'a list \<Rightarrow> 'a list" where
  "wl_insert_tail x xs = xs @ [x]"

definition wl_remove :: "'a \<Rightarrow> 'a list \<Rightarrow> 'a list" where
  "wl_remove x xs = filter (\<lambda>y. y \<noteq> x) xs"

lemma set_wl_insert [simp]: "set (wl_insert x xs) = insert x (set xs)"
  by (simp add: wl_insert_def)

lemma set_wl_insert_tail [simp]: "set (wl_insert_tail x xs) = insert x (set xs)"
  by (simp add: wl_insert_tail_def)

lemma set_wl_remove [simp]: "set (wl_remove x xs) = set xs - {x}"
  by (auto simp: wl_remove_def)

lemma distinct_wl_insert [simp]: "distinct (wl_insert x xs) \<longleftrightarrow> x \<notin> set xs \<and> distinct xs"
  by (simp add: wl_insert_def)

lemma distinct_wl_insert_tail [simp]:
  "distinct (wl_insert_tail x xs) \<longleftrightarrow> x \<notin> set xs \<and> distinct xs"
  by (auto simp: wl_insert_tail_def)

lemma distinct_wl_remove [simp]: "distinct xs \<Longrightarrow> distinct (wl_remove x xs)"
  by (simp add: wl_remove_def)

lemma wl_remove_absent [simp]: "x \<notin> set xs \<Longrightarrow> wl_remove x xs = xs"
  by (auto simp: wl_remove_def filter_id_conv)

lemma wl_remove_Cons: "wl_remove x (y # ys) = (if x = y then wl_remove x ys else y # wl_remove x ys)"
  by (auto simp: wl_remove_def)

lemma wl_remove_append: "wl_remove x (xs @ ys) = wl_remove x xs @ wl_remove x ys"
  by (simp add: wl_remove_def)

text \<open>
  The contract the list operations promise their clients: an element set, kept
  free of duplicates, from which an element can be moved without loss.
\<close>

locale linked_list =
  fixes ins :: "'a \<Rightarrow> 'l \<Rightarrow> 'l"
    and rem :: "'a \<Rightarrow> 'l \<Rightarrow> 'l"
    and elems :: "'l \<Rightarrow> 'a list"
  assumes elems_ins: "set (elems (ins x l)) = insert x (set (elems l))"
    and elems_rem: "set (elems (rem x l)) = set (elems l) - {x}"
    and distinct_ins: "distinct (elems l) \<Longrightarrow> x \<notin> set (elems l) \<Longrightarrow> distinct (elems (ins x l))"
    and distinct_rem: "distinct (elems l) \<Longrightarrow> distinct (elems (rem x l))"
begin

lemma move_set: "x \<in> set (elems l) \<Longrightarrow> set (elems (ins x (rem x l))) = set (elems l)"
  by (auto simp: elems_ins elems_rem)

lemma move_distinct: "distinct (elems l) \<Longrightarrow> distinct (elems (ins x (rem x l)))"
  by (rule distinct_ins) (auto simp: elems_rem distinct_rem)

lemma move_length:
  assumes "distinct (elems l)" and "x \<in> set (elems l)"
  shows "length (elems (ins x (rem x l))) = length (elems l)"
proof -
  have "length (elems (ins x (rem x l))) = card (set (elems (ins x (rem x l))))"
    using move_distinct [OF assms(1)] by (simp add: distinct_card)
  also have "\<dots> = card (set (elems l))" using assms(2) by (simp add: move_set)
  also have "\<dots> = length (elems l)" using assms(1) by (simp add: distinct_card)
  finally show ?thesis .
qed

end

interpretation wl_head: linked_list wl_insert wl_remove "\<lambda>l. l"
  by unfold_locales auto

interpretation wl_tail: linked_list wl_insert_tail wl_remove "\<lambda>l. l"
  by unfold_locales auto

section \<open>First match of a linear search\<close>

text \<open>The pattern \<open>wl_list_for_each(x, l) if (P x) return x; return NULL;\<close>.\<close>

lemma find_Some_iff_mem: "List.find P xs = Some x \<Longrightarrow> x \<in> set xs \<and> P x"
  by (auto simp: find_Some_iff)

lemma find_None_iff_none: "List.find P xs = None \<longleftrightarrow> (\<forall>x \<in> set xs. \<not> P x)"
  by (auto simp: find_None_iff)

lemma find_unique:
  "x \<in> set xs \<Longrightarrow> P x \<Longrightarrow> (\<And>y. y \<in> set xs \<Longrightarrow> P y \<Longrightarrow> y = x) \<Longrightarrow> List.find P xs = Some x"
proof (cases "List.find P xs")
  case None
  assume "x \<in> set xs" "P x"
  with None show ?thesis by (auto simp: find_None_iff)
next
  case (Some y)
  assume uniq: "\<And>y. y \<in> set xs \<Longrightarrow> P y \<Longrightarrow> y = x"
  from Some have "y \<in> set xs \<and> P y" by (rule find_Some_iff_mem)
  then have "y = x" by (blast intro: uniq)
  with Some show ?thesis by simp
qed

section \<open>State machines with an invariant\<close>

text \<open>
  A component is driven by events: \<open>step e s\<close> is \<open>None\<close> when the handler of the
  event runs into undefined behaviour, and the new state otherwise. An invariant
  that the initial state has and every defined step keeps holds after every run.
\<close>

primrec run :: "('e \<Rightarrow> 's \<Rightarrow> 's option) \<Rightarrow> 'e list \<Rightarrow> 's \<Rightarrow> 's option" where
  "run step [] s = Some s"
| "run step (e # es) s = Option.bind (step e s) (run step es)"

lemma run_append:
  "run step (es @ fs) s = Option.bind (run step es s) (run step fs)"
  by (induction es arbitrary: s) (auto split: Option.bind_splits)

locale event_machine =
  fixes step :: "'e \<Rightarrow> 's \<Rightarrow> 's option"
    and inv :: "'s \<Rightarrow> bool"
  assumes step_inv: "inv s \<Longrightarrow> step e s = Some t \<Longrightarrow> inv t"
begin

lemma run_inv: "inv s \<Longrightarrow> run step es s = Some t \<Longrightarrow> inv t"
  by (induction es arbitrary: s) (auto split: Option.bind_splits dest: step_inv)

end

text \<open>A machine whose handlers are all defined on acceptable events never gets stuck.\<close>

locale total_event_machine = event_machine +
  fixes ok :: "'e \<Rightarrow> bool"
  assumes step_defined: "inv s \<Longrightarrow> ok e \<Longrightarrow> step e s \<noteq> None"
begin

lemma run_defined: "inv s \<Longrightarrow> list_all ok es \<Longrightarrow> \<exists>t. run step es s = Some t \<and> inv t"
proof (induction es arbitrary: s)
  case Nil
  then show ?case by simp
next
  case (Cons e es)
  then obtain t where "step e s = Some t" using step_defined by fastforce
  with Cons show ?case by (auto dest: step_inv)
qed

end

end
