(* ===== verification/CString.thy ===== *)
theory CString
  imports Kum_Prelude
begin

text \<open>
  The part of the C standard library the program's text handling rests on. A C
  string is the list of its bytes before the terminating NUL, so no element is
  NUL; a buffer of \<open>n\<close> bytes that is written with \<open>strncpy(buf, s, n - 1)\<close> over
  zeroed memory holds \<open>take (n - 1) s\<close>. Numbers outside the range of \<open>int\<close>, whose
  conversion C leaves undefined, are converted to the unbounded integer.
\<close>

section \<open>Characters\<close>

definition NL :: char where "NL = CHR 0x0A"
definition CR :: char where "CR = CHR 0x0D"
definition TAB :: char where "TAB = CHR 0x09"
definition QUOTE :: char where "QUOTE = CHR 0x22"
definition BSL :: char where "BSL = CHR 0x5C"

definition byte :: "char \<Rightarrow> nat" where
  "byte c = of_char c"

lemma byte_less [simp]: "byte c < 256"
  by (simp add: byte_def)

definition isspace :: "char \<Rightarrow> bool" where
  "isspace c \<longleftrightarrow> byte c = 32 \<or> (9 \<le> byte c \<and> byte c \<le> 13)"

definition isdigit :: "char \<Rightarrow> bool" where
  "isdigit c \<longleftrightarrow> 48 \<le> byte c \<and> byte c \<le> 57"

definition digit_val :: "char \<Rightarrow> nat" where
  "digit_val c = byte c - 48"

definition digit_char :: "nat \<Rightarrow> char" where
  "digit_char d = char_of (48 + d)"

lemma byte_digit_char [simp]: "d < 10 \<Longrightarrow> byte (digit_char d) = 48 + d"
  by (simp add: byte_def digit_char_def)

lemma isdigit_digit_char [simp]: "d < 10 \<Longrightarrow> isdigit (digit_char d)"
  by (simp add: isdigit_def)

lemma digit_val_digit_char [simp]: "d < 10 \<Longrightarrow> digit_val (digit_char d) = d"
  by (simp add: digit_val_def)

lemma isdigit_not_isspace: "isdigit c \<Longrightarrow> \<not> isspace c"
  by (auto simp: isdigit_def isspace_def)

section \<open>Searching and cutting\<close>

definition strncmp_eq :: "string \<Rightarrow> string \<Rightarrow> nat \<Rightarrow> bool" where
  \<comment> \<open>\<open>strncmp(a, b, n) == 0\<close>: the first \<open>n\<close> bytes agree, the NUL included.\<close>
  "strncmp_eq a b n \<longleftrightarrow> take n (a @ [CHR 0x00]) = take n (b @ [CHR 0x00])"

definition strncpy :: "nat \<Rightarrow> string \<Rightarrow> string" where
  "strncpy n s = take n s"

fun strchr_split :: "char \<Rightarrow> string \<Rightarrow> (string \<times> string) option" where
  \<comment> \<open>\<open>strchr(s, c)\<close>, as the parts before and after the first occurrence.\<close>
  "strchr_split c [] = None"
| "strchr_split c (x # xs) =
     (if x = c then Some ([], xs)
      else map_option (\<lambda>(a, b). (x # a, b)) (strchr_split c xs))"

lemma strchr_split_Some: "strchr_split c s = Some (a, b) \<Longrightarrow> s = a @ c # b \<and> c \<notin> set a"
  by (induction s arbitrary: a) (auto split: if_splits)

lemma strchr_split_None: "strchr_split c s = None \<longleftrightarrow> c \<notin> set s"
  by (induction s) auto

lemma strchr_split_append: "c \<notin> set a \<Longrightarrow> strchr_split c (a @ c # b) = Some (a, b)"
  by (induction a) auto

text \<open>\<open>strtok(s, d)\<close> until it returns NULL: the non-empty pieces between delimiters.\<close>

fun split_on :: "char \<Rightarrow> string \<Rightarrow> string list" where
  "split_on c [] = [[]]"
| "split_on c (x # xs) =
     (if x = c then [] # split_on c xs
      else (case split_on c xs of [] \<Rightarrow> [[x]] | p # ps \<Rightarrow> (x # p) # ps))"

definition strtok_all :: "char \<Rightarrow> string \<Rightarrow> string list" where
  "strtok_all c s = filter (\<lambda>p. p \<noteq> []) (split_on c s)"

lemma split_on_nonempty [simp]: "split_on c s \<noteq> []"
  by (cases s) (auto split: list.splits)

lemma split_on_no_delim: "p \<in> set (split_on c s) \<Longrightarrow> c \<notin> set p"
  by (induction s arbitrary: p) (auto split: if_splits list.splits)

lemma strtok_all_token: "p \<in> set (strtok_all c s) \<Longrightarrow> p \<noteq> [] \<and> c \<notin> set p"
  by (auto simp: strtok_all_def dest: split_on_no_delim)

text \<open>
  \<open>fgets(line, n + 1, f)\<close> until it returns NULL: each line with its newline, cut
  into chunks of at most \<open>n\<close> bytes.
\<close>

fun fgets_from :: "nat \<Rightarrow> nat \<Rightarrow> string \<Rightarrow> string \<Rightarrow> string list" where
  "fgets_from n k acc [] = (if acc = [] then [] else [rev acc])"
| "fgets_from n k acc (c # cs) =
     (if c = NL \<or> k \<le> 1 then rev (c # acc) # fgets_from n n [] cs
      else fgets_from n (k - 1) (c # acc) cs)"

definition fgets_lines :: "nat \<Rightarrow> string \<Rightarrow> string list" where
  "fgets_lines sz s = fgets_from (sz - 1) (sz - 1) [] s"

lemma concat_fgets_from: "concat (fgets_from n k acc cs) = rev acc @ cs"
  by (induction n k acc cs rule: fgets_from.induct) auto

lemma concat_fgets_lines: "concat (fgets_lines sz s) = s"
  by (simp add: fgets_lines_def concat_fgets_from)

lemma fgets_from_length:
  "0 < n \<Longrightarrow> length acc + k \<le> n \<Longrightarrow> 0 < k \<Longrightarrow> l \<in> set (fgets_from n k acc cs) \<Longrightarrow> length l \<le> n"
  by (induction n k acc cs rule: fgets_from.induct) (auto split: if_splits)

lemma fgets_lines_length: "1 < sz \<Longrightarrow> l \<in> set (fgets_lines sz s) \<Longrightarrow> length l < sz"
  using fgets_from_length [of "sz - 1" "[]" "sz - 1" l s] by (auto simp: fgets_lines_def)

section \<open>Decimal numbers\<close>

fun show_nat :: "nat \<Rightarrow> string" where
  "show_nat n = (if n < 10 then [digit_char n] else show_nat (n div 10) @ [digit_char (n mod 10)])"

declare show_nat.simps [simp del]

definition show_int :: "int \<Rightarrow> string" where
  \<comment> \<open>\<open>printf("%d", i)\<close>\<close>
  "show_int i = (if i < 0 then CHR ''-'' # show_nat (nat (- i)) else show_nat (nat i))"

definition val_digits :: "string \<Rightarrow> nat" where
  "val_digits ds = foldl (\<lambda>a d. 10 * a + digit_val d) 0 ds"

lemma val_digits_snoc: "val_digits (ds @ [d]) = 10 * val_digits ds + digit_val d"
  by (simp add: val_digits_def)

lemma show_nat_digits: "c \<in> set (show_nat n) \<Longrightarrow> isdigit c"
proof (induction n rule: show_nat.induct)
  case (1 n)
  then show ?case by (auto simp: show_nat.simps [of n] split: if_splits)
qed

lemma show_nat_nonempty [simp]: "show_nat n \<noteq> []"
  by (simp add: show_nat.simps [of n])

lemma val_digits_show_nat [simp]: "val_digits (show_nat n) = n"
proof (induction n rule: show_nat.induct)
  case (1 n)
  show ?case
  proof (cases "n < 10")
    case True
    then show ?thesis by (simp add: show_nat.simps [of n] val_digits_def)
  next
    case False
    with 1 show ?thesis by (simp add: show_nat.simps [of n] val_digits_snoc)
  qed
qed

lemma hd_show_nat: "isdigit (hd (show_nat n))"
  by (rule show_nat_digits [of _ n]) simp

fun scan_sign :: "string \<Rightarrow> bool \<times> string" where
  "scan_sign [] = (False, [])"
| "scan_sign (c # cs) =
     (if c = CHR ''-'' then (True, cs) else if c = CHR ''+'' then (False, cs) else (False, c # cs))"

definition scan_int :: "string \<Rightarrow> (int \<times> string) option" where
  \<comment> \<open>one \<open>%d\<close> of \<open>sscanf\<close>, with the rest of the input\<close>
  "scan_int s =
     (let (neg, s1) = scan_sign (dropWhile isspace s); ds = takeWhile isdigit s1 in
      if ds = [] then None
      else Some (if neg then - int (val_digits ds) else int (val_digits ds), dropWhile isdigit s1))"

definition atoi :: "string \<Rightarrow> int" where
  "atoi s = (case scan_int s of None \<Rightarrow> 0 | Some (i, _) \<Rightarrow> i)"

definition digit_free_head :: "string \<Rightarrow> bool" where
  "digit_free_head r \<longleftrightarrow> (case r of [] \<Rightarrow> True | c # _ \<Rightarrow> \<not> isdigit c)"

lemma digit_free_head_simps [simp]:
  "digit_free_head r \<Longrightarrow> takeWhile isdigit r = []"
  "digit_free_head r \<Longrightarrow> dropWhile isdigit r = r"
  by (cases r; simp add: digit_free_head_def)+

lemma takeWhile_digits: "\<forall>c \<in> set ds. isdigit c \<Longrightarrow> digit_free_head r \<Longrightarrow> takeWhile isdigit (ds @ r) = ds"
  by (induction ds) (auto simp: digit_free_head_def split: list.splits)

lemma dropWhile_digits: "\<forall>c \<in> set ds. isdigit c \<Longrightarrow> digit_free_head r \<Longrightarrow> dropWhile isdigit (ds @ r) = r"
  by (induction ds) (auto simp: digit_free_head_def split: list.splits)

lemma scan_int_show_nat:
  assumes "digit_free_head r"
  shows "scan_int (show_nat n @ r) = Some (int n, r)"
proof -
  obtain c cs where s: "show_nat n = c # cs" by (cases "show_nat n") auto
  have c: "isdigit c" using hd_show_nat [of n] s by simp
  then have "scan_sign (dropWhile isspace (show_nat n @ r)) = (False, show_nat n @ r)"
    by (auto simp: s isdigit_not_isspace isdigit_def byte_def)
  moreover have "\<forall>c \<in> set (show_nat n). isdigit c" by (auto dest: show_nat_digits)
  ultimately show ?thesis
    using assms by (simp add: scan_int_def takeWhile_digits dropWhile_digits)
qed

lemma scan_int_show_int:
  assumes "digit_free_head r"
  shows "scan_int (show_int i @ r) = Some (i, r)"
proof (cases "i < 0")
  case True
  have "\<not> isspace CHR ''-''" by (simp add: isspace_def byte_def)
  then have "scan_sign (dropWhile isspace (show_int i @ r)) = (True, show_nat (nat (- i)) @ r)"
    using True by (simp add: show_int_def)
  moreover have "\<forall>c \<in> set (show_nat (nat (- i))). isdigit c" by (auto dest: show_nat_digits)
  ultimately show ?thesis
    using assms True by (simp add: scan_int_def takeWhile_digits dropWhile_digits)
next
  case False
  then show ?thesis using scan_int_show_nat [OF assms] by (simp add: show_int_def)
qed

lemma atoi_show_int [simp]: "atoi (show_int i) = i"
  using scan_int_show_int [of "[]" i] by (simp add: atoi_def digit_free_head_def)

section \<open>Trimming\<close>

definition trim :: "string \<Rightarrow> string" where
  "trim s = rev (dropWhile isspace (rev (dropWhile isspace s)))"

definition trimmed :: "string \<Rightarrow> bool" where
  "trimmed s \<longleftrightarrow> s = [] \<or> (\<not> isspace (hd s) \<and> \<not> isspace (last s))"

lemma dropWhile_hd: "dropWhile P s \<noteq> [] \<Longrightarrow> \<not> P (hd (dropWhile P s))"
  by (induction s) auto

lemma rev_dropWhile_rev_hd:
  assumes "s \<noteq> []" and "\<not> P (hd s)"
  shows "rev (dropWhile P (rev s)) \<noteq> [] \<and> hd (rev (dropWhile P (rev s))) = hd s"
proof -
  obtain c cs where s: "s = c # cs" using assms(1) by (cases s) auto
  with assms(2) have c: "\<not> P c" by simp
  then have "dropWhile P (rev s) = dropWhile P (rev cs) @ [c] \<or> dropWhile P (rev s) = [c]"
    using s by (auto simp: dropWhile_append)
  then show ?thesis using s c by auto
qed

lemma trimmed_trim: "trimmed (trim s)"
proof (cases "dropWhile isspace s = []")
  case True
  then have "trim s = []" by (simp only: trim_def) simp
  then show ?thesis by (simp add: trimmed_def)
next
  case False
  let ?d = "dropWhile isspace s"
  have hd: "\<not> isspace (hd ?d)" using False by (rule dropWhile_hd)
  note r = rev_dropWhile_rev_hd [where P = isspace, OF False hd]
  then have "dropWhile isspace (rev ?d) \<noteq> []" by simp
  then have "\<not> isspace (hd (dropWhile isspace (rev ?d)))" by (rule dropWhile_hd)
  with r hd show ?thesis by (simp add: trim_def trimmed_def last_rev)
qed

lemma trim_trimmed: "trimmed s \<Longrightarrow> trim s = s"
proof (cases s)
  case Nil
  then show ?thesis by (simp add: trim_def)
next
  case (Cons c cs)
  assume t: "trimmed s"
  with Cons have d: "dropWhile isspace s = s" by (simp add: trimmed_def)
  have "dropWhile isspace (rev s) = rev s"
    using t Cons by (cases "rev s") (auto simp: trimmed_def hd_rev [symmetric])
  with d show ?thesis by (simp add: trim_def)
qed

lemma trim_idem [simp]: "trim (trim s) = trim s"
  by (rule trim_trimmed [OF trimmed_trim])

lemma length_trim: "length (trim s) \<le> length s"
proof -
  have "length (trim s) \<le> length (dropWhile isspace s)"
    by (simp add: trim_def) (metis length_dropWhile_le length_rev)
  also have "\<dots> \<le> length s" by (rule length_dropWhile_le)
  finally show ?thesis .
qed

lemma dropWhile_all: "\<forall>c \<in> set a. P c \<Longrightarrow> dropWhile P (a @ s) = dropWhile P s"
  by (induction a) auto

lemma trim_pad:
  assumes "trimmed s" and "\<forall>c \<in> set a. isspace c" and "\<forall>c \<in> set b. isspace c"
  shows "trim (a @ s @ b) = s"
proof (cases "s = []")
  case True
  have "dropWhile isspace (a @ b) = []" using assms by (auto simp: dropWhile_eq_Nil_conv dropWhile_all)
  then show ?thesis using True by (simp only: trim_def append_Nil) simp
next
  case False
  have "trim s = s" by (rule trim_trimmed [OF assms(1)])
  moreover have "dropWhile isspace s = s" using False assms(1) by (cases s) (auto simp: trimmed_def)
  then have "dropWhile isspace (a @ s @ b) = s @ b"
    using assms(2) False by (simp add: dropWhile_all) (metis append_Cons dropWhile.simps(2) neq_Nil_conv dropWhile_hd list.sel(1))
  ultimately show ?thesis using assms(3) \<open>dropWhile isspace s = s\<close> by (simp add: trim_def dropWhile_all)
qed

lemma isspace_chars [simp]: "isspace CHR '' ''" "isspace NL"
  by (simp_all add: isspace_def byte_def NL_def)

lemma fgets_from_line:
  "NL \<notin> set b \<Longrightarrow> length b < k \<Longrightarrow> fgets_from n k acc (b @ NL # cs) = (rev acc @ b @ [NL]) # fgets_from n n [] cs"
  by (induction b arbitrary: acc k) auto

lemma fgets_lines_concat:
  assumes "\<forall>l \<in> set ls. NL \<notin> set l \<and> length l + 1 < sz"
  shows "fgets_lines sz (concat (map (\<lambda>l. l @ [NL]) ls)) = map (\<lambda>l. l @ [NL]) ls"
  using assms
proof (induction ls)
  case Nil
  then show ?case by (simp add: fgets_lines_def)
next
  case (Cons l ls)
  then have "NL \<notin> set l" and "length l < sz - 1" by auto
  then show ?case
    using Cons fgets_from_line [of l "sz - 1" "sz - 1" "[]"] by (simp add: fgets_lines_def)
qed

end
