(* ===== verification/Scanf.thy ===== *)
theory Scanf
  imports Complex_Main CString
begin

text \<open>
  \<open>sscanf\<close> and \<open>snprintf\<close> as far as the program's formats go. A format is a list
  of directives; the result is the list of the values stored, in order, so its
  length is what \<open>sscanf\<close> returns and a directive that fails stores nothing.
  Numbers of \<open>%f\<close> are decimal, with an optional fraction and exponent (the
  hexadecimal, infinity and NaN spellings of C99 are not modelled).
\<close>

section \<open>Directives\<close>

datatype conv =
    CLit string       \<comment> \<open>literal text; a blank matches any amount of white space\<close>
  | CInt              \<comment> \<open>\<open>%d\<close>\<close>
  | CFlt              \<comment> \<open>\<open>%f\<close>\<close>
  | CNot nat char     \<comment> \<open>\<open>%n[^c]\<close>: up to \<open>n\<close> bytes other than \<open>c\<close>, at least one\<close>

datatype sval = SInt int | SFlt rat | SStr string

fun match_lit :: "string \<Rightarrow> string \<Rightarrow> string option" where
  "match_lit [] s = Some s"
| "match_lit (c # cs) s =
     (if isspace c then match_lit cs (dropWhile isspace s)
      else (case s of [] \<Rightarrow> None | x # xs \<Rightarrow> if x = c then match_lit cs xs else None))"

definition scan_not :: "nat \<Rightarrow> char \<Rightarrow> string \<Rightarrow> (string \<times> string) option" where
  "scan_not n c s =
     (let t = take n (takeWhile (\<lambda>x. x \<noteq> c) s)
      in if t = [] then None else Some (t, drop (length t) s))"

definition scan_exp :: "string \<Rightarrow> int \<times> string" where
  \<comment> \<open>an exponent part, consumed only when it has digits\<close>
  "scan_exp s =
     (case s of [] \<Rightarrow> (0, [])
      | c # cs \<Rightarrow>
          if c = CHR ''e'' \<or> c = CHR ''E'' then
            (let (neg, s1) = scan_sign cs; ds = takeWhile isdigit s1 in
             if ds = [] then (0, s)
             else (if neg then - int (val_digits ds) else int (val_digits ds), dropWhile isdigit s1))
          else (0, s))"

definition scan_flt :: "string \<Rightarrow> (rat \<times> string) option" where
  "scan_flt s =
     (let (neg, s1) = scan_sign (dropWhile isspace s);
          ip = takeWhile isdigit s1; s2 = dropWhile isdigit s1;
          (fp, s3) = (case s2 of [] \<Rightarrow> ([], [])
                      | c # cs \<Rightarrow> if c = CHR ''.'' then (takeWhile isdigit cs, dropWhile isdigit cs)
                                  else ([], s2))
      in if ip = [] \<and> fp = [] then None
         else let (e, s4) = scan_exp s3;
                  m = of_int (int (val_digits (ip @ fp))) / 10 ^ length fp;
                  v = (if 0 \<le> e then m * 10 ^ nat e else m / 10 ^ nat (- e))
              in Some (if neg then - v else v, s4))"

fun sscanf :: "conv list \<Rightarrow> string \<Rightarrow> sval list" where
  "sscanf [] s = []"
| "sscanf (CLit l # fs) s = (case match_lit l s of None \<Rightarrow> [] | Some r \<Rightarrow> sscanf fs r)"
| "sscanf (CInt # fs) s = (case scan_int s of None \<Rightarrow> [] | Some (i, r) \<Rightarrow> SInt i # sscanf fs r)"
| "sscanf (CFlt # fs) s = (case scan_flt s of None \<Rightarrow> [] | Some (v, r) \<Rightarrow> SFlt v # sscanf fs r)"
| "sscanf (CNot n c # fs) s =
     (case scan_not n c s of None \<Rightarrow> [] | Some (t, r) \<Rightarrow> SStr t # sscanf fs r)"

text \<open>Reading the stored values back: the variable keeps its old value when nothing was stored.\<close>

definition got_int :: "sval list \<Rightarrow> nat \<Rightarrow> int \<Rightarrow> int" where
  "got_int vs k old = (if k < length vs then (case vs ! k of SInt i \<Rightarrow> i | _ \<Rightarrow> old) else old)"

definition got_str :: "sval list \<Rightarrow> nat \<Rightarrow> string \<Rightarrow> string" where
  "got_str vs k old = (if k < length vs then (case vs ! k of SStr s \<Rightarrow> s | _ \<Rightarrow> old) else old)"

definition got_flt :: "sval list \<Rightarrow> nat \<Rightarrow> rat \<Rightarrow> rat" where
  "got_flt vs k old = (if k < length vs then (case vs ! k of SFlt v \<Rightarrow> v | _ \<Rightarrow> old) else old)"

lemma got_simps [simp]:
  "got_int (v # vs) 0 i = (case v of SInt j \<Rightarrow> j | _ \<Rightarrow> i)"
  "got_int (v # vs) (Suc k) i = got_int vs k i"
  "got_int [] k i = i"
  "got_str (v # vs) 0 s = (case v of SStr t \<Rightarrow> t | _ \<Rightarrow> s)"
  "got_str (v # vs) (Suc k) s = got_str vs k s"
  "got_str [] k s = s"
  by (auto simp: got_int_def got_str_def)

definition atof :: "string \<Rightarrow> rat" where
  "atof s = (case scan_flt s of None \<Rightarrow> 0 | Some (v, _) \<Rightarrow> v)"

section \<open>Matching what was printed\<close>

lemma match_lit_append: "\<forall>c \<in> set l. \<not> isspace c \<Longrightarrow> match_lit l (l @ r) = Some r"
  by (induction l) auto

lemma scan_not_append:
  assumes "t \<noteq> []" and "length t \<le> n" and "c \<notin> set t"
  shows "scan_not n c (t @ c # r) = Some (t, c # r)"
proof -
  have "takeWhile (\<lambda>x. x \<noteq> c) (t @ c # r) = t"
    using assms(3) by (induction t) auto
  then show ?thesis using assms by (simp add: scan_not_def)
qed

lemma scan_not_empty: "scan_not n c (c # r) = None"
  by (simp add: scan_not_def)

lemma scan_not_bound: "scan_not n c s = Some (t, r) \<Longrightarrow> t \<noteq> [] \<and> length t \<le> n \<and> c \<notin> set t"
  by (auto simp: scan_not_def Let_def split: if_splits dest: in_set_takeD set_takeWhileD)

lemma digit_free_head_Cons [simp]: "digit_free_head (c # r) \<longleftrightarrow> \<not> isdigit c"
  by (simp add: digit_free_head_def)

lemma digit_free_head_Nil [simp]: "digit_free_head []"
  by (simp add: digit_free_head_def)

text \<open>
  \<open>snprintf(buf, n, ...)\<close> stores at most \<open>n - 1\<close> bytes and returns the length the
  whole text would have had.
\<close>

definition snprintf :: "nat \<Rightarrow> string \<Rightarrow> string" where
  "snprintf n s = take (n - 1) s"

lemma length_snprintf [simp]: "0 < n \<Longrightarrow> length (snprintf n s) < n"
  by (auto simp: snprintf_def)

lemma snprintf_fits: "length s < n \<Longrightarrow> snprintf n s = s"
  by (simp add: snprintf_def)

lemma length_show_nat: "length (show_nat n) = (if n < 10 then 1 else Suc (length (show_nat (n div 10))))"
  by (simp add: show_nat.simps [of n])

section \<open>Encoders and decoders\<close>

text \<open>
  A message format: printing a message of the domain and reading it back gives the
  message. It follows that different messages print differently.
\<close>

locale codec =
  fixes enc :: "'a \<Rightarrow> string"
    and dec :: "string \<Rightarrow> 'b"
    and view :: "'a \<Rightarrow> 'b"
    and ok :: "'a \<Rightarrow> bool"
  assumes dec_enc: "ok x \<Longrightarrow> dec (enc x) = view x"
begin

lemma enc_separates: "ok x \<Longrightarrow> ok y \<Longrightarrow> enc x = enc y \<Longrightarrow> view x = view y"
  using dec_enc [of x] dec_enc [of y] by simp

lemma enc_inj: "inj_on view {x. ok x} \<Longrightarrow> inj_on enc {x. ok x}"
  by (rule inj_onI) (auto dest: enc_separates inj_onD)

end

interpretation decimal: codec show_int atoi "\<lambda>i. i" "\<lambda>i. True"
  by unfold_locales simp

lemma show_int_inj: "show_int i = show_int j \<Longrightarrow> i = j"
  by (rule decimal.enc_separates) auto

end
