(* ===== verification/Jsonutil.thy ===== *)
theory Jsonutil
  imports Scanf "HOL-Library.Sublist"
begin

text \<open>
  \<open>src/jsonutil.c\<close>: the escaping of a text into the body of a JSON string, into a
  destination of fixed size, and a reference decoder of such bodies to judge it by.
\<close>

section \<open>The escape routine\<close>

text \<open>The loop over the source, with \<open>k\<close> the number of bytes already stored.\<close>

fun json_escape_from :: "nat \<Rightarrow> nat \<Rightarrow> string \<Rightarrow> string" where
  "json_escape_from sz k [] = []"
| "json_escape_from sz k (c # cs) =
     (if \<not> k + 2 < sz then []
      else if c = QUOTE \<or> c = BSL then BSL # c # json_escape_from sz (k + 2) cs
      else if c = NL \<or> c = CR \<or> c = TAB then
        (if sz \<le> k + 2 then []
         else BSL # (if c = NL then CHR ''n'' else if c = CR then CHR ''r'' else CHR ''t'')
              # json_escape_from sz (k + 2) cs)
      else if byte c < 32 then json_escape_from sz k cs
      else c # json_escape_from sz (k + 1) cs)"

text \<open>\<open>None\<close>: the destination is left untouched.\<close>

definition kum_json_escape :: "nat \<Rightarrow> string \<Rightarrow> string option" where
  "kum_json_escape dst_size src = (if dst_size = 0 then None else Some (json_escape_from dst_size 0 src))"

section \<open>The reference decoder\<close>

text \<open>
  The body of a JSON string, read back: no raw quote and no raw control character,
  and every backslash starts one of the escapes the routine uses.
\<close>

definition unescape_char :: "char \<Rightarrow> char option" where
  "unescape_char c =
     (if c = QUOTE \<or> c = BSL then Some c
      else if c = CHR ''n'' then Some NL
      else if c = CHR ''r'' then Some CR
      else if c = CHR ''t'' then Some TAB
      else None)"

fun json_unescape :: "string \<Rightarrow> string option" where
  "json_unescape [] = Some []"
| "json_unescape [c] = (if c = QUOTE \<or> c = BSL \<or> byte c < 32 then None else Some [c])"
| "json_unescape (c # d # cs) =
     (if c = BSL then
        (case unescape_char d of None \<Rightarrow> None
         | Some x \<Rightarrow> map_option ((#) x) (json_unescape cs))
      else if c = QUOTE \<or> byte c < 32 then None
      else map_option ((#) c) (json_unescape (d # cs)))"

definition representable_char :: "char \<Rightarrow> bool" where
  "representable_char c \<longleftrightarrow> 32 \<le> byte c \<or> c = NL \<or> c = CR \<or> c = TAB"

section \<open>Lemmas\<close>

lemma json_chars [simp]:
  "QUOTE \<noteq> BSL" "BSL \<noteq> QUOTE" "NL \<noteq> BSL" "NL \<noteq> QUOTE" "CR \<noteq> BSL" "CR \<noteq> QUOTE" "TAB \<noteq> BSL" "TAB \<noteq> QUOTE"
  "CR \<noteq> NL" "TAB \<noteq> NL" "TAB \<noteq> CR"
  "BSL \<noteq> NL" "QUOTE \<noteq> NL" "BSL \<noteq> CR" "QUOTE \<noteq> CR" "BSL \<noteq> TAB" "QUOTE \<noteq> TAB"
  "NL \<noteq> CR" "NL \<noteq> TAB" "CR \<noteq> TAB"
  by (simp_all add: QUOTE_def BSL_def NL_def CR_def TAB_def)

lemma json_bytes [simp]: "byte QUOTE = 34" "byte BSL = 92" "byte NL = 10" "byte CR = 13" "byte TAB = 9"
  by (simp_all add: QUOTE_def BSL_def NL_def CR_def TAB_def byte_def)

lemma json_unescape_plain:
  "c \<noteq> BSL \<Longrightarrow> c \<noteq> QUOTE \<Longrightarrow> 32 \<le> byte c \<Longrightarrow>
    json_unescape (c # cs) = map_option ((#) c) (json_unescape cs)"
  by (cases cs) auto

lemma json_unescape_pair:
  "unescape_char d = Some x \<Longrightarrow> json_unescape (BSL # d # cs) = map_option ((#) x) (json_unescape cs)"
  by simp

lemma unescape_char_simps [simp]:
  "unescape_char QUOTE = Some QUOTE" "unescape_char BSL = Some BSL"
  "unescape_char CHR ''n'' = Some NL" "unescape_char CHR ''r'' = Some CR" "unescape_char CHR ''t'' = Some TAB"
  by (simp_all add: unescape_char_def, simp_all add: QUOTE_def BSL_def)

lemma json_escape_from_length: "k + 1 \<le> sz \<Longrightarrow> k + length (json_escape_from sz k s) + 1 \<le> sz"
proof (induction sz k s rule: json_escape_from.induct)
  case (1 sz k)
  then show ?case by simp
next
  case (2 sz k c cs)
  then show ?case by auto
qed

lemma unescape_escape_prefix:
  "\<exists>p. json_unescape (json_escape_from sz k s) = Some p \<and> prefix p (filter representable_char s)"
proof (induction sz k s rule: json_escape_from.induct)
  case (1 sz k)
  then show ?case by simp
next
  case (2 sz k c cs)
  consider "\<not> k + 2 < sz" | "k + 2 < sz" "c = QUOTE \<or> c = BSL" | "k + 2 < sz" "c = NL \<or> c = CR \<or> c = TAB"
    | "k + 2 < sz" "\<not> representable_char c" | "k + 2 < sz" "c \<noteq> QUOTE" "c \<noteq> BSL" "32 \<le> byte c"
    by (auto simp: representable_char_def)
  then show ?case
  proof cases
    case 1
    then show ?thesis by simp
  next
    case 2
    then show ?thesis using "2.IH"(1) by (auto simp: representable_char_def)
  next
    case 3
    then show ?thesis using "2.IH"(2) by (auto simp: representable_char_def)
  next
    case 4
    then have "c \<noteq> QUOTE" "c \<noteq> BSL" "c \<noteq> NL" "c \<noteq> CR" "c \<noteq> TAB" "byte c < 32"
      by (auto simp: representable_char_def)
    with 4 show ?thesis using "2.IH"(3) by simp
  next
    case 5
    then have "c \<noteq> NL" "c \<noteq> CR" "c \<noteq> TAB" "\<not> byte c < 32" "representable_char c"
      by (auto simp: representable_char_def)
    with 5 show ?thesis using "2.IH"(4) by (auto simp: json_unescape_plain)
  qed
qed

lemma unescape_escape_full:
  "k + 2 * length s < sz \<Longrightarrow> json_unescape (json_escape_from sz k s) = Some (filter representable_char s)"
proof (induction sz k s rule: json_escape_from.induct)
  case (1 sz k)
  then show ?case by simp
next
  case (2 sz k c cs)
  then have sz: "k + 2 < sz" by simp
  consider "c = QUOTE \<or> c = BSL" | "c = NL \<or> c = CR \<or> c = TAB"
    | "\<not> representable_char c" | "c \<noteq> QUOTE" "c \<noteq> BSL" "32 \<le> byte c"
    by (auto simp: representable_char_def)
  then show ?case
  proof cases
    case 1
    then show ?thesis using sz "2.IH"(1) "2.prems" by (auto simp: representable_char_def)
  next
    case 2
    then show ?thesis using sz "2.IH"(2) "2.prems" by (auto simp: representable_char_def)
  next
    case 3
    then have "c \<noteq> QUOTE" "c \<noteq> BSL" "c \<noteq> NL" "c \<noteq> CR" "c \<noteq> TAB" "byte c < 32"
      by (auto simp: representable_char_def)
    with 3 show ?thesis using sz "2.IH"(3) "2.prems" by simp
  next
    case 4
    then have "c \<noteq> NL" "c \<noteq> CR" "c \<noteq> TAB" "\<not> byte c < 32" "representable_char c"
      by (auto simp: representable_char_def)
    with 4 show ?thesis using sz "2.IH"(4) "2.prems" by (auto simp: json_unescape_plain)
  qed
qed


section \<open>Properties\<close>



text \<open>The routine as an encoder of the texts that fit, for the IPC messages.\<close>

definition json_body :: "nat \<Rightarrow> string \<Rightarrow> string" where
  "json_body n s = (case kum_json_escape n s of None \<Rightarrow> [] | Some t \<Rightarrow> t)"

interpretation json: codec "json_body n" json_unescape "\<lambda>s. Some (filter representable_char s)"
    "\<lambda>s. 2 * length s < n" for n
  by unfold_locales (auto simp: json_body_def kum_json_escape_def unescape_escape_full)

lemma json_body_length: "0 < n \<Longrightarrow> length (json_body n s) < n"
  using json_escape_from_length [of 0 n s] by (auto simp: json_body_def kum_json_escape_def)

end
