(* ===== verification/Cfloat.thy ===== *)
theory Cfloat
  imports Complex_Main "HOL-Library.Log_Nat" Kum_Prelude
begin

text \<open>
  Binary floating point. A finite \<open>float\<close> or \<open>double\<close> is the rational number it
  denotes, and every operation of the code is the exact operation followed by
  rounding to the nearest representable number, ties to even, with gradual
  underflow. Infinities and NaNs are not represented: the results stand for the
  code's as long as no magnitude reaches \<open>2 ^ 128\<close> (\<open>float\<close>).
\<close>

section \<open>Rounding to an integer, ties to even\<close>

definition rne :: "rat \<Rightarrow> int" where
  "rne x =
     (let n = \<lfloor>x\<rfloor>; d = x - of_int n in
      if d < 1 / 2 then n else if 1 / 2 < d then n + 1 else if even n then n else n + 1)"

lemma rne_of_int [simp]: "rne (of_int k) = k"
  by (simp add: rne_def)

lemma rne_le: "x \<le> of_int k \<Longrightarrow> rne x \<le> k"
proof -
  assume x: "x \<le> of_int k"
  show ?thesis
  proof (cases "\<lfloor>x\<rfloor> < k")
    case True
    then show ?thesis by (auto simp: rne_def Let_def)
  next
    case False
    then have "of_int k \<le> x" by (simp add: le_floor_iff not_less)
    with x have "x = of_int k" by simp
    then show ?thesis by simp
  qed
qed

lemma rne_ge: "of_int k \<le> x \<Longrightarrow> k \<le> rne x"
proof -
  assume "of_int k \<le> x"
  then have "k \<le> \<lfloor>x\<rfloor>" by (simp add: le_floor_iff)
  then show ?thesis by (auto simp: rne_def Let_def)
qed

lemma rne_mono: assumes "x \<le> y" shows "rne x \<le> rne y"
proof (cases "\<lfloor>x\<rfloor> = \<lfloor>y\<rfloor>")
  case True
  then show ?thesis using assms by (auto simp: rne_def Let_def)
next
  case False
  then have "\<lfloor>x\<rfloor> + 1 \<le> \<lfloor>y\<rfloor>" using floor_mono [OF assms] by linarith
  moreover have "rne x \<le> \<lfloor>x\<rfloor> + 1" by (auto simp: rne_def Let_def)
  moreover have "\<lfloor>y\<rfloor> \<le> rne y" by (auto simp: rne_def Let_def)
  ultimately show ?thesis by linarith
qed

section \<open>The binary exponent\<close>

definition expo :: "rat \<Rightarrow> int" where
  \<comment> \<open>the \<open>e\<close> with \<open>2 ^ e \<le> x < 2 ^ (e + 1)\<close>, for positive \<open>x\<close>\<close>
  "expo x = (let (a, b) = quotient_of x; e = bitlen a - bitlen b in
             if 2 powi e \<le> x then e else e - 1)"

lemma powi_2_nat: "0 \<le> e \<Longrightarrow> (2::rat) powi e = of_int (2 ^ nat e)"
  by (simp add: power_int_def)

lemma bitlen_powi:
  assumes "0 < a"
  shows "2 powi (bitlen a - 1) \<le> (of_int a :: rat)" and "(of_int a :: rat) < 2 powi bitlen a"
proof -
  have "bitlen a \<noteq> 0" using assms by (simp add: bitlen_eq_zero_iff)
  then have l: "0 \<le> bitlen a - 1" using bitlen_nonneg [of a] by linarith
  show "2 powi (bitlen a - 1) \<le> (of_int a :: rat)"
    using bitlen_bounds [OF assms] by (simp only: powi_2_nat [OF l] of_int_le_iff)
  show "(of_int a :: rat) < 2 powi bitlen a"
    using bitlen_bounds [OF assms] by (simp only: powi_2_nat [OF bitlen_nonneg] of_int_less_iff)
qed

lemma powi_2_pos [simp]: "0 < (2::rat) powi e"
  by (simp add: zero_less_power_int)

lemma powi_2_diff: "(2::rat) powi (a - b) = 2 powi a / 2 powi b"
  by (simp add: power_int_diff)

lemma expo_bounds:
  assumes "0 < x"
  shows "2 powi (expo x) \<le> x" and "x < 2 powi (expo x + 1)"
proof -
  obtain a b where q: "quotient_of x = (a, b)" by (cases "quotient_of x") auto
  have b: "0 < b" using quotient_of_denom_pos [OF q] .
  have x: "x = of_int a / of_int b" using quotient_of_div [OF q] .
  have a: "0 < a" using assms b by (simp add: x zero_less_divide_iff)
  define e where "e = bitlen a - bitlen b"
  have "(2::rat) powi (e - 1) = 2 powi (bitlen a - 1) / 2 powi bitlen b"
    by (simp add: e_def algebra_simps flip: powi_2_diff)
  also have "\<dots> \<le> of_int a / of_int b"
    using bitlen_powi [OF a] bitlen_powi [OF b] a b by (intro frac_le) auto
  finally have lo: "2 powi (e - 1) \<le> x" by (simp add: x)
  have "x < 2 powi bitlen a / 2 powi (bitlen b - 1)"
    unfolding x using bitlen_powi [OF a] bitlen_powi [OF b] a by (intro frac_less) auto
  also have "\<dots> = (2::rat) powi (e + 1)"
    by (simp add: e_def algebra_simps flip: powi_2_diff)
  finally have hi: "x < 2 powi (e + 1)" .
  have ex: "expo x = (if 2 powi e \<le> x then e else e - 1)"
    by (simp add: expo_def q e_def)
  show "2 powi (expo x) \<le> x" using lo by (simp add: ex)
  show "x < 2 powi (expo x + 1)" using hi by (simp add: ex)
qed

lemma powi_2_less: "(2::rat) powi a < 2 powi b \<longleftrightarrow> a < b"
  using power_int_strict_increasing [of a b "2::rat"] power_int_increasing [of b a "2::rat"]
  by fastforce

lemma powi_2_le: "(2::rat) powi a \<le> 2 powi b \<longleftrightarrow> a \<le> b"
  by (meson not_le powi_2_less)

lemma expo_mono:
  assumes "0 < x" and "x \<le> y"
  shows "expo x \<le> expo y"
proof -
  have y: "0 < y" using assms by simp
  have "2 powi (expo x) < (2::rat) powi (expo y + 1)"
    using expo_bounds [OF assms(1)] expo_bounds [OF y] assms(2) by linarith
  then show ?thesis by (simp add: powi_2_less)
qed

section \<open>Rounding to a format\<close>

text \<open>
  \<open>rnd p m\<close> rounds to the format with \<open>p\<close> significant bits whose smallest normal
  exponent is \<open>m\<close>; \<open>ulp\<close> is the distance of two neighbours around the number.
\<close>

definition ulp :: "nat \<Rightarrow> int \<Rightarrow> rat \<Rightarrow> rat" where
  "ulp p m x = 2 powi (max (expo x) m - int p + 1)"

definition rnd :: "nat \<Rightarrow> int \<Rightarrow> rat \<Rightarrow> rat" where
  "rnd p m x =
     (if x = 0 then 0
      else if 0 < x then of_int (rne (x / ulp p m x)) * ulp p m x
      else - (of_int (rne (- x / ulp p m (- x))) * ulp p m (- x)))"

lemma ulp_pos [simp]: "0 < ulp p m x"
  by (simp add: ulp_def)

lemma rnd_zero [simp]: "rnd p m 0 = 0"
  by (simp add: rnd_def)

lemma rnd_minus: "rnd p m (- x) = - rnd p m x"
  by (auto simp: rnd_def)

lemma rnd_nonneg: "0 \<le> x \<Longrightarrow> 0 \<le> rnd p m x"
  using rne_ge [of 0 "x / ulp p m x"] less_imp_le [OF ulp_pos [of p m x]]
  by (auto simp: rnd_def divide_nonneg_pos)

lemma powi_2_split: "a = int n + b \<Longrightarrow> (2::rat) powi a = of_int (2 ^ n) * 2 powi b"
  by (simp add: power_int_add)

lemma powi_2_add: "(2::rat) powi (a + b) = 2 powi a * 2 powi b"
  by (simp add: power_int_add)

lemma rnd_pos_le:
  assumes "0 < x"
  shows "rnd p m x \<le> 2 powi (max (expo x) m + 1)"
proof -
  let ?E = "max (expo x) m"
  have "x < 2 powi (expo x + 1)" using assms by (rule expo_bounds)
  also have "\<dots> \<le> 2 powi (?E + 1)" by (simp add: powi_2_le)
  also have "\<dots> = of_int (2 ^ p) * ulp p m x"
    unfolding ulp_def by (rule powi_2_split) simp
  finally have "x / ulp p m x \<le> of_int (2 ^ p)" by (simp add: pos_divide_le_eq less_imp_le)
  then have "rne (x / ulp p m x) \<le> 2 ^ p" by (rule rne_le)
  then have "of_int (rne (x / ulp p m x)) * ulp p m x \<le> of_int (2 ^ p) * ulp p m x"
    by (intro mult_right_mono) (simp_all only: of_int_le_iff less_imp_le [OF ulp_pos])
  also have "\<dots> = 2 powi (?E + 1)"
    unfolding ulp_def by (rule powi_2_split [symmetric]) simp
  finally show ?thesis using assms by (simp add: rnd_def)
qed

lemma rnd_pos_ge:
  assumes "0 < x" and "0 < p" and "m \<le> expo x"
  shows "2 powi (expo x) \<le> rnd p m x"
proof -
  have u: "of_int (2 ^ (p - 1)) * ulp p m x = 2 powi (expo x)"
    unfolding ulp_def using assms(2,3) by (intro powi_2_split [symmetric]) (simp add: of_nat_diff)
  then have "of_int (2 ^ (p - 1)) * ulp p m x \<le> x" using expo_bounds(1) [OF assms(1)] by simp
  then have "of_int (2 ^ (p - 1)) \<le> x / ulp p m x" by (simp add: pos_le_divide_eq)
  then have "2 ^ (p - 1) \<le> rne (x / ulp p m x)" by (rule rne_ge)
  then have "of_int (2 ^ (p - 1)) * ulp p m x \<le> of_int (rne (x / ulp p m x)) * ulp p m x"
    by (intro mult_right_mono) (simp_all only: of_int_le_iff less_imp_le [OF ulp_pos])
  then have "2 powi (expo x) \<le> of_int (rne (x / ulp p m x)) * ulp p m x" unfolding u .
  then show ?thesis using assms(1) by (simp add: rnd_def)
qed

lemma rnd_mono_pos:
  assumes "0 < x" and "x \<le> y" and "0 < p"
  shows "rnd p m x \<le> rnd p m y"
proof -
  have y: "0 < y" using assms by simp
  have E: "max (expo x) m \<le> max (expo y) m" using expo_mono [OF assms(1,2)] by auto
  show ?thesis
  proof (cases "max (expo x) m = max (expo y) m")
    case True
    then have u: "ulp p m x = ulp p m y" by (simp add: ulp_def)
    have "rne (x / ulp p m y) \<le> rne (y / ulp p m y)"
      using assms(2) by (intro rne_mono divide_right_mono less_imp_le [OF ulp_pos])
    then show ?thesis using assms(1) y u
      by (simp add: rnd_def mult_right_mono less_imp_le [OF ulp_pos])
  next
    case False
    with E have "max (expo x) m + 1 \<le> expo y" and "m \<le> expo y" by auto
    then have "2 powi (max (expo x) m + 1) \<le> (2::rat) powi (expo y)" by (simp only: powi_2_le)
    with rnd_pos_le [OF assms(1), of p m] rnd_pos_ge [OF y assms(3) \<open>m \<le> expo y\<close>]
    show ?thesis by linarith
  qed
qed

lemma rnd_mono:
  assumes "x \<le> y" and "0 < p"
  shows "rnd p m x \<le> rnd p m y"
proof (cases "0 < x")
  case True
  then show ?thesis using assms by (rule rnd_mono_pos)
next
  case x: False
  show ?thesis
  proof (cases "0 \<le> y")
    case True
    then have "0 \<le> rnd p m y" by (rule rnd_nonneg)
    moreover have "0 \<le> rnd p m (- x)" using x by (intro rnd_nonneg) simp
    ultimately show ?thesis by (simp add: rnd_minus)
  next
    case False
    then have "rnd p m (- y) \<le> rnd p m (- x)" using assms by (intro rnd_mono_pos) auto
    then show ?thesis by (simp add: rnd_minus)
  qed
qed

section \<open>Exact results\<close>

definition representable :: "nat \<Rightarrow> int \<Rightarrow> rat \<Rightarrow> bool" where
  "representable p m v \<longleftrightarrow>
     (\<exists>k e. v = of_int k * 2 powi e \<and> \<bar>k\<bar> \<le> 2 ^ p \<and> m - int p + 1 \<le> e)"

lemma rnd_exact_pos:
  assumes v: "v = of_int k * 2 powi e" and k: "0 < k" "k \<le> 2 ^ p" and e: "m - int p + 1 \<le> e" and p: "0 < p"
  shows "rnd p m v = v"
proof -
  have pos: "0 < v" using k by (simp add: v)
  let ?E = "max (expo v) m"
  have int: "\<exists>j. v / ulp p m v = of_int j"
  proof (cases "?E - int p + 1 \<le> e")
    case True
    then have "(2::rat) powi e = of_int (2 ^ nat (e - (?E - int p + 1))) * ulp p m v"
      unfolding ulp_def by (intro powi_2_split) simp
    then have "v = of_int (k * 2 ^ nat (e - (?E - int p + 1))) * ulp p m v"
      by (subst v) simp
    then have "v / ulp p m v = of_int (k * 2 ^ nat (e - (?E - int p + 1)))"
      using ulp_pos [of p m v] by (metis less_irrefl nonzero_mult_div_cancel_right)
    then show ?thesis by blast
  next
    case False
    then have E: "?E = expo v" using e by auto
    have "v \<le> of_int (2 ^ p) * 2 powi e"
      unfolding v using k by (intro mult_right_mono) (simp_all only: of_int_le_iff less_imp_le [OF powi_2_pos])
    also have "\<dots> = 2 powi (int p + e)" using powi_2_nat [of "int p"] by (simp add: powi_2_add)
    finally have up: "v \<le> 2 powi (int p + e)" .
    with expo_bounds(1) [OF pos] have "2 powi expo v \<le> (2::rat) powi (int p + e)" by linarith
    then have "expo v \<le> int p + e" by (simp only: powi_2_le)
    with False E have Ev: "expo v = int p + e" by linarith
    with up expo_bounds(1) [OF pos] have "v = 2 powi (int p + e)" by simp
    then have "v / ulp p m v = 2 powi (int p - 1)"
      using E Ev by (simp add: ulp_def flip: powi_2_diff)
    moreover have "(2::rat) powi (int p - 1) = of_int (2 ^ nat (int p - 1))"
      using p by (intro powi_2_nat) simp
    ultimately show ?thesis by metis
  qed
  then obtain j where j: "v / ulp p m v = of_int j" by blast
  then have "rne (v / ulp p m v) = j" by simp
  then have "of_int (rne (v / ulp p m v)) * ulp p m v = v / ulp p m v * ulp p m v"
    using j by simp
  also have "\<dots> = v" using less_imp_neq [OF ulp_pos [of p m v]] by simp
  finally have "of_int (rne (v / ulp p m v)) * ulp p m v = v" .
  then show ?thesis using pos by (simp add: rnd_def)
qed

lemma rnd_exact:
  assumes "0 < p" and "representable p m v"
  shows "rnd p m v = v"
proof -
  obtain k e where v: "v = of_int k * 2 powi e" and k: "\<bar>k\<bar> \<le> 2 ^ p" and e: "m - int p + 1 \<le> e"
    using assms(2) unfolding representable_def by blast
  consider "k = 0" | "0 < k" | "k < 0" by linarith
  then show ?thesis
  proof cases
    case 1
    then show ?thesis by (simp add: v)
  next
    case 2
    then show ?thesis using rnd_exact_pos [OF v] k e assms(1) by simp
  next
    case 3
    then have "rnd p m (- v) = - v"
      using rnd_exact_pos [of "- v" "- k" e p m] k e v assms(1) by simp
    then show ?thesis by (simp add: rnd_minus)
  qed
qed

lemma rnd_of_int:
  assumes "0 < p" and "\<bar>k\<bar> \<le> 2 ^ p" and "m \<le> int p - 1"
  shows "rnd p m (of_int k) = of_int k"
proof (rule rnd_exact)
  have "of_int k = of_int k * (2::rat) powi 0" by simp
  with assms show "representable p m (of_int k)"
    unfolding representable_def by (intro exI [of _ k] exI [of _ "0::int"] conjI) simp_all
qed (rule assms)

section \<open>The two formats\<close>

definition f32 :: "rat \<Rightarrow> rat" where "f32 = rnd 24 (-126)"
definition f64 :: "rat \<Rightarrow> rat" where "f64 = rnd 53 (-1022)"

definition trunc :: "rat \<Rightarrow> int" where
  \<comment> \<open>the conversion \<open>(int)x\<close>: towards zero\<close>
  "trunc x = (if 0 \<le> x then \<lfloor>x\<rfloor> else - \<lfloor>- x\<rfloor>)"

lemma trunc_of_int [simp]: "trunc (of_int k) = k"
  by (simp add: trunc_def)

lemma trunc_numeral [simp]: "trunc (numeral k) = numeral k" "trunc 0 = 0" "trunc 1 = 1"
  by (simp_all add: trunc_def)

lemma trunc_mono: "x \<le> y \<Longrightarrow> trunc x \<le> trunc y"
proof (cases "0 \<le> x")
  case True
  assume "x \<le> y"
  with True show ?thesis by (auto simp: trunc_def intro: floor_mono)
next
  case False
  assume xy: "x \<le> y"
  show ?thesis
  proof (cases "0 \<le> y")
    case True
    have "0 \<le> \<lfloor>- x\<rfloor>" and "0 \<le> \<lfloor>y\<rfloor>" using False True by simp_all
    then have "- \<lfloor>- x\<rfloor> \<le> \<lfloor>y\<rfloor>" by linarith
    then show ?thesis using False True by (simp only: trunc_def if_True if_False)
  next
    case yneg: False
    have "\<lfloor>- y\<rfloor> \<le> \<lfloor>- x\<rfloor>" using xy by (intro floor_mono) simp
    then show ?thesis using False yneg by (simp add: trunc_def)
  qed
qed

text \<open>
  What the code relies on in its floating point arithmetic: rounding is monotone,
  symmetric and exact on small integers. Everything below holds for both formats.
\<close>

locale rounding =
  fixes fl :: "rat \<Rightarrow> rat" and B :: int
  assumes fl_mono: "x \<le> y \<Longrightarrow> fl x \<le> fl y"
    and fl_minus: "fl (- x) = - fl x"
    and fl_int: "\<bar>k\<bar> \<le> B \<Longrightarrow> fl (of_int k) = of_int k"
    and B_pos: "1 \<le> B"
begin

lemma fl_0: "fl 0 = 0"
  using fl_int [of 0] B_pos by simp

lemma fl_1: "fl 1 = 1"
  using fl_int [of 1] B_pos by simp

lemma fl_nonneg: "0 \<le> x \<Longrightarrow> 0 \<le> fl x"
  using fl_mono [of 0 x] by (simp add: fl_0)

lemma fl_le_1: "x \<le> 1 \<Longrightarrow> fl x \<le> 1"
  using fl_mono [of x 1] by (simp add: fl_1)

lemma fl_unit: "0 \<le> x \<Longrightarrow> x \<le> 1 \<Longrightarrow> 0 \<le> fl x \<and> fl x \<le> 1"
  by (simp add: fl_nonneg fl_le_1)

lemma fl_between: "of_int a \<le> x \<Longrightarrow> x \<le> of_int b \<Longrightarrow> \<bar>a\<bar> \<le> B \<Longrightarrow> \<bar>b\<bar> \<le> B \<Longrightarrow>
    of_int a \<le> fl x \<and> fl x \<le> of_int b"
  using fl_mono [of "of_int a" x] fl_mono [of x "of_int b"] by (simp add: fl_int)

text \<open>A share \<open>r\<close> between 0 and 1 of a length never leaves the length.\<close>

lemma fl_share:
  assumes "0 \<le> n" and "n \<le> B" and "0 \<le> r" and "r \<le> 1"
  shows "0 \<le> trunc (fl (of_int n * r)) \<and> trunc (fl (of_int n * r)) \<le> n"
proof -
  have "of_int n * r \<le> of_int n * 1" using assms by (intro mult_left_mono) auto
  then have "of_int 0 \<le> fl (of_int n * r) \<and> fl (of_int n * r) \<le> of_int n"
    using assms by (intro fl_between) auto
  then show ?thesis
    using trunc_mono [of "of_int 0" "fl (of_int n * r)"] trunc_mono [of "fl (of_int n * r)" "of_int n"]
    by (metis trunc_of_int)
qed

text \<open>A product of two factors between 0 and 1 grows with each of them.\<close>

lemma fl_mult_mono: "0 \<le> x \<Longrightarrow> x \<le> y \<Longrightarrow> 0 \<le> u \<Longrightarrow> u \<le> v \<Longrightarrow> fl (x * u) \<le> fl (y * v)"
  by (intro fl_mono mult_mono) auto

end

interpretation flt32: rounding f32 "2 ^ 24"
  by unfold_locales (auto simp: f32_def rnd_mono rnd_minus intro!: rnd_of_int)

interpretation flt64: rounding f64 "2 ^ 53"
  by unfold_locales (auto simp: f64_def rnd_mono rnd_minus intro!: rnd_of_int)

lemma f32_simps [simp]: "f32 0 = 0" "f32 1 = 1"
  by (rule flt32.fl_0 flt32.fl_1)+

lemma f32_numeral: "(numeral k :: int) \<le> 2 ^ 24 \<Longrightarrow> f32 (numeral k) = numeral k"
  using flt32.fl_int [of "numeral k"] by simp

end
