(* ===== verification/Easing.thy ===== *)
theory Easing
  imports Cfloat
begin

text \<open>
  \<open>src/easing.c\<close> and \<open>include/easing.h\<close>: the timing curves and the animation
  record every window carries. Every arithmetic step of the code is followed by
  one rounding \<open>f32\<close>; the monotonic clock is an argument.
\<close>

section \<open>Data\<close>

datatype kum_anim_type = ANIM_NONE | ANIM_OPENING | ANIM_CLOSING | ANIM_FOCUSING

record timespec =
  tv_sec :: int
  tv_nsec :: int

record kum_animation =
  an_type :: kum_anim_type
  an_start :: timespec
  duration_ms :: rat
  an_from :: rat
  an_to :: rat
  an_current :: rat
  an_done :: bool

section \<open>Curves\<close>

definition kum_ease_out_cubic :: "rat \<Rightarrow> rat" where
  "kum_ease_out_cubic t = (let f = f32 (1 - t) in f32 (1 - f32 (f32 (f * f) * f)))"

definition kum_ease_in_cubic :: "rat \<Rightarrow> rat" where
  "kum_ease_in_cubic t = f32 (f32 (t * t) * t)"

definition kum_ease_in_out_cubic :: "rat \<Rightarrow> rat" where
  "kum_ease_in_out_cubic t =
     (if t < 1 / 2 then f32 (f32 (f32 (4 * t) * t) * t)
      else let f = f32 (f32 (2 * t) - 2)
           in f32 (f32 (f32 (f32 (1 / 2 * f) * f) * f) + 1))"

definition kum_ease_out_back :: "rat \<Rightarrow> rat" where
  "kum_ease_out_back t =
     (let c1 = f32 (170158 / 100000); c3 = f32 (c1 + 1); f = f32 (t - 1)
      in f32 (f32 (1 + f32 (f32 (f32 (c3 * f) * f) * f)) + f32 (f32 (c1 * f) * f)))"

section \<open>Animations\<close>

definition ms_elapsed :: "timespec \<Rightarrow> timespec \<Rightarrow> rat" where
  "ms_elapsed now start =
     (let s = f64 (of_int (tv_sec now - tv_sec start));
          n = f64 (of_int (tv_nsec now - tv_nsec start))
      in f32 (f64 (f64 (s * 1000) + f64 (n / 1000000))))"

definition kum_anim_start ::
    "timespec \<Rightarrow> kum_anim_type \<Rightarrow> rat \<Rightarrow> rat \<Rightarrow> rat \<Rightarrow> kum_animation \<Rightarrow> kum_animation" where
  "kum_anim_start now ty from to dur a =
     a\<lparr>an_type := ty, an_from := from, an_to := to, duration_ms := dur, an_current := from,
       an_done := False, an_start := now\<rparr>"

definition eased :: "kum_anim_type \<Rightarrow> rat \<Rightarrow> rat" where
  "eased ty t =
     (case ty of ANIM_OPENING \<Rightarrow> kum_ease_out_back t
      | ANIM_CLOSING \<Rightarrow> kum_ease_in_cubic t
      | ANIM_FOCUSING \<Rightarrow> kum_ease_out_cubic t
      | ANIM_NONE \<Rightarrow> t)"

text \<open>
  The quotient \<open>elapsed / duration\<close> with a zero duration is an infinity in C, or a
  NaN at the very start. An infinity is at least 1 and completes the animation,
  which \<open>ratio\<close> returns 1 for; a NaN fails the comparison and is \<open>None\<close> here.
\<close>

definition ratio :: "rat \<Rightarrow> rat \<Rightarrow> rat option" where
  "ratio e d =
     (if d \<noteq> 0 then Some (f32 (e / d)) else if 0 < e then Some 1 else if e < 0 then Some (- 1) else None)"

text \<open>
  A tick is \<open>None\<close> when the animated value would become a NaN, or an infinity of
  the wrong sign (a clock running backwards with a zero duration).
\<close>

definition kum_anim_tick :: "timespec \<Rightarrow> kum_animation \<Rightarrow> kum_animation option" where
  "kum_anim_tick now a =
     (if an_done a \<or> an_type a = ANIM_NONE then Some a
      else case ratio (ms_elapsed now (an_start a)) (duration_ms a) of
          None \<Rightarrow> None
        | Some t0 \<Rightarrow>
            if duration_ms a = 0 \<and> t0 < 0 then None
            else
              (let t = (if 1 \<le> t0 then 1 else t0);
                   d = (if 1 \<le> t0 then True else an_done a)
               in Some (a\<lparr>an_done := d,
                          an_current := f32 (an_from a + f32 (f32 (an_to a - an_from a) * eased (an_type a) t))\<rparr>)))"

section \<open>End points\<close>

lemma f32_half [simp]: "f32 (1 / 2) = 1 / 2"
  by code_simp

lemma ease_out_cubic_ends: "kum_ease_out_cubic 0 = 0" "kum_ease_out_cubic 1 = 1"
  by (simp_all add: kum_ease_out_cubic_def)

lemma ease_in_cubic_ends: "kum_ease_in_cubic 0 = 0" "kum_ease_in_cubic 1 = 1"
  by (simp_all add: kum_ease_in_cubic_def)

lemma ease_in_out_cubic_ends: "kum_ease_in_out_cubic 0 = 0" "kum_ease_in_out_cubic 1 = 1"
  by (simp_all add: kum_ease_in_out_cubic_def f32_numeral)

lemma ease_out_back_0: "kum_ease_out_back 0 = 0"
  by code_simp

lemma ease_out_back_1: "kum_ease_out_back 1 = 1"
  by (simp add: kum_ease_out_back_def Let_def)

section \<open>Bounds and monotonicity\<close>

text \<open>The rounded cube of a number between 0 and 1.\<close>

definition cube :: "rat \<Rightarrow> rat" where
  "cube x = f32 (f32 (x * x) * x)"

lemma cube_mono: "0 \<le> x \<Longrightarrow> x \<le> y \<Longrightarrow> cube x \<le> cube y"
  unfolding cube_def by (intro flt32.fl_mult_mono flt32.fl_nonneg mult_nonneg_nonneg) auto

lemma cube_unit: "0 \<le> x \<Longrightarrow> x \<le> 1 \<Longrightarrow> 0 \<le> cube x \<and> cube x \<le> 1"
  unfolding cube_def by (meson flt32.fl_unit mult_le_one mult_nonneg_nonneg)

lemma ease_in_cubic_cube: "kum_ease_in_cubic t = cube t"
  by (simp add: kum_ease_in_cubic_def cube_def)

lemma ease_out_cubic_cube: "kum_ease_out_cubic t = f32 (1 - cube (f32 (1 - t)))"
  by (simp add: kum_ease_out_cubic_def cube_def Let_def)

lemma ease_in_cubic_mono: "0 \<le> x \<Longrightarrow> x \<le> y \<Longrightarrow> kum_ease_in_cubic x \<le> kum_ease_in_cubic y"
  by (simp add: ease_in_cubic_cube cube_mono)

lemma ease_out_cubic_mono:
  assumes "x \<le> y" and "y \<le> 1"
  shows "kum_ease_out_cubic x \<le> kum_ease_out_cubic y"
proof -
  have "cube (f32 (1 - y)) \<le> cube (f32 (1 - x))"
    using assms by (intro cube_mono flt32.fl_nonneg flt32.fl_mono) auto
  then show ?thesis unfolding ease_out_cubic_cube by (intro flt32.fl_mono) simp
qed

lemma in_out_first:
  "0 \<le> x \<Longrightarrow> x \<le> y \<Longrightarrow>
    f32 (f32 (f32 (4 * x) * x) * x) \<le> f32 (f32 (f32 (4 * y) * y) * y)"
  by (intro flt32.fl_mult_mono flt32.fl_nonneg flt32.fl_mono mult_nonneg_nonneg) auto

lemma in_out_second:
  assumes "f \<le> g" and "g \<le> 0"
  shows "f32 (f32 (f32 (1 / 2 * f) * f) * f) \<le> f32 (f32 (f32 (1 / 2 * g) * g) * g)"
proof -
  have a: "f32 (1 / 2 * (- g)) \<le> f32 (1 / 2 * (- f))" using assms by (intro flt32.fl_mono) auto
  have b: "f32 (f32 (1 / 2 * (- g)) * (- g)) \<le> f32 (f32 (1 / 2 * (- f)) * (- f))"
    using assms a by (intro flt32.fl_mult_mono flt32.fl_nonneg) auto
  have "f32 (f32 (f32 (1 / 2 * (- g)) * (- g)) * (- g)) \<le>
        f32 (f32 (f32 (1 / 2 * (- f)) * (- f)) * (- f))"
    using assms b by (intro flt32.fl_mult_mono flt32.fl_nonneg mult_nonneg_nonneg) auto
  then show ?thesis by (simp add: flt32.fl_minus)
qed

lemma in_out_half:
  "f32 (f32 (f32 (4 * (1 / 2)) * (1 / 2)) * (1 / 2)) = 1 / 2"
  "f32 (f32 (f32 (f32 (1 / 2 * - 1) * - 1) * - 1) + 1) = 1 / 2"
  by code_simp+

lemma ease_in_out_cubic_mono:
  assumes "0 \<le> x" and "x \<le> y" and "y \<le> 1"
  shows "kum_ease_in_out_cubic x \<le> kum_ease_in_out_cubic y"
proof -
  let ?a = "\<lambda>t. f32 (f32 (f32 (4 * t) * t) * t)"
  let ?f = "\<lambda>t. f32 (f32 (2 * t) - 2)"
  let ?b = "\<lambda>t. f32 (f32 (f32 (f32 (1 / 2 * ?f t) * ?f t) * ?f t) + 1)"
  have neg: "?f t \<le> 0" if "t \<le> 1" for t
  proof -
    have "f32 (2 * t) \<le> f32 2" using that by (intro flt32.fl_mono) auto
    then have "f32 (f32 (2 * t) - 2) \<le> f32 0" by (intro flt32.fl_mono) (simp add: f32_numeral)
    then show ?thesis by simp
  qed
  have fmono: "?f s \<le> ?f t" if "s \<le> t" for s t
    using that by (intro flt32.fl_mono) (simp add: flt32.fl_mono)
  have b: "?b s \<le> ?b t" if "s \<le> t" "t \<le> 1" for s t
    using in_out_second [OF fmono [OF that(1)] neg [OF that(2)]] by (intro flt32.fl_mono) simp
  have fh: "?f (1 / 2) = - 1" by code_simp
  have bh: "?b (1 / 2) = 1 / 2" unfolding fh by (rule in_out_half)
  have ah: "?a (1 / 2) = 1 / 2" by (rule in_out_half)
  consider "y < 1 / 2" | "x < 1 / 2" "1 / 2 \<le> y" | "1 / 2 \<le> x" using assms by linarith
  then show ?thesis
  proof cases
    case 1
    then show ?thesis using assms in_out_first [of x y] by (simp add: kum_ease_in_out_cubic_def)
  next
    case 2
    have "?a x \<le> 1 / 2" using in_out_first [of x "1 / 2"] assms 2 ah by simp
    also have "\<dots> \<le> ?b y" using b [of "1 / 2" y] assms 2 bh by simp
    finally show ?thesis using 2 by (simp add: kum_ease_in_out_cubic_def Let_def)
  next
    case 3
    then show ?thesis using assms b [of x y] by (simp add: kum_ease_in_out_cubic_def Let_def)
  qed
qed

text \<open>
  The contract of a timing curve: it starts at 0, ends at 1 and never goes back in
  between. Everything a client needs of the three cubic curves follows.
\<close>

locale timing_curve =
  fixes curve :: "rat \<Rightarrow> rat"
  assumes curve_0: "curve 0 = 0"
    and curve_1: "curve 1 = 1"
    and curve_mono: "0 \<le> x \<Longrightarrow> x \<le> y \<Longrightarrow> y \<le> 1 \<Longrightarrow> curve x \<le> curve y"
begin

lemma curve_unit: "0 \<le> t \<Longrightarrow> t \<le> 1 \<Longrightarrow> 0 \<le> curve t \<and> curve t \<le> 1"
  using curve_mono [of 0 t] curve_mono [of t 1] by (simp add: curve_0 curve_1)

end

interpretation in_cubic: timing_curve kum_ease_in_cubic
  by unfold_locales (simp_all add: ease_in_cubic_ends ease_in_cubic_mono)

interpretation out_cubic: timing_curve kum_ease_out_cubic
  by unfold_locales (simp_all add: ease_out_cubic_ends ease_out_cubic_mono)

interpretation in_out_cubic: timing_curve kum_ease_in_out_cubic
  by unfold_locales (simp_all add: ease_in_out_cubic_ends ease_in_out_cubic_mono)

section \<open>The tick\<close>

lemma eased_1: "eased ty 1 = 1"
  by (cases ty) (simp_all add: eased_def ease_out_back_1 ease_in_cubic_ends ease_out_cubic_ends)

lemma ratio_ge_1: "0 < d \<Longrightarrow> d \<le> e \<Longrightarrow> \<exists>t. ratio e d = Some t \<and> 1 \<le> t"
  using flt32.fl_mono [of 1 "e / d"] by (simp add: ratio_def)

lemma ratio_unit: "0 < d \<Longrightarrow> 0 \<le> e \<Longrightarrow> \<exists>t. ratio e d = Some t \<and> 0 \<le> t"
  by (simp add: ratio_def flt32.fl_nonneg)

lemma anim_tick_done: "an_done a \<Longrightarrow> kum_anim_tick now a = Some a"
  by (simp add: kum_anim_tick_def)

lemma anim_tick_running:
  "an_type a \<noteq> ANIM_NONE \<Longrightarrow> \<not> an_done a \<Longrightarrow> 0 < duration_ms a \<Longrightarrow>
    kum_anim_tick now a =
      (let t0 = f32 (ms_elapsed now (an_start a) / duration_ms a); t = (if 1 \<le> t0 then 1 else t0)
       in Some (a\<lparr>an_done := 1 \<le> t0,
                  an_current := f32 (an_from a + f32 (f32 (an_to a - an_from a) * eased (an_type a) t))\<rparr>))"
  by (simp add: kum_anim_tick_def ratio_def Let_def)

section \<open>Properties\<close>

text \<open>
  On [0, 1] the three cubic timing curves of the compositor, computed in single
  precision, start at 0, end at 1, stay within [0, 1] and never go backwards, also
  across the seam at 1/2 of the two-piece curve.
\<close>

theorem cubic_curves_monotone:
  assumes "0 \<le> x" and "x \<le> y" and "y \<le> 1"
    and "c \<in> {kum_ease_in_cubic, kum_ease_out_cubic, kum_ease_in_out_cubic}"
  shows "c 0 = 0 \<and> c 1 = 1 \<and> 0 \<le> c x \<and> c x \<le> c y \<and> c y \<le> 1"
proof -
  consider "c = kum_ease_in_cubic" | "c = kum_ease_out_cubic" | "c = kum_ease_in_out_cubic"
    using assms(4) by blast
  then show ?thesis
  proof cases
    case 1
    then show ?thesis
      using assms in_cubic.curve_mono [of x y] in_cubic.curve_unit
      by (auto simp: in_cubic.curve_0 in_cubic.curve_1)
  next
    case 2
    then show ?thesis
      using assms out_cubic.curve_mono [of x y] out_cubic.curve_unit
      by (auto simp: out_cubic.curve_0 out_cubic.curve_1)
  next
    case 3
    then show ?thesis
      using assms in_out_cubic.curve_mono [of x y] in_out_cubic.curve_unit
      by (auto simp: in_out_cubic.curve_0 in_out_cubic.curve_1)
  qed
qed

lemma cubic_curves_monotone_witness:
  "kum_ease_in_out_cubic 0 = 0 \<and> kum_ease_in_out_cubic 1 = 1 \<and> 0 \<le> kum_ease_in_out_cubic (1 / 4) \<and>
   kum_ease_in_out_cubic (1 / 4) \<le> kum_ease_in_out_cubic (3 / 4) \<and> kum_ease_in_out_cubic (3 / 4) \<le> 1"
  by (rule cubic_curves_monotone) simp_all

text \<open>
  C25. An animation that was started and whose duration has passed completes on its
  next tick: it is marked done and its value is exactly the target for the end
  points 0 and 1 the compositor uses, whatever its curve, and every later tick
  leaves it alone.
\<close>

theorem anim_completes:
  assumes "ty \<noteq> ANIM_NONE" and "0 < dur" and "dur \<le> ms_elapsed now start"
    and "from \<in> {0, 1}" and "to \<in> {0, 1}"
  shows "\<exists>b. kum_anim_tick now (kum_anim_start start ty from to dur a) = Some b \<and>
             an_done b \<and> an_current b = to \<and> kum_anim_tick later b = Some b"
proof -
  let ?s = "kum_anim_start start ty from to dur a"
  have "1 \<le> f32 (ms_elapsed now start / dur)"
    using assms(2,3) flt32.fl_mono [of 1 "ms_elapsed now start / dur"] by simp
  then have "kum_anim_tick now ?s =
      Some (?s\<lparr>an_done := True, an_current := f32 (from + f32 (f32 (to - from)))\<rparr>)"
    using assms(1,2) by (subst anim_tick_running) (simp_all add: kum_anim_start_def eased_1)
  moreover have "f32 (from + f32 (f32 (to - from))) = to"
    using assms(4,5) flt32.fl_minus [of 1] by auto
  ultimately show ?thesis by (simp add: anim_tick_done)
qed

lemma anim_completes_witness:
  "\<exists>b. kum_anim_tick \<lparr>tv_sec = 5, tv_nsec = 250000000\<rparr>
          (kum_anim_start \<lparr>tv_sec = 5, tv_nsec = 0\<rparr> ANIM_OPENING 0 1 220
             \<lparr>an_type = ANIM_NONE, an_start = \<lparr>tv_sec = 0, tv_nsec = 0\<rparr>, duration_ms = 0, an_from = 0,
              an_to = 0, an_current = 0, an_done = True\<rparr>) = Some b \<and>
       an_done b \<and> an_current b = 1 \<and> kum_anim_tick \<lparr>tv_sec = 6, tv_nsec = 0\<rparr> b = Some b"
proof (rule anim_completes)
  show "220 \<le> ms_elapsed \<lparr>tv_sec = 5, tv_nsec = 250000000\<rparr> \<lparr>tv_sec = 5, tv_nsec = 0\<rparr>"
    by code_simp
qed simp_all

end
