(* ===== verification/Conf.thy ===== *)
theory Conf
  imports Cfloat Scanf
begin

text \<open>
  \<open>src/conf.c\<close> with \<open>include/runtime_config.h\<close> and \<open>include/config.h\<close>: the run-time
  configuration and the parser of \<open>kumde.conf\<close>. The file is its text, or \<open>None\<close>
  when \<open>fopen\<close> fails. Fixed character arrays are strings cut by \<open>strncpy\<close>, the
  arrays with a count are lists.
\<close>

section \<open>Compile-time defaults (\<open>config.h\<close>)\<close>

definition KUM_BORDER_WIDTH :: int where "KUM_BORDER_WIDTH = 3"
definition KUM_BORDER_ACTIVE :: "rat list" where
  "KUM_BORDER_ACTIVE = [f32 (45 / 100), f32 (60 / 100), f32 (95 / 100)]"
definition KUM_BORDER_INACTIVE :: "rat list" where
  "KUM_BORDER_INACTIVE = [f32 (18 / 100), f32 (18 / 100), f32 (22 / 100)]"
definition KUM_BORDER_ALPHA :: rat where "KUM_BORDER_ALPHA = 1"
definition KUM_ANIM_OPEN_MS :: rat where "KUM_ANIM_OPEN_MS = 220"
definition KUM_ANIM_CLOSE_MS :: rat where "KUM_ANIM_CLOSE_MS = 160"
definition KUM_ANIM_FOCUS_MS :: rat where "KUM_ANIM_FOCUS_MS = 120"
definition KUM_CURSOR_SIZE :: int where "KUM_CURSOR_SIZE = 24"
definition KUM_RESIZE_MIN_W :: int where "KUM_RESIZE_MIN_W = 120"
definition KUM_RESIZE_MIN_H :: int where "KUM_RESIZE_MIN_H = 80"
definition KUM_GAP :: int where "KUM_GAP = 8"
definition KUM_MASTER_RATIO :: rat where "KUM_MASTER_RATIO = f32 (55 / 100)"
definition KUM_CORNER_RADIUS :: int where "KUM_CORNER_RADIUS = 8"
definition KUM_SHADOW_RADIUS :: int where "KUM_SHADOW_RADIUS = 18"
definition KUM_SHADOW_ALPHA :: rat where "KUM_SHADOW_ALPHA = f32 (45 / 100)"
definition KUM_SHADOW_OFFSET_X :: int where "KUM_SHADOW_OFFSET_X = 0"
definition KUM_SHADOW_OFFSET_Y :: int where "KUM_SHADOW_OFFSET_Y = 4"

section \<open>Data (\<open>runtime_config.h\<close>)\<close>

record kum_output_config =
  oc_name :: string
  oc_width :: int
  oc_height :: int
  oc_refresh :: int
  oc_x :: int
  oc_y :: int
  oc_scale :: rat
  oc_enabled :: bool
  oc_transform :: string

record kum_runtime_config =
  cfg_terminal :: string
  cfg_border_width :: int
  cfg_border_active :: "rat list"
  cfg_border_inactive :: "rat list"
  cfg_anim_open_ms :: rat
  cfg_anim_close_ms :: rat
  cfg_anim_focus_ms :: rat
  cfg_cursor_size :: int
  cfg_xwayland :: bool
  cfg_animations :: bool
  cfg_gap :: int
  cfg_master_ratio :: rat
  cfg_corner_radius :: int
  cfg_shadow_radius :: int
  cfg_shadow_alpha :: rat
  cfg_shadow_offset_x :: int
  cfg_shadow_offset_y :: int
  cfg_shadows :: bool
  cfg_rounded_corners :: bool
  cfg_focus_follows_mouse :: bool
  cfg_kb_layout :: string
  cfg_kb_variant :: string
  cfg_kb_model :: string
  cfg_kb_options :: string
  cfg_tap_to_click :: bool
  cfg_natural_scroll :: bool
  cfg_disable_while_typing :: bool
  cfg_pointer_accel :: rat
  cfg_autostart :: "string list"
  cfg_output_configs :: "kum_output_config list"

text \<open>The zeroed output section, with its scale set: what a new \<open>[output ...]\<close> header stores.\<close>

definition blank_output :: kum_output_config where
  "blank_output =
     \<lparr>oc_name = [], oc_width = 0, oc_height = 0, oc_refresh = 0, oc_x = 0, oc_y = 0, oc_scale = 1,
      oc_enabled = False, oc_transform = []\<rparr>"

definition kum_config_defaults :: kum_runtime_config where
  "kum_config_defaults =
     \<lparr>cfg_terminal = strncpy 255 ''foot'',
      cfg_border_width = KUM_BORDER_WIDTH,
      cfg_border_active = KUM_BORDER_ACTIVE,
      cfg_border_inactive = KUM_BORDER_INACTIVE,
      cfg_anim_open_ms = KUM_ANIM_OPEN_MS,
      cfg_anim_close_ms = KUM_ANIM_CLOSE_MS,
      cfg_anim_focus_ms = KUM_ANIM_FOCUS_MS,
      cfg_cursor_size = KUM_CURSOR_SIZE,
      cfg_xwayland = False,
      cfg_animations = True,
      cfg_gap = KUM_GAP,
      cfg_master_ratio = KUM_MASTER_RATIO,
      cfg_corner_radius = KUM_CORNER_RADIUS,
      cfg_shadow_radius = KUM_SHADOW_RADIUS,
      cfg_shadow_alpha = KUM_SHADOW_ALPHA,
      cfg_shadow_offset_x = KUM_SHADOW_OFFSET_X,
      cfg_shadow_offset_y = KUM_SHADOW_OFFSET_Y,
      cfg_shadows = False,
      cfg_rounded_corners = False,
      cfg_focus_follows_mouse = False,
      cfg_kb_layout = strncpy 63 ''us'',
      cfg_kb_variant = strncpy 63 [],
      cfg_kb_model = strncpy 63 [],
      cfg_kb_options = strncpy 127 [],
      cfg_tap_to_click = True,
      cfg_natural_scroll = False,
      cfg_disable_while_typing = True,
      cfg_pointer_accel = 0,
      cfg_autostart = [],
      cfg_output_configs = []\<rparr>"

section \<open>The parser\<close>

definition parse_bool :: "string \<Rightarrow> bool" where
  "parse_bool v \<longleftrightarrow> v = ''true'' \<or> v = ''1'' \<or> v = ''yes''"

definition to_float :: "string \<Rightarrow> rat" where
  \<comment> \<open>\<open>(float)atof(v)\<close>\<close>
  "to_float v = f32 (f64 (atof v))"

definition scan_rgb :: "string \<Rightarrow> rat list \<Rightarrow> rat list" where
  "scan_rgb v old =
     (let vs = sscanf [CFlt, CLit '' '', CFlt, CLit '' '', CFlt] v
      in map (\<lambda>i. if i < length vs then f32 (got_flt vs i 0) else old ! i) [0, 1, 2])"

definition apply_global :: "string \<Rightarrow> string \<Rightarrow> kum_runtime_config \<Rightarrow> kum_runtime_config" where
  "apply_global key v cfg =
     (if key = ''terminal'' then cfg\<lparr>cfg_terminal := strncpy 255 v\<rparr>
      else if key = ''border_width'' then cfg\<lparr>cfg_border_width := atoi v\<rparr>
      else if key = ''border_active'' then cfg\<lparr>cfg_border_active := scan_rgb v (cfg_border_active cfg)\<rparr>
      else if key = ''border_inactive'' then cfg\<lparr>cfg_border_inactive := scan_rgb v (cfg_border_inactive cfg)\<rparr>
      else if key = ''anim_open_ms'' then cfg\<lparr>cfg_anim_open_ms := to_float v\<rparr>
      else if key = ''anim_close_ms'' then cfg\<lparr>cfg_anim_close_ms := to_float v\<rparr>
      else if key = ''anim_focus_ms'' then cfg\<lparr>cfg_anim_focus_ms := to_float v\<rparr>
      else if key = ''cursor_size'' then cfg\<lparr>cfg_cursor_size := atoi v\<rparr>
      else if key = ''animations'' then cfg\<lparr>cfg_animations := parse_bool v\<rparr>
      else if key = ''xwayland'' then cfg\<lparr>cfg_xwayland := parse_bool v\<rparr>
      else if key = ''gap'' then cfg\<lparr>cfg_gap := atoi v\<rparr>
      else if key = ''master_ratio'' then cfg\<lparr>cfg_master_ratio := to_float v\<rparr>
      else if key = ''corner_radius'' then cfg\<lparr>cfg_corner_radius := atoi v\<rparr>
      else if key = ''shadow_radius'' then cfg\<lparr>cfg_shadow_radius := atoi v\<rparr>
      else if key = ''shadow_alpha'' then cfg\<lparr>cfg_shadow_alpha := to_float v\<rparr>
      else if key = ''shadow_offset_x'' then cfg\<lparr>cfg_shadow_offset_x := atoi v\<rparr>
      else if key = ''shadow_offset_y'' then cfg\<lparr>cfg_shadow_offset_y := atoi v\<rparr>
      else if key = ''shadows'' then cfg\<lparr>cfg_shadows := parse_bool v\<rparr>
      else if key = ''rounded_corners'' then cfg\<lparr>cfg_rounded_corners := parse_bool v\<rparr>
      else if key = ''focus_follows_mouse'' then cfg\<lparr>cfg_focus_follows_mouse := parse_bool v\<rparr>
      else if key = ''autostart'' then
        (if length (cfg_autostart cfg) < 16
         then cfg\<lparr>cfg_autostart := cfg_autostart cfg @ [strncpy 255 v]\<rparr> else cfg)
      else cfg)"

definition apply_input :: "string \<Rightarrow> string \<Rightarrow> kum_runtime_config \<Rightarrow> kum_runtime_config" where
  "apply_input key v cfg =
     (if key = ''tap_to_click'' then cfg\<lparr>cfg_tap_to_click := parse_bool v\<rparr>
      else if key = ''natural_scroll'' then cfg\<lparr>cfg_natural_scroll := parse_bool v\<rparr>
      else if key = ''disable_while_typing'' then cfg\<lparr>cfg_disable_while_typing := parse_bool v\<rparr>
      else if key = ''pointer_accel'' then cfg\<lparr>cfg_pointer_accel := to_float v\<rparr>
      else if key = ''kb_layout'' then cfg\<lparr>cfg_kb_layout := strncpy 63 v\<rparr>
      else if key = ''kb_variant'' then cfg\<lparr>cfg_kb_variant := strncpy 63 v\<rparr>
      else if key = ''kb_model'' then cfg\<lparr>cfg_kb_model := strncpy 63 v\<rparr>
      else if key = ''kb_options'' then cfg\<lparr>cfg_kb_options := strncpy 127 v\<rparr>
      else cfg)"

definition apply_output :: "string \<Rightarrow> string \<Rightarrow> kum_output_config \<Rightarrow> kum_output_config" where
  "apply_output key v oc0 =
     (let oc = oc0\<lparr>oc_scale := (if 0 < oc_scale oc0 then oc_scale oc0 else 1), oc_enabled := True\<rparr> in
      if key = ''mode'' then
        (let vs = sscanf [CInt, CLit ''x'', CInt, CLit ''@'', CInt] v;
             oc1 = oc\<lparr>oc_width := got_int vs 0 (oc_width oc), oc_height := got_int vs 1 (oc_height oc)\<rparr>;
             r = got_int vs 2 0;
             ws = sscanf [CInt, CLit ''x'', CInt] v;
             oc2 = (if r = 0
                    then oc1\<lparr>oc_width := got_int ws 0 (oc_width oc1), oc_height := got_int ws 1 (oc_height oc1)\<rparr>
                    else oc1)
         in oc2\<lparr>oc_refresh := r\<rparr>)
      else if key = ''pos'' then
        (let vs = sscanf [CInt, CLit '','', CInt] v
         in oc\<lparr>oc_x := got_int vs 0 (oc_x oc), oc_y := got_int vs 1 (oc_y oc)\<rparr>)
      else if key = ''scale'' then oc\<lparr>oc_scale := to_float v\<rparr>
      else if key = ''transform'' then oc\<lparr>oc_transform := strncpy 15 v\<rparr>
      else if key = ''enabled'' then oc\<lparr>oc_enabled := parse_bool v\<rparr>
      else oc)"

text \<open>The variables of the line loop of \<open>kum_config_load\<close>.\<close>

record conf_loop =
  cl_cfg :: kum_runtime_config
  cl_section :: nat
  cl_out_idx :: int

definition conf_header :: "string \<Rightarrow> conf_loop \<Rightarrow> conf_loop" where
  "conf_header s st0 =
     (let st = st0\<lparr>cl_section := 0, cl_out_idx := - 1\<rparr>; cfg = cl_cfg st in
      if s = ''[input]'' then st\<lparr>cl_section := 1\<rparr>
      else if s = ''[rules]'' then st\<lparr>cl_section := 2\<rparr>
      else if strncmp_eq s ''[output '' 8 then
        (let st3 = st\<lparr>cl_section := 3\<rparr> in
         if length (cfg_output_configs cfg) < 8 then
           (let oname = got_str (sscanf [CLit ''[output '', CNot 63 CHR '']''] s) 0 []
            in st3\<lparr>cl_out_idx := int (length (cfg_output_configs cfg)),
                   cl_cfg := cfg\<lparr>cfg_output_configs :=
                     cfg_output_configs cfg @ [blank_output\<lparr>oc_name := strncpy 63 oname\<rparr>]\<rparr>\<rparr>)
         else st3)
      else st)"

definition conf_assign :: "string \<Rightarrow> string \<Rightarrow> conf_loop \<Rightarrow> conf_loop" where
  "conf_assign key v st =
     (let cfg = cl_cfg st; i = nat (cl_out_idx st) in
      if cl_section st = 0 then st\<lparr>cl_cfg := apply_global key v cfg\<rparr>
      else if cl_section st = 1 then st\<lparr>cl_cfg := apply_input key v cfg\<rparr>
      else if cl_section st = 3 \<and> 0 \<le> cl_out_idx st then
        st\<lparr>cl_cfg := cfg\<lparr>cfg_output_configs :=
             (cfg_output_configs cfg)[i := apply_output key v (cfg_output_configs cfg ! i)]\<rparr>\<rparr>
      else st)"

definition conf_line :: "string \<Rightarrow> conf_loop \<Rightarrow> conf_loop" where
  "conf_line line st =
     (let s = trim line in
      if s = [] \<or> hd s = CHR ''#'' then st
      else if hd s = CHR ''['' then conf_header s st
      else if cl_section st = 2 then st
      else case strchr_split CHR ''='' s of
             None \<Rightarrow> st
           | Some (k, v) \<Rightarrow> conf_assign (trim k) (trim v) st)"

definition conf_lines :: "string list \<Rightarrow> kum_runtime_config \<Rightarrow> conf_loop" where
  "conf_lines ls cfg = fold conf_line ls \<lparr>cl_cfg = cfg, cl_section = 0, cl_out_idx = - 1\<rparr>"

definition kum_config_load :: "string option \<Rightarrow> kum_runtime_config \<Rightarrow> kum_runtime_config \<times> bool" where
  "kum_config_load file cfg =
     (case file of None \<Rightarrow> (cfg, False)
      | Some text \<Rightarrow> (cl_cfg (conf_lines (fgets_lines 512 text) cfg), True))"

section \<open>The arrays are never overrun\<close>

definition output_config_ok :: "kum_output_config \<Rightarrow> bool" where
  "output_config_ok oc \<longleftrightarrow> length (oc_name oc) < 64 \<and> length (oc_transform oc) < 16"

definition config_ok :: "kum_runtime_config \<Rightarrow> bool" where
  "config_ok c \<longleftrightarrow>
     length (cfg_terminal c) < 256 \<and> length (cfg_kb_layout c) < 64 \<and> length (cfg_kb_variant c) < 64 \<and>
     length (cfg_kb_model c) < 64 \<and> length (cfg_kb_options c) < 128 \<and>
     length (cfg_border_active c) = 3 \<and> length (cfg_border_inactive c) = 3 \<and>
     length (cfg_autostart c) \<le> 16 \<and> (\<forall>a \<in> set (cfg_autostart c). length a < 256) \<and>
     length (cfg_output_configs c) \<le> 8 \<and> (\<forall>oc \<in> set (cfg_output_configs c). output_config_ok oc)"

definition conf_loop_ok :: "conf_loop \<Rightarrow> bool" where
  "conf_loop_ok st \<longleftrightarrow> config_ok (cl_cfg st) \<and> cl_out_idx st < int (length (cfg_output_configs (cl_cfg st)))"

lemma length_strncpy: "0 < n \<Longrightarrow> length (strncpy (n - 1) s) < n"
  by (simp add: strncpy_def)

lemma strncpy_bounds [simp]:
  "length (strncpy 255 s) < 256" "length (strncpy 63 s) < 64" "length (strncpy 127 s) < 128"
  "length (strncpy 15 s) < 16"
  by (simp_all add: strncpy_def)

lemma length_scan_rgb [simp]: "length (scan_rgb v old) = 3"
  by (simp add: scan_rgb_def Let_def)

lemma defaults_ok: "config_ok kum_config_defaults"
  by (simp add: config_ok_def kum_config_defaults_def KUM_BORDER_ACTIVE_def KUM_BORDER_INACTIVE_def)

lemma blank_output_ok [simp]: "output_config_ok (blank_output\<lparr>oc_name := strncpy 63 n\<rparr>)"
  by (simp add: output_config_ok_def blank_output_def)

lemma apply_global_ok [kum_inv]: "config_ok c \<Longrightarrow> config_ok (apply_global k v c)"
  by (auto simp: apply_global_def config_ok_def)

lemma apply_input_ok [kum_inv]: "config_ok c \<Longrightarrow> config_ok (apply_input k v c)"
  by (auto simp: apply_input_def config_ok_def)

lemma apply_output_ok [kum_inv]: "output_config_ok oc \<Longrightarrow> output_config_ok (apply_output k v oc)"
  by (simp add: apply_output_def output_config_ok_def Let_def)

lemma apply_global_outputs [simp, kum_frame]:
  "cfg_output_configs (apply_global k v c) = cfg_output_configs c"
  by (simp add: apply_global_def)

lemma apply_input_outputs [simp, kum_frame]:
  "cfg_output_configs (apply_input k v c) = cfg_output_configs c"
  by (simp add: apply_input_def)

lemma update_output_ok:
  assumes "config_ok c" and "i < length (cfg_output_configs c)" and "output_config_ok oc"
  shows "config_ok (c\<lparr>cfg_output_configs := (cfg_output_configs c)[i := oc]\<rparr>)"
  using assms by (auto simp: config_ok_def dest: set_update_subset_insert [THEN subsetD])

lemma add_output_ok:
  "config_ok c \<Longrightarrow> length (cfg_output_configs c) < 8 \<Longrightarrow> output_config_ok oc \<Longrightarrow>
    config_ok (c\<lparr>cfg_output_configs := cfg_output_configs c @ [oc]\<rparr>)"
  by (auto simp: config_ok_def)

lemma conf_header_ok [kum_inv]: "conf_loop_ok st \<Longrightarrow> conf_loop_ok (conf_header s st)"
  by (auto simp: conf_header_def conf_loop_ok_def Let_def intro!: add_output_ok)

lemma conf_assign_ok [kum_inv]:
  assumes "conf_loop_ok st"
  shows "conf_loop_ok (conf_assign k v st)"
proof -
  have "output_config_ok (cfg_output_configs (cl_cfg st) ! nat (cl_out_idx st))" if "0 \<le> cl_out_idx st"
    using assms that by (auto simp: conf_loop_ok_def config_ok_def)
  then show ?thesis
    using assms by (auto simp: conf_assign_def conf_loop_ok_def Let_def kum_inv intro!: update_output_ok)
qed

lemma conf_line_ok [kum_inv]: "conf_loop_ok st \<Longrightarrow> conf_loop_ok (conf_line l st)"
  by (auto simp: conf_line_def Let_def kum_inv split: option.splits)

lemma conf_lines_ok:
  assumes "config_ok c"
  shows "conf_loop_ok (conf_lines ls c)"
proof -
  have "conf_loop_ok (fold conf_line ls st)" if "conf_loop_ok st" for st
    using that by (induction ls arbitrary: st) (auto simp: kum_inv)
  then show ?thesis using assms by (simp add: conf_lines_def conf_loop_ok_def)
qed

lemma config_load_ok: "config_ok c \<Longrightarrow> config_ok (fst (kum_config_load file c))"
  using conf_lines_ok by (auto simp: kum_config_load_def conf_loop_ok_def split: option.splits)

section \<open>What a well-formed file means\<close>

text \<open>
  An abstract configuration file: the assignments before any header, those of one
  \<open>[input]\<close> section, and the \<open>[output ...]\<close> sections in order. \<open>conf_meaning\<close> says
  what it should configure, \<open>conf_print\<close> writes it as a file.
\<close>

record conf_file =
  f_globals :: "(string \<times> string) list"
  f_inputs :: "(string \<times> string) list"
  f_outputs :: "(string \<times> (string \<times> string) list) list"

definition output_meaning :: "string \<times> (string \<times> string) list \<Rightarrow> kum_output_config" where
  "output_meaning sec = fold (\<lambda>(k, v). apply_output k v) (snd sec) (blank_output\<lparr>oc_name := fst sec\<rparr>)"

definition conf_meaning :: "conf_file \<Rightarrow> kum_runtime_config" where
  "conf_meaning f =
     (let c = fold (\<lambda>(k, v). apply_input k v) (f_inputs f)
                (fold (\<lambda>(k, v). apply_global k v) (f_globals f) kum_config_defaults)
      in c\<lparr>cfg_output_configs := map output_meaning (f_outputs f)\<rparr>)"

definition print_assign :: "string \<times> string \<Rightarrow> string" where
  "print_assign kv = fst kv @ '' = '' @ snd kv"

definition print_output :: "string \<times> (string \<times> string) list \<Rightarrow> string list" where
  "print_output sec = (''[output '' @ fst sec @ '']'') # map print_assign (snd sec)"

definition conf_print_lines :: "conf_file \<Rightarrow> string list" where
  "conf_print_lines f =
     map print_assign (f_globals f) @ ''[input]'' # map print_assign (f_inputs f) @
     concat (map print_output (f_outputs f))"

definition conf_print :: "conf_file \<Rightarrow> string" where
  "conf_print f = concat (map (\<lambda>l. l @ [NL]) (conf_print_lines f))"

definition assign_ok :: "string \<times> string \<Rightarrow> bool" where
  "assign_ok kv \<longleftrightarrow>
     (let (k, v) = kv in
      k \<noteq> [] \<and> v \<noteq> [] \<and> trimmed k \<and> trimmed v \<and> CHR ''='' \<notin> set k \<and> hd k \<noteq> CHR ''#'' \<and> hd k \<noteq> CHR ''['' \<and>
      NL \<notin> set k \<and> NL \<notin> set v \<and> length k + length v < 500)"

definition name_ok :: "string \<Rightarrow> bool" where
  "name_ok n \<longleftrightarrow> n \<noteq> [] \<and> length n \<le> 63 \<and> CHR '']'' \<notin> set n \<and> NL \<notin> set n \<and> \<not> isspace (hd n)"

definition conf_file_ok :: "conf_file \<Rightarrow> bool" where
  "conf_file_ok f \<longleftrightarrow>
     (\<forall>kv \<in> set (f_globals f). assign_ok kv) \<and> (\<forall>kv \<in> set (f_inputs f). assign_ok kv) \<and>
     length (f_outputs f) \<le> 8 \<and>
     (\<forall>sec \<in> set (f_outputs f). name_ok (fst sec) \<and> (\<forall>kv \<in> set (snd sec). assign_ok kv))"

lemma conf_line_assign:
  assumes "assign_ok kv" and "cl_section st \<noteq> 2"
  shows "conf_line (print_assign kv @ [NL]) st = conf_assign (fst kv) (snd kv) st"
proof -
  obtain k v where kv: "kv = (k, v)" by (cases kv)
  note a = assms(1) [unfolded assign_ok_def kv Let_def, simplified]
  have t: "trimmed (k @ '' = '' @ v)" using a by (auto simp: trimmed_def)
  then have trim: "trim (print_assign kv @ [NL]) = k @ '' = '' @ v"
    using trim_pad [of "k @ '' = '' @ v" "[]" "[NL]"] by (simp add: kv print_assign_def)
  have "strchr_split CHR ''='' (k @ '' = '' @ v) = Some (k @ '' '', '' '' @ v)"
    using strchr_split_append [of "CHR ''=''" "k @ '' ''" "'' '' @ v"] a by simp
  moreover have "trim (k @ '' '') = k" using trim_pad [of k "[]" "'' ''"] a by simp
  moreover have "trim ('' '' @ v) = v" using trim_pad [of v "'' ''" "[]"] a by simp
  ultimately show ?thesis using a assms(2) trim by (simp add: conf_line_def Let_def kv)
qed

text \<open>A run of assignments stays in its section.\<close>

lemma conf_assigns_global:
  "cl_section st = 0 \<Longrightarrow> \<forall>kv \<in> set kvs. assign_ok kv \<Longrightarrow>
    fold conf_line (map (\<lambda>kv. print_assign kv @ [NL]) kvs) st =
      st\<lparr>cl_cfg := fold (\<lambda>(k, v). apply_global k v) kvs (cl_cfg st)\<rparr>"
  by (induction kvs arbitrary: st) (auto simp: conf_line_assign conf_assign_def Let_def)

lemma conf_assigns_input:
  "cl_section st = 1 \<Longrightarrow> \<forall>kv \<in> set kvs. assign_ok kv \<Longrightarrow>
    fold conf_line (map (\<lambda>kv. print_assign kv @ [NL]) kvs) st =
      st\<lparr>cl_cfg := fold (\<lambda>(k, v). apply_input k v) kvs (cl_cfg st)\<rparr>"
  by (induction kvs arbitrary: st) (auto simp: conf_line_assign conf_assign_def Let_def)

lemma conf_assigns_output:
  assumes "cl_section st = 3" and "cl_out_idx st = int (length os)"
    and "cfg_output_configs (cl_cfg st) = os @ [oc]" and "\<forall>kv \<in> set kvs. assign_ok kv"
  shows "fold conf_line (map (\<lambda>kv. print_assign kv @ [NL]) kvs) st =
      st\<lparr>cl_cfg := (cl_cfg st)\<lparr>cfg_output_configs := os @ [fold (\<lambda>(k, v). apply_output k v) kvs oc]\<rparr>\<rparr>"
  using assms
proof (induction kvs arbitrary: st oc)
  case Nil
  then show ?case by simp
next
  case (Cons kv kvs)
  obtain k v where kv: "kv = (k, v)" by (cases kv)
  let ?st = "st\<lparr>cl_cfg := (cl_cfg st)\<lparr>cfg_output_configs := os @ [apply_output k v oc]\<rparr>\<rparr>"
  have "conf_line (print_assign kv @ [NL]) st = ?st"
    using Cons.prems by (simp add: conf_line_assign conf_assign_def Let_def kv)
  moreover have "fold conf_line (map (\<lambda>kv. print_assign kv @ [NL]) kvs) ?st =
      ?st\<lparr>cl_cfg := (cl_cfg ?st)\<lparr>cfg_output_configs := os @ [fold (\<lambda>(k, v). apply_output k v) kvs (apply_output k v oc)]\<rparr>\<rparr>"
    using Cons.prems by (intro Cons.IH) simp_all
  ultimately show ?case by (simp add: kv)
qed

lemma isspace_output [simp]:
  "\<not> isspace CHR ''[''" "\<not> isspace CHR ''o''" "\<not> isspace CHR ''u''" "\<not> isspace CHR ''t''" "\<not> isspace CHR ''p''"
  by (simp_all add: isspace_def byte_def)

lemma match_output_lit:
  "n \<noteq> [] \<Longrightarrow> \<not> isspace (hd n) \<Longrightarrow> match_lit ''[output '' (''[output '' @ n @ '']'') = Some (n @ '']'')"
  by (cases n) simp_all

lemma trim_closed: "\<not> isspace c \<Longrightarrow> \<not> isspace d \<Longrightarrow> trim (c # s @ [d, NL]) = c # s @ [d]"
  using trim_pad [of "c # s @ [d]" "[]" "[NL]"] by (simp add: trimmed_def)

lemma not_isspace_brackets [simp]: "\<not> isspace CHR ''[''" "\<not> isspace CHR '']''"
  by (simp_all add: isspace_def byte_def)

lemma conf_line_output:
  assumes "name_ok n" and "length (cfg_output_configs (cl_cfg st)) < 8"
  shows "conf_line ((''[output '' @ n @ '']'') @ [NL]) st =
     \<lparr>cl_cfg = (cl_cfg st)\<lparr>cfg_output_configs := cfg_output_configs (cl_cfg st) @ [blank_output\<lparr>oc_name := n\<rparr>]\<rparr>,
      cl_section = 3, cl_out_idx = int (length (cfg_output_configs (cl_cfg st)))\<rparr>"
proof -
  note n = assms(1) [unfolded name_ok_def]
  let ?h = "''[output '' @ n @ '']''"
  have t: "trim (?h @ [NL]) = ?h"
    using trim_closed [of "CHR ''[''" "CHR '']''" "''output '' @ n"] by simp
  have "match_lit ''[output '' ?h = Some (n @ '']'')" using n by (intro match_output_lit) auto
  moreover have "scan_not 63 CHR '']'' (n @ '']'') = Some (n, '']'')"
    using scan_not_append [of n 63 "CHR '']''" "[]"] n by simp
  ultimately have "got_str (sscanf [CLit ''[output '', CNot 63 CHR '']''] ?h) 0 [] = n"
    by (simp del: match_lit.simps)
  moreover have "strncpy 63 n = n" using n by (simp add: strncpy_def)
  moreover have "strncmp_eq ?h ''[output '' 8" by (simp add: strncmp_eq_def)
  ultimately have "conf_header ?h st =
     \<lparr>cl_cfg = (cl_cfg st)\<lparr>cfg_output_configs := cfg_output_configs (cl_cfg st) @ [blank_output\<lparr>oc_name := n\<rparr>]\<rparr>,
      cl_section = 3, cl_out_idx = int (length (cfg_output_configs (cl_cfg st)))\<rparr>"
    using assms(2) by (simp add: conf_header_def Let_def del: sscanf.simps)
  with t show ?thesis by (simp add: conf_line_def Let_def)
qed

lemma conf_line_input: "conf_line (''[input]'' @ [NL]) st = st\<lparr>cl_section := 1, cl_out_idx := - 1\<rparr>"
  using trim_closed [of "CHR ''[''" "CHR '']''" "''input''"]
  by (simp add: conf_line_def conf_header_def Let_def)

lemma conf_output_section:
  assumes "name_ok (fst sec)" and "\<forall>kv \<in> set (snd sec). assign_ok kv"
    and "length (cfg_output_configs (cl_cfg st)) < 8"
  shows "\<exists>s i. fold conf_line (map (\<lambda>l. l @ [NL]) (print_output sec)) st =
     \<lparr>cl_cfg = (cl_cfg st)\<lparr>cfg_output_configs := cfg_output_configs (cl_cfg st) @ [output_meaning sec]\<rparr>,
      cl_section = s, cl_out_idx = i\<rparr>"
  using conf_line_output [OF assms(1,3)] assms(2)
    conf_assigns_output [of _ "cfg_output_configs (cl_cfg st)" "blank_output\<lparr>oc_name := fst sec\<rparr>" "snd sec"]
  by (simp add: print_output_def output_meaning_def comp_def)

lemma conf_output_sections:
  assumes "\<forall>sec \<in> set secs. name_ok (fst sec) \<and> (\<forall>kv \<in> set (snd sec). assign_ok kv)"
    and "length (cfg_output_configs (cl_cfg st)) + length secs \<le> 8"
  shows "cl_cfg (fold conf_line (map (\<lambda>l. l @ [NL]) (concat (map print_output secs))) st) =
     (cl_cfg st)\<lparr>cfg_output_configs := cfg_output_configs (cl_cfg st) @ map output_meaning secs\<rparr>"
  using assms
proof (induction secs arbitrary: st)
  case Nil
  then show ?case by simp
next
  case (Cons sec secs)
  obtain s i where one: "fold conf_line (map (\<lambda>l. l @ [NL]) (print_output sec)) st =
     \<lparr>cl_cfg = (cl_cfg st)\<lparr>cfg_output_configs := cfg_output_configs (cl_cfg st) @ [output_meaning sec]\<rparr>,
      cl_section = s, cl_out_idx = i\<rparr>"
    using conf_output_section [of sec st] Cons.prems by auto
  then show ?case using Cons.prems by (simp add: Cons.IH)
qed

lemma conf_print_lines_short:
  assumes "conf_file_ok f" and "l \<in> set (conf_print_lines f)"
  shows "NL \<notin> set l \<and> length l + 1 < 512"
proof -
  have a: "NL \<notin> set (print_assign kv) \<and> length (print_assign kv) + 1 < 512" if "assign_ok kv" for kv
    using that by (auto simp: assign_ok_def print_assign_def NL_def split: prod.splits)
  have o: "NL \<notin> set (''[output '' @ n @ '']'') \<and> length (''[output '' @ n @ '']'') + 1 < 512" if "name_ok n" for n
    using that by (auto simp: name_ok_def NL_def)
  have i: "NL \<notin> set ''[input]'' \<and> length ''[input]'' + 1 < 512" by (simp add: NL_def)
  from assms(2) consider kv where "kv \<in> set (f_globals f) \<union> set (f_inputs f)" "l = print_assign kv"
    | "l = ''[input]''" | sec where "sec \<in> set (f_outputs f)" "l \<in> set (print_output sec)"
    by (fastforce simp: conf_print_lines_def)
  then show ?thesis
  proof cases
    case 1
    then have "assign_ok kv" using assms(1) by (auto simp only: conf_file_ok_def)
    then show ?thesis using a [of kv] 1(2) by simp
  next
    case 2
    then show ?thesis using i by simp
  next
    case 3
    then have "l = ''[output '' @ fst sec @ '']'' \<or> (\<exists>kv \<in> set (snd sec). l = print_assign kv)"
      by (auto simp: print_output_def)
    then show ?thesis using a o 3(1) assms(1) unfolding conf_file_ok_def by metis
  qed
qed

lemma fold_apply_global_outputs:
  "cfg_output_configs (fold (\<lambda>(k, v). apply_global k v) kvs c) = cfg_output_configs c"
  by (induction kvs arbitrary: c) auto

lemma fold_apply_input_outputs:
  "cfg_output_configs (fold (\<lambda>(k, v). apply_input k v) kvs c) = cfg_output_configs c"
  by (induction kvs arbitrary: c) auto

lemma conf_lines_print:
  assumes "conf_file_ok f"
  shows "cl_cfg (conf_lines (map (\<lambda>l. l @ [NL]) (conf_print_lines f)) kum_config_defaults) = conf_meaning f"
  using assms
  by (simp add: conf_lines_def conf_print_lines_def conf_file_ok_def conf_assigns_global conf_line_input [simplified]
      conf_assigns_input conf_output_sections fold_apply_global_outputs fold_apply_input_outputs
      conf_meaning_def kum_config_defaults_def comp_def)

interpretation conf_text: codec conf_print "\<lambda>t. fst (kum_config_load (Some t) kum_config_defaults)"
    conf_meaning conf_file_ok
proof unfold_locales
  fix f
  assume ok: "conf_file_ok f"
  then have "fgets_lines 512 (conf_print f) = map (\<lambda>l. l @ [NL]) (conf_print_lines f)"
    unfolding conf_print_def by (intro fgets_lines_concat) (auto dest: conf_print_lines_short)
  then show "fst (kum_config_load (Some (conf_print f)) kum_config_defaults) = conf_meaning f"
    by (simp add: kum_config_load_def conf_lines_print [OF ok])
qed

section \<open>Properties\<close>

text \<open>
  C26. Whatever the file holds, loading it never overruns an array of the
  configuration: at most 16 autostart commands and 8 output sections are kept, and
  every stored string leaves room for its terminating NUL.
\<close>

theorem config_load_bounds:
  "config_ok (fst (kum_config_load file kum_config_defaults))"
  by (rule config_load_ok [OF defaults_ok])

text \<open>
  C13. A well-formed configuration file is loaded as written: its global and input
  assignments are applied in order, every \<open>[output NAME]\<close> section configures an
  output of that name from its own assignments only, and no section leaks into
  another.
\<close>

theorem config_file_roundtrip:
  assumes "conf_file_ok f"
  shows "kum_config_load (Some (conf_print f)) kum_config_defaults = (conf_meaning f, True)"
  using conf_text.dec_enc [OF assms] by (simp add: kum_config_load_def)

definition sample_conf :: conf_file where
  "sample_conf =
     \<lparr>f_globals = [(''gap'', ''12''), (''terminal'', ''kitty'')], f_inputs = [(''kb_layout'', ''us,de'')],
      f_outputs = [(''DP-1'', [(''mode'', ''1920x1080@60''), (''pos'', ''0,0'')]), (''eDP-1'', [(''enabled'', ''false'')])]\<rparr>"

lemma sample_conf_ok: "conf_file_ok sample_conf"
  by (simp add: sample_conf_def conf_file_ok_def assign_ok_def name_ok_def trimmed_def isspace_def byte_def NL_def)

lemma config_file_roundtrip_witness:
  "kum_config_load (Some (conf_print sample_conf)) kum_config_defaults = (conf_meaning sample_conf, True) \<and>
   cfg_gap (conf_meaning sample_conf) = 12 \<and>
   map oc_refresh (cfg_output_configs (conf_meaning sample_conf)) = [60, 0]"
proof (intro conjI)
  show "kum_config_load (Some (conf_print sample_conf)) kum_config_defaults = (conf_meaning sample_conf, True)"
    by (rule config_file_roundtrip [OF sample_conf_ok])
  show "cfg_gap (conf_meaning sample_conf) = 12" by code_simp
  show "map oc_refresh (cfg_output_configs (conf_meaning sample_conf)) = [60, 0]" by code_simp
qed

text \<open>
  In an output section every key but \<open>enabled\<close> itself switches the output back
  on, so \<open>enabled = false\<close> only holds when it is the section's last key, while a
  section without any key leaves its output disabled.
\<close>

theorem output_key_reenables:
  "oc_enabled (output_meaning (n, [])) = False \<and>
   oc_enabled (output_meaning (n, kvs @ [(k, v)])) = (if k = ''enabled'' then parse_bool v else True)"
  by (simp add: output_meaning_def blank_output_def apply_output_def Let_def)

end
