(* ===== verification/Rules.thy ===== *)
theory Rules
  imports Scanf
begin

text \<open>
  The parsing half of \<open>src/rules.c\<close>: the window rules of the \<open>[rules]\<close> section and the
  choice of the rule for a window. \<open>fnmatch\<close> is the C library's pattern matcher and
  an argument here. What a matching rule does to a window is in \<open>Toplevel\<close>.
\<close>

section \<open>Data\<close>

record kum_rule =
  r_app_id :: string
  r_title :: string
  r_workspace :: int
  r_floating :: bool
  r_fullscreen :: bool
  r_w :: int
  r_h :: int
  r_x :: int
  r_y :: int

definition blank_rule :: kum_rule where
  "blank_rule =
     \<lparr>r_app_id = [], r_title = [], r_workspace = - 1, r_floating = False, r_fullscreen = False,
      r_w = 0, r_h = 0, r_x = 0, r_y = 0\<rparr>"

section \<open>Parsing\<close>

text \<open>One assignment \<open>rk:rv\<close> of a rule.\<close>

definition rule_field :: "string \<Rightarrow> string \<Rightarrow> kum_rule \<Rightarrow> kum_rule" where
  "rule_field rk rv r =
     (if rk = ''app_id'' then r\<lparr>r_app_id := strncpy 127 rv\<rparr>
      else if rk = ''title'' then r\<lparr>r_title := strncpy 127 rv\<rparr>
      else if rk = ''workspace'' then r\<lparr>r_workspace := atoi rv - 1\<rparr>
      else if rk = ''floating'' then r\<lparr>r_floating := (rv = ''true'')\<rparr>
      else if rk = ''fullscreen'' then r\<lparr>r_fullscreen := (rv = ''true'')\<rparr>
      else if rk = ''size'' then
        (let vs = sscanf [CInt, CLit ''x'', CInt] rv
         in r\<lparr>r_w := got_int vs 0 (r_w r), r_h := got_int vs 1 (r_h r)\<rparr>)
      else if rk = ''pos'' then
        (let vs = sscanf [CInt, CLit '','', CInt] rv
         in r\<lparr>r_x := got_int vs 0 (r_x r), r_y := got_int vs 1 (r_y r)\<rparr>)
      else r)"

definition rule_token :: "string \<Rightarrow> kum_rule \<Rightarrow> kum_rule" where
  "rule_token tok r =
     (case strchr_split CHR '':'' (trim tok) of
        None \<Rightarrow> r
      | Some (k, v) \<Rightarrow> rule_field (trim k) (trim v) r)"

definition parse_rule :: "string \<Rightarrow> kum_rule" where
  "parse_rule v = fold rule_token (strtok_all CHR '','' (strncpy 511 v)) blank_rule"

text \<open>One line of the file, over the flag \<open>in_rules\<close> and the list of rules.\<close>

definition rules_line :: "string \<Rightarrow> bool \<times> kum_rule list \<Rightarrow> bool \<times> kum_rule list" where
  "rules_line line st =
     (let (in_rules, rules) = st; s = trim line in
      if s = [] \<or> hd s = CHR ''#'' then (in_rules, rules)
      else if s = ''[rules]'' then (True, rules)
      else if hd s = CHR ''['' then (False, rules)
      else if \<not> in_rules then (in_rules, rules)
      else case strchr_split CHR ''='' s of
             None \<Rightarrow> (in_rules, rules)
           | Some (k, v) \<Rightarrow>
               if trim k \<noteq> ''rule'' then (in_rules, rules)
               else let r = parse_rule (trim v)
                    in if r_app_id r \<noteq> [] \<or> r_title r \<noteq> [] then (in_rules, wl_insert r rules)
                       else (in_rules, rules))"

definition kum_rules_load :: "string option \<Rightarrow> kum_rule list \<Rightarrow> kum_rule list" where
  "kum_rules_load file rules =
     (case file of None \<Rightarrow> rules
      | Some text \<Rightarrow> snd (fold rules_line (fgets_lines 512 text) (False, rules)))"

definition kum_rules_free :: "kum_rule list \<Rightarrow> kum_rule list" where
  "kum_rules_free rules = fold (\<lambda>r l. tl l) rules rules"

section \<open>Choosing the rule of a window\<close>

definition rule_matches ::
    "(string \<Rightarrow> string \<Rightarrow> bool) \<Rightarrow> string option \<Rightarrow> string option \<Rightarrow> kum_rule \<Rightarrow> bool" where
  "rule_matches fnmatch app_id title r \<longleftrightarrow>
     (let a = (case app_id of None \<Rightarrow> [] | Some s \<Rightarrow> s); t = (case title of None \<Rightarrow> [] | Some s \<Rightarrow> s) in
      (r_app_id r = [] \<or> fnmatch (r_app_id r) a) \<and> (r_title r = [] \<or> fnmatch (r_title r) t))"

definition matching_rule ::
    "(string \<Rightarrow> string \<Rightarrow> bool) \<Rightarrow> string option \<Rightarrow> string option \<Rightarrow> kum_rule list \<Rightarrow> kum_rule option" where
  "matching_rule fnmatch app_id title rules = List.find (rule_matches fnmatch app_id title) rules"

section \<open>Lemmas\<close>

lemma kum_rules_free_empty: "kum_rules_free rules = []"
proof -
  have "fold (\<lambda>r l. tl l) xs ys = drop (length xs) ys" for xs ys :: "kum_rule list"
    by (induction xs arbitrary: ys) (auto simp: drop_Suc)
  then show ?thesis by (simp add: kum_rules_free_def)
qed

text \<open>Every rule kept can match something by name, and its patterns fit their arrays.\<close>

definition rule_ok :: "kum_rule \<Rightarrow> bool" where
  "rule_ok r \<longleftrightarrow> length (r_app_id r) < 128 \<and> length (r_title r) < 128"

lemma length_strncpy_127 [simp]: "length (strncpy 127 s) < 128"
  by (simp add: strncpy_def)

lemma rule_field_ok [kum_inv]: "rule_ok r \<Longrightarrow> rule_ok (rule_field k v r)"
  by (simp add: rule_field_def rule_ok_def Let_def)

lemma rule_token_ok [kum_inv]: "rule_ok r \<Longrightarrow> rule_ok (rule_token t r)"
  by (simp add: rule_token_def kum_inv split: option.split)

lemma parse_rule_ok: "rule_ok (parse_rule v)"
proof -
  have "rule_ok (fold rule_token ts r)" if "rule_ok r" for ts r
    using that by (induction ts arbitrary: r) (auto simp: kum_inv)
  then show ?thesis by (simp add: parse_rule_def rule_ok_def blank_rule_def)
qed

definition rules_ok :: "kum_rule list \<Rightarrow> bool" where
  "rules_ok rs \<longleftrightarrow> (\<forall>r \<in> set rs. rule_ok r \<and> (r_app_id r \<noteq> [] \<or> r_title r \<noteq> []))"

lemma rules_line_ok: "rules_ok (snd st) \<Longrightarrow> rules_ok (snd (rules_line l st))"
  by (cases st) (auto simp: rules_line_def rules_ok_def Let_def parse_rule_ok split: option.splits)

lemma rules_load_ok:
  assumes "rules_ok rs"
  shows "rules_ok (kum_rules_load file rs)"
proof -
  have "rules_ok (snd (fold rules_line ls st))" if "rules_ok (snd st)" for ls st
    using that by (induction ls arbitrary: st) (auto simp: rules_line_ok)
  then show ?thesis using assms by (simp add: kum_rules_load_def split: option.split)
qed

text \<open>
  A \<open>[rules]\<close> section of rules written one per line: each is put at the head of the
  list, so the list is the file read backwards.
\<close>

definition rule_text :: "string \<Rightarrow> string" where
  "rule_text v = ''rule = '' @ v"

definition rule_text_ok :: "string \<Rightarrow> bool" where
  "rule_text_ok v \<longleftrightarrow> v \<noteq> [] \<and> trimmed v \<and> NL \<notin> set v \<and> length v < 500 \<and>
     (r_app_id (parse_rule v) \<noteq> [] \<or> r_title (parse_rule v) \<noteq> [])"

lemma isspace_rule [simp]: "\<not> isspace CHR ''r''" "\<not> isspace CHR ''e''"
  by (simp_all add: isspace_def byte_def)

lemma rules_line_rule:
  assumes "rule_text_ok v"
  shows "rules_line (rule_text v @ [NL]) (True, rs) = (True, parse_rule v # rs)"
proof -
  note v = assms [unfolded rule_text_ok_def]
  have "trimmed (rule_text v)" using v by (auto simp: trimmed_def rule_text_def)
  then have t: "trim (rule_text v @ [NL]) = rule_text v"
    using trim_pad [of "rule_text v" "[]" "[NL]"] by simp
  have "strchr_split CHR ''='' (rule_text v) = Some (''rule '', '' '' @ v)"
    using strchr_split_append [of "CHR ''=''" "''rule ''" "'' '' @ v"] by (simp add: rule_text_def)
  moreover have "trim ''rule '' = ''rule''"
    using trim_pad [of "''rule''" "[]" "'' ''"] by (simp add: trimmed_def)
  moreover have "trim ('' '' @ v) = v" using trim_pad [of v "'' ''" "[]"] v by simp
  moreover have "rule_text v \<noteq> []" "hd (rule_text v) = CHR ''r''" "rule_text v \<noteq> ''[rules]''"
    by (simp_all add: rule_text_def)
  ultimately show ?thesis using v by (simp add: rules_line_def t wl_insert_def Let_def)
qed

lemma rules_lines_rule:
  "\<forall>v \<in> set vs. rule_text_ok v \<Longrightarrow>
    fold rules_line (map (\<lambda>v. rule_text v @ [NL]) vs) (True, rs) = (True, rev (map parse_rule vs) @ rs)"
  by (induction vs arbitrary: rs) (auto simp: rules_line_rule)

definition rules_text :: "string list \<Rightarrow> string" where
  "rules_text vs = concat (map (\<lambda>l. l @ [NL]) (''[rules]'' # map rule_text vs))"

lemma rules_load_print:
  assumes "\<forall>v \<in> set vs. rule_text_ok v"
  shows "kum_rules_load (Some (rules_text vs)) rs = rev (map parse_rule vs) @ rs"
proof -
  have "fgets_lines 512 (rules_text vs) = map (\<lambda>l. l @ [NL]) (''[rules]'' # map rule_text vs)"
    unfolding rules_text_def using assms
    by (intro fgets_lines_concat) (auto simp: rule_text_def rule_text_ok_def NL_def)
  moreover have "rules_line (''[rules]'' @ [NL]) (False, rs) = (True, rs)"
  proof -
    have "trim (''[rules]'' @ [NL]) = ''[rules]''"
      using trim_pad [of "''[rules]''" "[]" "[NL]"]
      by (simp add: trimmed_def) (simp add: isspace_def byte_def)
    then show ?thesis by (simp add: rules_line_def Let_def)
  qed
  ultimately show ?thesis
    using rules_lines_rule [OF assms] by (simp add: kum_rules_load_def comp_def)
qed

section \<open>Properties\<close>



lemma sscanf_second_none:
  assumes "CHR '','' \<notin> set s"
  shows "got_int (sscanf [CInt, CLit '','', CInt] s) 1 d = d"
proof (cases "scan_int s")
  case None
  then show ?thesis by simp
next
  case (Some p)
  obtain i r where p: "p = (i, r)" by (cases p)
  have "set r \<subseteq> set (snd (scan_sign (dropWhile isspace s)))"
    using Some p by (auto simp: scan_int_def Let_def split: prod.splits if_splits dest!: set_dropWhileD)
  also have "set (snd (scan_sign t)) \<subseteq> set t" for t by (cases t) auto
  also have "set (dropWhile isspace s) \<subseteq> set s" by (auto dest: set_dropWhileD)
  finally have "set r \<subseteq> set s" .
  then have "CHR '','' \<notin> set r" using assms by blast
  then have "match_lit '','' r = None"
    by (cases r) (auto simp: isspace_def byte_def)
  then show ?thesis using Some p by simp
qed

lemma set_trim: "set (trim s) \<subseteq> set s"
  by (auto simp: trim_def dest!: set_dropWhileD)

lemma rule_token_y:
  assumes "CHR '','' \<notin> set t"
  shows "r_y (rule_token t r) = r_y r"
proof (cases "strchr_split CHR '':'' (trim t)")
  case None
  then show ?thesis by (simp add: rule_token_def)
next
  case (Some kv)
  obtain k v where kv: "kv = (k, v)" by (cases kv)
  have "trim t = k @ CHR '':'' # v" using strchr_split_Some Some kv by blast
  then have "set v \<subseteq> set t" using set_trim [of t] by auto
  then have "CHR '','' \<notin> set (trim v)" using assms set_trim [of v] by blast
  then show ?thesis
    using Some kv sscanf_second_none [of "trim v" "r_y r"]
    by (simp add: rule_token_def rule_field_def Let_def)
qed

text \<open>
  A rule can never set a vertical position: the text of a rule is cut at every
  comma before its \<open>x,y\<close> pair is read, so \<open>y\<close> stays 0 for every rule.
\<close>

theorem rule_never_sets_y: "r_y (parse_rule v) = 0"
proof -
  have "r_y (fold rule_token ts r) = r_y r" if "\<forall>t \<in> set ts. CHR '','' \<notin> set t" for ts r
    using that by (induction ts arbitrary: r) (auto simp: rule_token_y)
  then have "r_y (parse_rule v) = r_y blank_rule"
    unfolding parse_rule_def by (auto dest: strtok_all_token)
  then show ?thesis by (simp add: blank_rule_def)
qed

end
