(* ===== verification/Model.thy ===== *)
theory Model
  imports Easing Conf Rules "HOL-Library.Word"
begin

text \<open>
  The state of the compositor (\<open>include/kumde.h\<close>). Objects are named by numbers (a
  \<open>tid\<close> for a \<open>struct kum_toplevel *\<close>, and so on) and their contents are looked up
  in the server state. The wlroots object a structure wraps (\<open>wlr_output\<close>,
  \<open>xdg_toplevel\<close>, \<open>xwayland_surface\<close>) carries the same number.

  wlroots itself is not part of the program. What the program asks of it is the
  argument \<open>env\<close>, one record per event; a query whose answer may change through the
  program's own calls is a function of the calls made so far. What the program
  tells it is the \<open>trace\<close>, the list of calls, newest first. A handler is \<open>None\<close>
  when it would dereference a null pointer.
\<close>

section \<open>Names\<close>

type_synonym oid = nat
type_synonym tid = nat
type_synonym xid = nat
type_synonym lid = nat
type_synonym surf = nat
type_synonym keysym = string

record wlr_box =
  box_x :: int
  box_y :: int
  box_w :: int
  box_h :: int

datatype edge = WLR_EDGE_TOP | WLR_EDGE_BOTTOM | WLR_EDGE_LEFT | WLR_EDGE_RIGHT

type_synonym edges = "edge set"

datatype modifier = WLR_MODIFIER_SHIFT | WLR_MODIFIER_CTRL | WLR_MODIFIER_ALT | WLR_MODIFIER_LOGO | WLR_MODIFIER_OTHER nat

type_synonym modifiers = "modifier set"

definition KUM_MOD_KEY :: modifiers where "KUM_MOD_KEY = {WLR_MODIFIER_LOGO}"

definition KUM_WORKSPACE_COUNT :: int where "KUM_WORKSPACE_COUNT = 9"

datatype node =
    NRoot | NLayerBg | NLayerBottom | NNormal | NLayerTop | NLayerOverlay | NLockTree
  | NWorkspace int | NToplevel tid | NXwayland xid | NXSurface xid | NRect nat | NBuffer nat
  | NLockSurface nat | NLayerSurface lid | NPopup nat

text \<open>The pixel data handed to the scene, named by what computes it (see \<open>Decor\<close>).\<close>

datatype texture = ShadowTexture int int int rat | CornerMask int int int

section \<open>Calls into wlroots and the system\<close>

datatype scene_call =
    SetEnabled node bool
  | SetPosition node int int
  | Reparent node node
  | RaiseToTop node
  | LowerToBottom node
  | NodeDestroy node
  | TreeCreate node node                 \<comment> \<open>parent, new tree\<close>
  | SurfaceCreate node node surf         \<comment> \<open>parent, new node, surface shown\<close>
  | RectCreate node nat int int "rat list"
  | RectSetSize node int int
  | RectSetColor node "rat list"
  | BufferCreate node nat texture

datatype shell_call =
    XdgSetSize tid int int
  | XdgSetActivated tid bool
  | XdgSetMaximized tid bool
  | XdgSetFullscreen tid bool
  | XdgSendClose tid
  | XdgScheduleConfigure nat
  | XwConfigure xid int int int int
  | XwActivate xid bool
  | XwSetMaximized xid bool
  | XwSetFullscreen xid bool
  | XwClose xid
  | LayerConfigure lid wlr_box wlr_box

datatype seat_call =
    KeyboardEnter surf
  | KeyboardClear
  | SetKeyboard nat
  | NotifyKey nat nat bool               \<comment> \<open>keyboard, key code, pressed\<close>
  | NotifyModifiers nat
  | PointerEnter surf rat rat
  | PointerMotion rat rat
  | PointerClear
  | PointerButton nat bool
  | Capabilities bool                    \<comment> \<open>with a keyboard\<close>
  | NotifyActivity
  | PointerAxis rat
  | PointerFrame
  | SetSelection nat

datatype device_call =
    CursorMove rat rat
  | CursorWarpAbsolute rat rat
  | CursorWarp rat rat
  | CursorImage string
  | CursorAttach nat
  | KeyboardKeymap nat "string option" "string option" "string option" "string option"
  | KeyboardRepeat nat int int
  | LibinputTap nat bool
  | LibinputNaturalScroll nat bool
  | LibinputDwt nat bool
  | LibinputAccel nat rat                \<comment> \<open>speed, with the adaptive profile\<close>
  | LibinputSendEvents nat
  | CursorSurface nat

datatype output_call =
    CommitDisabled oid
  | CommitState oid "(int \<times> int \<times> int) option" "rat option" "string option"
  | CommitRequested oid                  \<comment> \<open>the state a backend event asked for\<close>
  | LayoutAdd oid int int
  | LayoutAddAuto oid
  | SceneOutputCreate oid
  | SceneOutputCommit oid
  | SendFrameDone oid

datatype system_call =
    LockDestroy nat
  | LockSendLocked nat
  | LockSurfaceConfigure nat int int
  | SocketSend nat string
  | SocketClose nat
  | Spawn "string list"
  | DisplayTerminate

datatype call =
    Scene scene_call
  | Shell shell_call
  | Seat seat_call
  | Device device_call
  | Output output_call
  | System system_call

type_synonym trace = "call list"

section \<open>Program data\<close>

datatype kum_layout_mode = LAYOUT_FLOATING | LAYOUT_TILE | LAYOUT_MONOCLE

record kum_workspace =
  ws_layout :: kum_layout_mode
  ws_toplevels :: "tid list"

record kum_output =
  usable_area :: wlr_box
  active_workspace :: int
  previous_workspace :: int

text \<open>
  The fields both window structures have. \<open>border\<close> is empty when the four
  rectangles are null and lists them otherwise.
\<close>

record kum_toplevel =
  tl_focus_serial :: "64 word"
  tl_border :: "nat list"
  tl_shadow_buf :: "nat option"
  tl_corner_mask_buf :: "nat option"
  tl_anim :: kum_animation
  tl_grabbed :: bool
  tl_floating :: bool
  tl_workspace :: int
  tl_resize_edges :: edges
  tl_grab_x :: int
  tl_grab_y :: int
  tl_grab_geobox :: wlr_box
  tl_saved_geom :: wlr_box
  tl_last_geo :: wlr_box

record kum_xwayland_surface =
  xs_focus_serial :: "64 word"
  xs_border :: "nat list"
  xs_shadow_buf :: "nat option"
  xs_corner_mask_buf :: "nat option"
  xs_anim :: kum_animation
  xs_workspace :: int
  xs_grabbed :: bool
  xs_resize_edges :: edges
  xs_grab_x :: int
  xs_grab_y :: int
  xs_grab_geobox :: wlr_box
  xs_saved_geom :: wlr_box
  xs_last_width :: int
  xs_last_height :: int
  xs_associated :: bool

text \<open>
  The key bindings' callbacks with their data pointer. The four \<open>action_focus_*\<close>,
  the four \<open>action_resize_*\<close>, the volume and brightness actions (a shell command
  each) and those that run a program differ in their arguments only.
\<close>

datatype action =
    AQuit | ACycleFocus | ACloseFocused | AToggleLayout | AToggleFloating
  | ASwitchWorkspace int | AMoveToWorkspace int
  | AFocus int int | AToggleFullscreen | AScratchpad | ALayoutMonocle
  | AKbLayoutNext | ASwapMaster | AResize int int
  | AExec "string list" | AShell string | AShutdown

record kum_keybind =
  kb_modifiers :: modifiers
  kb_sym :: keysym
  kb_action :: action

record kum_server =
  outputs :: "oid list"
  output_at :: "oid \<Rightarrow> kum_output"
  toplevels :: "tid list"
  toplevel_at :: "tid \<Rightarrow> kum_toplevel"
  xwayland_surfaces :: "xid list"
  xsurface_at :: "xid \<Rightarrow> kum_xwayland_surface"
  workspaces :: "int \<Rightarrow> kum_workspace"
  keyboards :: "nat list"
  pointers :: "nat list"
  keybinds :: "kum_keybind list"
  ipc_clients :: "nat list"
  layer_surfaces :: "lid list"
  layer_assigned :: "lid \<Rightarrow> oid option"   \<comment> \<open>the output the compositor chose for a surface\<close>
  cfg :: kum_runtime_config
  rules :: "kum_rule list"
  focused :: "tid option"
  focused_xwayland :: "xid option"
  scratchpad_ws :: int
  next_focus_serial :: "64 word"
  active_lock :: "nat option"
  locked :: bool
  lock_children :: "node list"
  split_layouts :: "string list"
  layout_current :: nat
  next_node :: nat
  trace :: trace

section \<open>What wlroots answers\<close>

datatype send_result = SendOk | SendAgain | SendError

text \<open>Layer-shell surfaces; \<open>ly_configure\<close> is the usable area left by a configure.\<close>

datatype layer_state_bit =
    STATE_DESIRED_SIZE | STATE_ANCHOR | STATE_EXCLUSIVE_ZONE | STATE_MARGIN
  | STATE_KEYBOARD_INTERACTIVITY | STATE_LAYER | STATE_EXCLUSIVE_EDGE

record layer_env =
  ly_output :: "lid \<Rightarrow> oid option"
  ly_mapped :: "lid \<Rightarrow> bool"
  ly_initial_commit :: "lid \<Rightarrow> bool"
  ly_committed :: "lid \<Rightarrow> layer_state_bit set"
  ly_layer :: "lid \<Rightarrow> nat"
  ly_pending_layer :: "lid \<Rightarrow> nat"
  ly_keyboard :: "lid \<Rightarrow> bool"
  ly_surface :: "lid \<Rightarrow> surf"
  ly_configure :: "trace \<Rightarrow> lid \<Rightarrow> wlr_box \<Rightarrow> wlr_box \<Rightarrow> wlr_box"

text \<open>
  Input: \<open>in_node_at\<close> is the scene node under a point, whether it is a buffer, the
  surface it shows and the point within it; \<open>in_ancestors\<close> lists the parents of a node,
  the closest first.
\<close>

datatype device_type = DeviceKeyboard | DevicePointer | DeviceOther

record input_env =
  in_key_syms :: "nat \<Rightarrow> nat \<Rightarrow> keysym list"
  in_modifiers :: "nat \<Rightarrow> modifiers"
  in_device_type :: "nat \<Rightarrow> device_type"
  in_libinput :: "nat \<Rightarrow> bool"
  in_tap_fingers :: "nat \<Rightarrow> int"
  in_natural_scroll :: "nat \<Rightarrow> bool"
  in_dwt :: "nat \<Rightarrow> bool"
  in_accel :: "nat \<Rightarrow> bool"
  in_external_mouse :: "nat \<Rightarrow> bool"
  in_node_at :: "trace \<Rightarrow> rat \<Rightarrow> rat \<Rightarrow> (node \<times> bool \<times> surf option \<times> rat \<times> rat) option"
  in_ancestors :: "trace \<Rightarrow> node \<Rightarrow> node list"
  in_keymap_ok :: "string option \<Rightarrow> string option \<Rightarrow> string option \<Rightarrow> string option \<Rightarrow> bool"

record output_env =
  oq_modes :: "oid \<Rightarrow> (int \<times> int \<times> int) list"
  oq_preferred :: "oid \<Rightarrow> (int \<times> int \<times> int) option"
  oq_lock_output :: "nat \<Rightarrow> oid option"
  oq_lock_surface :: "nat \<Rightarrow> surf"

record env =
  tl_mapped :: "tid \<Rightarrow> bool"
  tl_surface :: "tid \<Rightarrow> surf"
  tl_geometry :: "tid \<Rightarrow> wlr_box"
  tl_title :: "tid \<Rightarrow> string option"
  tl_app_id :: "tid \<Rightarrow> string option"
  tl_current_fullscreen :: "tid \<Rightarrow> bool"
  tl_requested_fullscreen :: "tid \<Rightarrow> bool"
  tl_requested_maximized :: "tid \<Rightarrow> bool"
  tl_initial_commit :: "tid \<Rightarrow> bool"
  xdg_toplevel_of :: "surf \<Rightarrow> tid option"
  xw_surface :: "xid \<Rightarrow> surf option"
  xw_mapped :: "xid \<Rightarrow> bool"
  xw_box :: "trace \<Rightarrow> xid \<Rightarrow> wlr_box"
  xw_title :: "xid \<Rightarrow> string option"
  xw_class :: "xid \<Rightarrow> string option"
  xw_maximized :: "xid \<Rightarrow> bool"
  xw_fullscreen :: "xid \<Rightarrow> bool"
  out_name :: "oid \<Rightarrow> string"
  layout_box :: "trace \<Rightarrow> oid \<Rightarrow> wlr_box"
  layout_output_at :: "trace \<Rightarrow> rat \<Rightarrow> rat \<Rightarrow> oid option"
  cursor_pos :: "trace \<Rightarrow> rat \<times> rat"
  node_coords :: "trace \<Rightarrow> node \<Rightarrow> int \<times> int"
  kb_focus :: "trace \<Rightarrow> surf option"
  seat_keyboard :: "trace \<Rightarrow> nat option"
  send_result :: "trace \<Rightarrow> nat \<Rightarrow> string \<Rightarrow> send_result"
  clock_now :: timespec
  env_fnmatch :: "string \<Rightarrow> string \<Rightarrow> bool"
  layer_q :: layer_env
  input_q :: input_env
  output_q :: output_env
  os_getenv :: "string \<Rightarrow> string option"
  os_file :: "string \<Rightarrow> string option"      \<comment> \<open>the text of a readable file\<close>
  os_exec :: "string \<Rightarrow> bool"               \<comment> \<open>whether a program of this name can be run\<close>

section \<open>Emitting calls\<close>

definition emit :: "call \<Rightarrow> kum_server \<Rightarrow> kum_server" where
  "emit c s = s\<lparr>trace := c # trace s\<rparr>"

definition emits :: "call list \<Rightarrow> kum_server \<Rightarrow> kum_server" where
  \<comment> \<open>in the order given\<close>
  "emits cs s = s\<lparr>trace := rev cs @ trace s\<rparr>"

lemma emits_Nil [simp]: "emits [] s = s"
  by (simp add: emits_def)

lemma emits_emits [simp]: "emits ds (emits cs s) = emits (cs @ ds) s"
  by (simp add: emits_def)

lemma emit_emits: "emit c s = emits [c] s"
  by (simp add: emits_def emit_def)

text \<open>Field updates of one object.\<close>

definition upd_output :: "oid \<Rightarrow> (kum_output \<Rightarrow> kum_output) \<Rightarrow> kum_server \<Rightarrow> kum_server" where
  "upd_output i f s = s\<lparr>output_at := (output_at s)(i := f (output_at s i))\<rparr>"

definition upd_tl :: "tid \<Rightarrow> (kum_toplevel \<Rightarrow> kum_toplevel) \<Rightarrow> kum_server \<Rightarrow> kum_server" where
  "upd_tl i f s = s\<lparr>toplevel_at := (toplevel_at s)(i := f (toplevel_at s i))\<rparr>"

definition upd_xs :: "xid \<Rightarrow> (kum_xwayland_surface \<Rightarrow> kum_xwayland_surface) \<Rightarrow> kum_server \<Rightarrow> kum_server" where
  "upd_xs i f s = s\<lparr>xsurface_at := (xsurface_at s)(i := f (xsurface_at s i))\<rparr>"

definition upd_ws :: "int \<Rightarrow> (kum_workspace \<Rightarrow> kum_workspace) \<Rightarrow> kum_server \<Rightarrow> kum_server" where
  "upd_ws i f s = s\<lparr>workspaces := (workspaces s)(i := f (workspaces s i))\<rparr>"

definition ws_of :: "kum_server \<Rightarrow> tid \<Rightarrow> int" where
  "ws_of s t = tl_workspace (toplevel_at s t)"

definition xws_of :: "kum_server \<Rightarrow> xid \<Rightarrow> int" where
  "xws_of s x = xs_workspace (xsurface_at s x)"

definition active_ws :: "kum_server \<Rightarrow> oid \<Rightarrow> int" where
  "active_ws s i = active_workspace (output_at s i)"

definition layout_of :: "kum_server \<Rightarrow> int \<Rightarrow> kum_layout_mode" where
  "layout_of s w = ws_layout (workspaces s w)"

definition fresh_node :: "kum_server \<Rightarrow> nat \<times> kum_server" where
  "fresh_node s = (next_node s, s\<lparr>next_node := Suc (next_node s)\<rparr>)"

section \<open>Operations that only talk\<close>

text \<open>
  The calls that show or hide a node and those that move the keyboard focus decide
  what the user sees and types into; every other call is \<open>plain\<close>.
\<close>

fun plain :: "call \<Rightarrow> bool" where
  "plain (Scene (SetEnabled n b)) = False"
| "plain (Seat (KeyboardEnter sf)) = False"
| "plain (Seat KeyboardClear) = False"
| "plain c = True"

text \<open>
  Many operations change nothing but the trace, by plain calls (and drop the IPC
  clients whose socket failed). \<open>quiet s t\<close> says that \<open>t\<close> is \<open>s\<close> after such an operation.
\<close>

definition quiet :: "kum_server \<Rightarrow> kum_server \<Rightarrow> bool" where
  "quiet s t \<longleftrightarrow> (\<exists>cs cl. t = s\<lparr>trace := cs @ trace s, ipc_clients := cl\<rparr> \<and> list_all plain cs \<and>
     set cl \<subseteq> set (ipc_clients s) \<and> (distinct (ipc_clients s) \<longrightarrow> distinct cl))"

lemma quiet_refl [simp, intro]: "quiet s s"
  unfolding quiet_def by (rule exI [of _ "[]"], rule exI [of _ "ipc_clients s"]) simp

lemma quiet_trans [trans]: "quiet s t \<Longrightarrow> quiet t u \<Longrightarrow> quiet s u"
  unfolding quiet_def
  by (elim exE conjE, rule_tac x = "csa @ cs" in exI, rule_tac x = cla in exI) auto

lemma quiet_emits [simp, intro]: "list_all plain cs \<Longrightarrow> quiet s (emits cs s)"
  unfolding quiet_def emits_def by (rule exI [of _ "rev cs"], rule exI [of _ "ipc_clients s"]) simp

lemma quiet_emit [simp, intro]: "plain c \<Longrightarrow> quiet s (emit c s)"
  by (simp add: emit_emits)

lemma quiet_after_emit: "quiet (emit c s) t \<Longrightarrow> plain c \<Longrightarrow> quiet s t"
  using quiet_trans [OF quiet_emit] by blast

lemma quiet_after_emits: "quiet (emits cs s) t \<Longrightarrow> list_all plain cs \<Longrightarrow> quiet s t"
  using quiet_trans [OF quiet_emits] by blast

lemma quietI:
  "t = s\<lparr>trace := cs @ trace s, ipc_clients := cl\<rparr> \<Longrightarrow> list_all plain cs \<Longrightarrow> set cl \<subseteq> set (ipc_clients s) \<Longrightarrow>
    (distinct (ipc_clients s) \<Longrightarrow> distinct cl) \<Longrightarrow> quiet s t"
  by (auto simp: quiet_def)

lemma quiet_fields:
  assumes "quiet s t"
  shows "outputs t = outputs s" "output_at t = output_at s" "toplevels t = toplevels s"
    "toplevel_at t = toplevel_at s" "xwayland_surfaces t = xwayland_surfaces s"
    "xsurface_at t = xsurface_at s" "workspaces t = workspaces s" "keyboards t = keyboards s"
    "pointers t = pointers s" "keybinds t = keybinds s" "layer_surfaces t = layer_surfaces s"
    "cfg t = cfg s" "rules t = rules s" "focused t = focused s" "focused_xwayland t = focused_xwayland s"
    "scratchpad_ws t = scratchpad_ws s" "next_focus_serial t = next_focus_serial s"
    "active_lock t = active_lock s" "locked t = locked s" "lock_children t = lock_children s"
    "split_layouts t = split_layouts s" "layout_current t = layout_current s" "next_node t = next_node s"
    "layer_assigned t = layer_assigned s"
  using assms by (auto simp: quiet_def)

lemma quiet_trace: "quiet s t \<Longrightarrow> \<exists>cs. trace t = cs @ trace s \<and> list_all plain cs"
  by (auto simp: quiet_def)

lemma quiet_clients: "quiet s t \<Longrightarrow> set (ipc_clients t) \<subseteq> set (ipc_clients s)"
  by (auto simp: quiet_def)

lemma emits_fields [simp]:
  "outputs (emits cs s) = outputs s" "output_at (emits cs s) = output_at s" "toplevels (emits cs s) = toplevels s"
  "toplevel_at (emits cs s) = toplevel_at s" "xwayland_surfaces (emits cs s) = xwayland_surfaces s"
  "xsurface_at (emits cs s) = xsurface_at s" "workspaces (emits cs s) = workspaces s"
  "keyboards (emits cs s) = keyboards s" "pointers (emits cs s) = pointers s" "keybinds (emits cs s) = keybinds s"
  "ipc_clients (emits cs s) = ipc_clients s" "layer_surfaces (emits cs s) = layer_surfaces s"
  "cfg (emits cs s) = cfg s" "rules (emits cs s) = rules s" "focused (emits cs s) = focused s"
  "focused_xwayland (emits cs s) = focused_xwayland s" "scratchpad_ws (emits cs s) = scratchpad_ws s"
  "next_focus_serial (emits cs s) = next_focus_serial s" "active_lock (emits cs s) = active_lock s"
  "locked (emits cs s) = locked s" "lock_children (emits cs s) = lock_children s"
  "split_layouts (emits cs s) = split_layouts s" "layout_current (emits cs s) = layout_current s"
  "next_node (emits cs s) = next_node s" "layer_assigned (emits cs s) = layer_assigned s" "trace (emits cs s) = rev cs @ trace s"
  by (simp_all add: emits_def)

lemma emit_fields [simp]:
  "outputs (emit c s) = outputs s" "output_at (emit c s) = output_at s" "toplevels (emit c s) = toplevels s"
  "toplevel_at (emit c s) = toplevel_at s" "xwayland_surfaces (emit c s) = xwayland_surfaces s"
  "xsurface_at (emit c s) = xsurface_at s" "workspaces (emit c s) = workspaces s"
  "keyboards (emit c s) = keyboards s" "pointers (emit c s) = pointers s" "keybinds (emit c s) = keybinds s"
  "ipc_clients (emit c s) = ipc_clients s" "layer_surfaces (emit c s) = layer_surfaces s"
  "cfg (emit c s) = cfg s" "rules (emit c s) = rules s" "focused (emit c s) = focused s"
  "focused_xwayland (emit c s) = focused_xwayland s" "scratchpad_ws (emit c s) = scratchpad_ws s"
  "next_focus_serial (emit c s) = next_focus_serial s" "active_lock (emit c s) = active_lock s"
  "locked (emit c s) = locked s" "lock_children (emit c s) = lock_children s"
  "split_layouts (emit c s) = split_layouts s" "layout_current (emit c s) = layout_current s"
  "next_node (emit c s) = next_node s" "layer_assigned (emit c s) = layer_assigned s" "trace (emit c s) = c # trace s"
  by (simp_all add: emit_def)

end
