(* ===== verification/Decor.thy ===== *)
theory Decor
  imports Model
begin

unbundle bit_operations_syntax

text \<open>
  Window decorations: \<open>src/border.c\<close>, \<open>src/shadow.c\<close>, \<open>src/corners.c\<close> and the pixel
  buffers of \<open>src/pixelbuffer.c\<close>. Allocations succeed, except a \<open>calloc\<close> of a negative
  (so, as \<open>size_t\<close>, huge) number of pixels.
\<close>

section \<open>Square roots\<close>

fun isqrt :: "nat \<Rightarrow> nat" where
  "isqrt n = (if n = 0 then 0 else let r = 2 * isqrt (n div 4) in if (r + 1) * (r + 1) \<le> n then r + 1 else r)"

declare isqrt.simps [simp del]

lemma isqrt_bounds: "isqrt n * isqrt n \<le> n \<and> n < (isqrt n + 1) * (isqrt n + 1)"
proof (induction n rule: isqrt.induct)
  case (1 n)
  show ?case
  proof (cases "n = 0")
    case True
    then show ?thesis by (simp add: isqrt.simps [of 0])
  next
    case False
    let ?q = "isqrt (n div 4)"
    from 1 False have b: "?q * ?q \<le> n div 4" "n div 4 < (?q + 1) * (?q + 1)" by auto
    have low: "(2 * ?q) * (2 * ?q) \<le> n"
    proof -
      have "4 * (?q * ?q) \<le> 4 * (n div 4)" using b(1) by simp
      also have "\<dots> \<le> n" by simp
      finally show ?thesis by simp
    qed
    have high: "n < (2 * ?q + 2) * (2 * ?q + 2)"
    proof -
      have "n < 4 * (n div 4 + 1)" by simp
      also have "\<dots> \<le> 4 * ((?q + 1) * (?q + 1))" using b(2) by (intro mult_le_mono) auto
      finally show ?thesis by (simp add: algebra_simps)
    qed
    show ?thesis using False low high by (auto simp: isqrt.simps [of n] Let_def not_le)
  qed
qed

text \<open>
  \<open>sqrtf\<close> of a whole number: the root is computed to 30 binary places, with one more
  place set when it is inexact, and rounded once.
\<close>

definition sqrtf :: "rat \<Rightarrow> rat" where
  "sqrtf x =
     (let n = nat \<lfloor>x * 2 ^ 60\<rfloor>; r = isqrt n
      in if r * r = n then f32 (of_nat r / 2 ^ 30) else f32 ((2 * of_nat r + 1) / 2 ^ 31))"

section \<open>Pixels\<close>

text \<open>The distance of a coordinate into the fringe of width \<open>radius\<close> at either end.\<close>

definition fringe :: "int \<Rightarrow> int \<Rightarrow> int \<Rightarrow> int" where
  "fringe radius n x =
     (if x < radius then radius - x else if n - radius \<le> x then x - (n - radius - 1) else 0)"

definition shadow_pixel :: "int \<Rightarrow> int \<Rightarrow> int \<Rightarrow> rat \<Rightarrow> int \<Rightarrow> int \<Rightarrow> 32 word" where
  "shadow_pixel w h radius alpha x y =
     (let r2 = f32 (of_int (radius * radius));
          a8 = trunc (f32 (alpha * 255));
          dx = fringe radius w x;
          dy = fringe radius h y;
          dist2 = f32 (of_int (dx * dx + dy * dy));
          t = (if dx = 0 \<and> dy = 0 then 1
               else if r2 \<le> dist2 then 0
               else let d = f32 (sqrtf dist2 / f32 (of_int radius))
                    in f32 (1 - f32 (f32 (d * d) * f32 (3 - f32 (2 * d)))));
          v = trunc (f32 (t * f32 (of_int a8)))
      in push_bit 24 (word_of_int v))"

definition build_shadow_texture :: "int \<Rightarrow> int \<Rightarrow> int \<Rightarrow> rat \<Rightarrow> 32 word list option" where
  "build_shadow_texture w h radius alpha =
     (if w * h < 0 then None
      else Some (concat (map (\<lambda>y. map (\<lambda>x. shadow_pixel w h radius alpha x y) [0..w - 1]) [0..h - 1])))"

definition corner_alpha :: "int \<Rightarrow> int \<Rightarrow> int \<Rightarrow> int \<Rightarrow> int \<Rightarrow> 8 word" where
  "corner_alpha w h radius x y =
     (let corner =
        (if x < radius \<and> y < radius then Some (radius - x, radius - y)
         else if w - radius \<le> x \<and> y < radius then Some (x - (w - radius - 1), radius - y)
         else if x < radius \<and> h - radius \<le> y then Some (radius - x, y - (h - radius - 1))
         else if w - radius \<le> x \<and> h - radius \<le> y then Some (x - (w - radius - 1), y - (h - radius - 1))
         else None)
      in case corner of
           None \<Rightarrow> 255
         | Some (dx, dy) \<Rightarrow>
             (let dist = sqrtf (f32 (of_int (dx * dx + dy * dy))) in
              if f32 (of_int radius) \<le> dist then 0
              else let t = f32 (dist / f32 (of_int radius));
                       smooth = f32 (f32 (t * t) * f32 (3 - f32 (2 * t)))
                   in word_of_int (trunc (f32 (f32 (1 - smooth) * 255)))))"

definition corner_pixel :: "int \<Rightarrow> int \<Rightarrow> int \<Rightarrow> int \<Rightarrow> int \<Rightarrow> 32 word" where
  "corner_pixel w h radius x y =
     (let a = ucast (corner_alpha w h radius x y)
      in push_bit 24 a OR push_bit 16 a OR push_bit 8 a OR a)"

definition build_corner_mask :: "int \<Rightarrow> int \<Rightarrow> int \<Rightarrow> 32 word list" where
  "build_corner_mask w h radius =
     concat (map (\<lambda>y. map (\<lambda>x. corner_pixel w h radius x y) [0..w - 1]) [0..h - 1])"

fun texture_pixels :: "texture \<Rightarrow> 32 word list option" where
  "texture_pixels (ShadowTexture w h r a) = build_shadow_texture w h r a"
| "texture_pixels (CornerMask w h r) = Some (build_corner_mask w h r)"

record kum_pixel_buffer =
  pb_width :: int
  pb_height :: int
  pb_data :: "32 word list"
  pb_stride :: int

definition kum_pixel_buffer_create :: "int \<Rightarrow> int \<Rightarrow> 32 word list \<Rightarrow> kum_pixel_buffer" where
  "kum_pixel_buffer_create width height pixels =
     \<lparr>pb_width = width, pb_height = height, pb_data = pixels, pb_stride = width * 4\<rparr>"

text \<open>The access wlroots' renderer gets: the pixels, their format and the stride.\<close>

definition pixel_buffer_begin_data_ptr_access :: "kum_pixel_buffer \<Rightarrow> 32 word list \<times> string \<times> int" where
  "pixel_buffer_begin_data_ptr_access buf = (pb_data buf, ''ARGB8888'', pb_stride buf)"

section \<open>Borders\<close>

definition border_create_rects :: "node \<Rightarrow> kum_runtime_config \<Rightarrow> kum_server \<Rightarrow> nat list \<times> kum_server" where
  "border_create_rects tree c s =
     (let n = next_node s; ids = [n, n + 1, n + 2, n + 3];
          color = cfg_border_inactive c @ [KUM_BORDER_ALPHA]
      in (ids, emits (map (\<lambda>i. Scene (RectCreate tree i 0 0 color)) ids) (s\<lparr>next_node := n + 4\<rparr>)))"

fun border_position :: "nat list \<Rightarrow> int \<Rightarrow> int \<Rightarrow> int \<Rightarrow> call list option" where
  "border_position [r0, r1, r2, r3] w h b =
     Some [Scene (SetPosition (NRect r0) (- b) (- b)), Scene (RectSetSize (NRect r0) (w + 2 * b) b),
           Scene (SetPosition (NRect r1) (- b) h), Scene (RectSetSize (NRect r1) (w + 2 * b) b),
           Scene (SetPosition (NRect r2) (- b) 0), Scene (RectSetSize (NRect r2) b h),
           Scene (SetPosition (NRect r3) w 0), Scene (RectSetSize (NRect r3) b h)]"
| "border_position _ w h b = None"

definition border_rgba :: "kum_runtime_config \<Rightarrow> bool \<Rightarrow> rat \<Rightarrow> rat list" where
  "border_rgba c foc t =
     (if foc
      then map (\<lambda>i. let a = cfg_border_active c ! i; n = cfg_border_inactive c ! i
                    in f32 (n + f32 (f32 (a - n) * t))) [0, 1, 2] @ [KUM_BORDER_ALPHA]
      else map (\<lambda>i. cfg_border_inactive c ! i) [0, 1, 2] @ [KUM_BORDER_ALPHA])"

definition border_color :: "nat list \<Rightarrow> kum_runtime_config \<Rightarrow> bool \<Rightarrow> rat \<Rightarrow> call list" where
  "border_color rs c foc t = map (\<lambda>r. Scene (RectSetColor (NRect r) (border_rgba c foc t))) rs"

definition border_destroy_rects :: "nat list \<Rightarrow> call list" where
  "border_destroy_rects rs = map (\<lambda>r. Scene (NodeDestroy (NRect r))) rs"

definition border_paint ::
    "nat list \<Rightarrow> int \<Rightarrow> int \<Rightarrow> kum_animation \<Rightarrow> bool \<Rightarrow> kum_server \<Rightarrow> kum_server option" where
  "border_paint rs w h an foc s =
     (let t = (if foc \<and> an_type an = ANIM_FOCUSING \<and> \<not> an_done an then an_current an else 1)
      in case border_position rs w h (cfg_border_width (cfg s)) of
           None \<Rightarrow> None
         | Some cs \<Rightarrow> Some (emits (cs @ border_color rs (cfg s) foc t) s))"

definition kum_border_create :: "tid \<Rightarrow> kum_server \<Rightarrow> kum_server" where
  "kum_border_create t s =
     (let (ids, s1) = border_create_rects (NToplevel t) (cfg s) s
      in upd_tl t (\<lambda>r. r\<lparr>tl_border := ids\<rparr>) s1)"

definition kum_border_update :: "env \<Rightarrow> tid \<Rightarrow> bool \<Rightarrow> kum_server \<Rightarrow> kum_server option" where
  "kum_border_update E t foc s =
     (if \<not> tl_mapped E t then Some s
      else border_paint (tl_border (toplevel_at s t)) (box_w (tl_geometry E t)) (box_h (tl_geometry E t))
             (tl_anim (toplevel_at s t)) foc s)"

definition kum_border_destroy :: "tid \<Rightarrow> kum_server \<Rightarrow> kum_server" where
  "kum_border_destroy t s =
     upd_tl t (\<lambda>r. r\<lparr>tl_border := []\<rparr>) (emits (border_destroy_rects (tl_border (toplevel_at s t))) s)"

definition kum_xwayland_border_create :: "xid \<Rightarrow> kum_server \<Rightarrow> kum_server" where
  "kum_xwayland_border_create x s =
     (let (ids, s1) = border_create_rects (NXwayland x) (cfg s) s
      in upd_xs x (\<lambda>r. r\<lparr>xs_border := ids\<rparr>) s1)"

definition kum_xwayland_border_update :: "env \<Rightarrow> xid \<Rightarrow> bool \<Rightarrow> kum_server \<Rightarrow> kum_server option" where
  "kum_xwayland_border_update E x foc s =
     border_paint (xs_border (xsurface_at s x)) (box_w (xw_box E (trace s) x)) (box_h (xw_box E (trace s) x))
       (xs_anim (xsurface_at s x)) foc s"

definition kum_xwayland_border_destroy :: "xid \<Rightarrow> kum_server \<Rightarrow> kum_server" where
  "kum_xwayland_border_destroy x s =
     upd_xs x (\<lambda>r. r\<lparr>xs_border := []\<rparr>) (emits (border_destroy_rects (xs_border (xsurface_at s x))) s)"

section \<open>Shadows\<close>

definition shadow_build :: "node \<Rightarrow> int \<Rightarrow> int \<Rightarrow> kum_server \<Rightarrow> nat option \<times> kum_server" where
  "shadow_build tree w h s =
     (let c = cfg s; sr = cfg_shadow_radius c; sw = w + sr * 2; sh = h + sr * 2 in
      if \<not> cfg_shadows c then (None, s)
      else if sw * sh < 0 then (None, s) \<comment> \<open>\<open>build_shadow_texture\<close> returned NULL\<close>
      else let (n, s1) = fresh_node s
           in (Some n,
               emits [Scene (BufferCreate tree n (ShadowTexture sw sh sr (cfg_shadow_alpha c))),
                      Scene (SetPosition (NBuffer n) (cfg_shadow_offset_x c - sr) (cfg_shadow_offset_y c - sr)),
                      Scene (LowerToBottom (NBuffer n))] s1))"

definition destroy_buf :: "nat option \<Rightarrow> call list" where
  "destroy_buf b = (case b of None \<Rightarrow> [] | Some n \<Rightarrow> [Scene (NodeDestroy (NBuffer n))])"

definition kum_shadow_create :: "env \<Rightarrow> tid \<Rightarrow> kum_server \<Rightarrow> kum_server" where
  "kum_shadow_create E t s =
     (let (b, s1) = shadow_build (NToplevel t) (box_w (tl_geometry E t)) (box_h (tl_geometry E t)) s
      in upd_tl t (\<lambda>r. r\<lparr>tl_shadow_buf := b\<rparr>) s1)"

definition kum_shadow_destroy :: "tid \<Rightarrow> kum_server \<Rightarrow> kum_server" where
  "kum_shadow_destroy t s =
     upd_tl t (\<lambda>r. r\<lparr>tl_shadow_buf := None\<rparr>) (emits (destroy_buf (tl_shadow_buf (toplevel_at s t))) s)"

definition kum_shadow_update :: "env \<Rightarrow> tid \<Rightarrow> kum_server \<Rightarrow> kum_server" where
  "kum_shadow_update E t s =
     (if tl_shadow_buf (toplevel_at s t) = None then s
      else kum_shadow_create E t (kum_shadow_destroy t s))"

definition kum_xwayland_shadow_create :: "env \<Rightarrow> xid \<Rightarrow> kum_server \<Rightarrow> kum_server" where
  "kum_xwayland_shadow_create E x s =
     (let (b, s1) = shadow_build (NXwayland x) (box_w (xw_box E (trace s) x)) (box_h (xw_box E (trace s) x)) s
      in upd_xs x (\<lambda>r. r\<lparr>xs_shadow_buf := b\<rparr>) s1)"

definition kum_xwayland_shadow_destroy :: "xid \<Rightarrow> kum_server \<Rightarrow> kum_server" where
  "kum_xwayland_shadow_destroy x s =
     upd_xs x (\<lambda>r. r\<lparr>xs_shadow_buf := None\<rparr>) (emits (destroy_buf (xs_shadow_buf (xsurface_at s x))) s)"

section \<open>Rounded corners\<close>

definition corners_build :: "node \<Rightarrow> int \<Rightarrow> int \<Rightarrow> int \<Rightarrow> kum_server \<Rightarrow> nat option \<times> kum_server" where
  "corners_build tree radius w h s =
     (if radius \<le> 0 \<or> w \<le> 0 \<or> h \<le> 0 then (None, s)
      else let (n, s1) = fresh_node s
           in (Some n,
               emits [Scene (BufferCreate tree n (CornerMask w h radius)),
                      Scene (SetPosition (NBuffer n) 0 0),
                      Scene (RaiseToTop (NBuffer n))] s1))"

definition kum_corners_destroy :: "tid \<Rightarrow> kum_server \<Rightarrow> kum_server" where
  "kum_corners_destroy t s =
     upd_tl t (\<lambda>r. r\<lparr>tl_corner_mask_buf := None\<rparr>) (emits (destroy_buf (tl_corner_mask_buf (toplevel_at s t))) s)"

definition kum_corners_apply :: "env \<Rightarrow> tid \<Rightarrow> kum_server \<Rightarrow> kum_server" where
  "kum_corners_apply E t s =
     (if \<not> cfg_rounded_corners (cfg s) then s
      else if \<not> tl_mapped E t then s
      else
        let s1 = kum_corners_destroy t s;
            (b, s2) = corners_build (NToplevel t) (cfg_corner_radius (cfg s1))
                        (box_w (tl_geometry E t)) (box_h (tl_geometry E t)) s1
        in if b \<noteq> None then upd_tl t (\<lambda>r. r\<lparr>tl_corner_mask_buf := b\<rparr>) s2 else s2)"

definition kum_xwayland_corners_destroy :: "xid \<Rightarrow> kum_server \<Rightarrow> kum_server" where
  "kum_xwayland_corners_destroy x s =
     upd_xs x (\<lambda>r. r\<lparr>xs_corner_mask_buf := None\<rparr>) (emits (destroy_buf (xs_corner_mask_buf (xsurface_at s x))) s)"

definition kum_xwayland_corners_apply :: "env \<Rightarrow> xid \<Rightarrow> kum_server \<Rightarrow> kum_server" where
  "kum_xwayland_corners_apply E x s =
     (if \<not> cfg_rounded_corners (cfg s) then s
      else
        let s1 = kum_xwayland_corners_destroy x s;
            (b, s2) = corners_build (NXwayland x) (cfg_corner_radius (cfg s1))
                        (box_w (xw_box E (trace s) x)) (box_h (xw_box E (trace s) x)) s1
        in if b \<noteq> None then upd_xs x (\<lambda>r. r\<lparr>xs_corner_mask_buf := b\<rparr>) s2 else s2)"

section \<open>Frames\<close>

lemma border_position_plain: "border_position rs w h b = Some cs \<Longrightarrow> list_all plain cs"
  by (induction rs w h b rule: border_position.induct) auto

lemma border_color_plain [simp]: "list_all plain (border_color rs c foc t)"
  by (simp add: border_color_def list_all_iff)

lemma border_paint_quiet: "border_paint rs w h an foc s = Some s' \<Longrightarrow> quiet s s'"
  by (auto simp: border_paint_def Let_def border_position_plain split: option.splits)

lemma border_update_quiet [kum_frame]: "kum_border_update E t foc s = Some s' \<Longrightarrow> quiet s s'"
  by (auto simp: kum_border_update_def border_paint_quiet split: if_splits)

lemma xborder_update_quiet [kum_frame]: "kum_xwayland_border_update E x foc s = Some s' \<Longrightarrow> quiet s s'"
  by (simp add: kum_xwayland_border_update_def border_paint_quiet)

lemma border_paint_defined: "length rs = 4 \<Longrightarrow> \<exists>s'. border_paint rs w h an foc s = Some s'"
  by (auto simp: border_paint_def length_Suc_conv numeral_eq_Suc)

lemma border_update_defined [kum_frame]:
  "(tl_mapped E t \<Longrightarrow> length (tl_border (toplevel_at s t)) = 4) \<Longrightarrow> \<exists>s'. kum_border_update E t foc s = Some s'"
  by (simp add: kum_border_update_def border_paint_defined)

lemma xborder_update_defined:
  "length (xs_border (xsurface_at s x)) = 4 \<Longrightarrow> \<exists>s'. kum_xwayland_border_update E x foc s = Some s'"
  by (simp add: kum_xwayland_border_update_def border_paint_defined)

section \<open>Properties\<close>

lemma fringe_0 [simp]: "radius \<le> x \<Longrightarrow> x < n - radius \<Longrightarrow> fringe radius n x = 0"
  by (simp add: fringe_def)

lemma shadow_pixel_rgb: "shadow_pixel w h radius alpha x y AND 0xFFFFFF = 0"
proof -
  have "push_bit 24 v AND 0xFFFFFF = (0 :: 32 word)" for v
  proof (rule bit_word_eqI)
    fix n
    have m: "(0xFFFFFF :: 32 word) = mask 24" by (simp add: mask_eq_exp_minus_1)
    show "bit (push_bit 24 v AND 0xFFFFFF) n = bit (0 :: 32 word) n"
      unfolding m by (auto simp: bit_and_iff bit_push_bit_iff bit_mask_iff)
  qed
  then show ?thesis by (simp add: shadow_pixel_def Let_def)
qed

lemma corner_pixel_inside:
  "radius \<le> x \<Longrightarrow> x < w - radius \<Longrightarrow> corner_pixel w h radius x y = 0xFFFFFFFF"
  by (simp add: corner_pixel_def corner_alpha_def)

end
