(* ===== verification/Ipc_Out.thy ===== *)
theory Ipc_Out
  imports Model Jsonutil
begin

text \<open>
  The sending half of \<open>src/ipc.c\<close>: the event messages and their broadcast to the
  connected clients. A client whose socket fails is closed and dropped, one whose
  buffer is full only misses the message.
\<close>

section \<open>Messages\<close>

definition jstr :: "string \<Rightarrow> string" where
  "jstr s = QUOTE # s @ [QUOTE]"

text \<open>\<open>ipc_broadcast_workspace\<close>, \<open>migrate_workspace\<close> and \<open>ipc_send_initial_state\<close> print the same message.\<close>

definition workspace_msg :: "string \<Rightarrow> int \<Rightarrow> string" where
  "workspace_msg name index =
     ''{'' @ jstr ''event'' @ '':'' @ jstr ''workspace'' @ '','' @ jstr ''output'' @ '':'' @ jstr name @
     '','' @ jstr ''index'' @ '':'' @ show_int index @ ''}'' @ [NL]"

definition window_title_msg :: "string \<Rightarrow> string \<Rightarrow> string" where
  "window_title_msg name title_esc =
     ''{'' @ jstr ''event'' @ '':'' @ jstr ''window_title'' @ '','' @ jstr ''output'' @ '':'' @ jstr name @
     '','' @ jstr ''title'' @ '':'' @ jstr title_esc @ ''}'' @ [NL]"

definition occupied :: "kum_server \<Rightarrow> int \<Rightarrow> bool" where
  "occupied s i \<longleftrightarrow> list_ex (\<lambda>t. ws_of s t = i) (toplevels s) \<or> list_ex (\<lambda>x. xws_of s x = i) (xwayland_surfaces s)"

definition occupancy_msg :: "(int \<Rightarrow> bool) \<Rightarrow> string" where
  "occupancy_msg occ =
     ''{'' @ jstr ''event'' @ '':'' @ jstr ''occupancy'' @ '','' @ jstr ''ws'' @ '':['' @
     concat (map (\<lambda>i. (if i = 0 then [] else '','') @ (if occ i then ''1'' else ''0'')) [0..KUM_WORKSPACE_COUNT - 1]) @
     '']}'' @ [NL]"

text \<open>The text \<open>build_occupancy_msg\<close> stores in its buffer of \<open>cap\<close> bytes.\<close>

definition build_occupancy_msg :: "kum_server \<Rightarrow> nat \<Rightarrow> string" where
  "build_occupancy_msg s cap = snprintf cap (occupancy_msg (occupied s))"

section \<open>Sending\<close>

definition ipc_client_destroy :: "nat \<Rightarrow> kum_server \<Rightarrow> kum_server" where
  "ipc_client_destroy c s = (emit (System (SocketClose c)) s)\<lparr>ipc_clients := wl_remove c (ipc_clients s)\<rparr>"

definition broadcast_one :: "env \<Rightarrow> string \<Rightarrow> nat \<Rightarrow> kum_server \<Rightarrow> kum_server" where
  "broadcast_one E msg c s =
     (let r = send_result E (trace s) c msg; s1 = emit (System (SocketSend c msg)) s
      in if r = SendError then ipc_client_destroy c s1 else s1)"

definition kum_ipc_broadcast :: "env \<Rightarrow> string \<Rightarrow> kum_server \<Rightarrow> kum_server" where
  "kum_ipc_broadcast E msg s = fold (broadcast_one E msg) (ipc_clients s) s"

definition ipc_broadcast_workspace :: "env \<Rightarrow> oid \<Rightarrow> int \<Rightarrow> kum_server \<Rightarrow> kum_server" where
  "ipc_broadcast_workspace E i index s =
     kum_ipc_broadcast E (snprintf 80 (workspace_msg (out_name E i) index)) s"

definition kum_ipc_broadcast_occupancy :: "env \<Rightarrow> kum_server \<Rightarrow> kum_server" where
  "kum_ipc_broadcast_occupancy E s = kum_ipc_broadcast E (build_occupancy_msg s 256) s"

text \<open>
  The title message is built in a buffer of 400 bytes and sent with the length
  \<open>snprintf\<close> returned, which is that of the whole text: beyond 400 the send reads
  past the buffer (\<open>None\<close>).
\<close>

definition send_buffer :: "env \<Rightarrow> nat \<Rightarrow> string \<Rightarrow> kum_server \<Rightarrow> kum_server option" where
  "send_buffer E sz text s =
     (if length text < sz then Some (kum_ipc_broadcast E text s)
      else if length text = sz then Some (kum_ipc_broadcast E (snprintf sz text @ [CHR 0x00]) s)
      else None)"

definition kum_ipc_broadcast_window_title :: "env \<Rightarrow> int \<Rightarrow> string \<Rightarrow> kum_server \<Rightarrow> kum_server option" where
  "kum_ipc_broadcast_window_title E w title s =
     (case List.find (\<lambda>i. active_ws s i = w) (outputs s) of
        None \<Rightarrow> Some s
      | Some i \<Rightarrow> send_buffer E 400 (window_title_msg (out_name E i) (json_body 350 title)) s)"

section \<open>Lemmas\<close>

lemma broadcast_one_quiet: "quiet s (broadcast_one E msg c s)"
proof -
  have "quiet s (s\<lparr>trace := cs @ trace s, ipc_clients := wl_remove c (ipc_clients s)\<rparr>)" if "list_all plain cs" for cs
    using that by (intro quietI [OF refl]) auto
  from this [of "[System (SocketClose c), System (SocketSend c msg)]"]
    quiet_emit [of "System (SocketSend c msg)" s]
  show ?thesis by (auto simp: broadcast_one_def ipc_client_destroy_def Let_def emit_def)
qed

lemma broadcast_quiet [kum_frame, simp, intro]: "quiet s (kum_ipc_broadcast E msg s)"
proof -
  have "quiet t (fold (broadcast_one E msg) cs t)" for cs t
    by (induction cs arbitrary: t) (auto intro: quiet_trans broadcast_one_quiet)
  then show ?thesis by (simp add: kum_ipc_broadcast_def)
qed

lemma broadcast_workspace_quiet [kum_frame, simp, intro]: "quiet s (ipc_broadcast_workspace E i w s)"
  by (simp add: ipc_broadcast_workspace_def)

lemma broadcast_occupancy_quiet [kum_frame, simp, intro]: "quiet s (kum_ipc_broadcast_occupancy E s)"
  by (simp add: kum_ipc_broadcast_occupancy_def)

lemma broadcast_title_quiet [kum_frame]: "kum_ipc_broadcast_window_title E w title s = Some s' \<Longrightarrow> quiet s s'"
  by (auto simp: kum_ipc_broadcast_window_title_def send_buffer_def split: option.splits if_splits)

lemma window_title_msg_length: "length (window_title_msg n t) = length n + length t + 48"
  by (simp add: window_title_msg_def jstr_def)

lemma broadcast_title_defined:
  assumes "\<forall>i \<in> set (outputs s). length (out_name E i) \<le> 3"
  shows "\<exists>s'. kum_ipc_broadcast_window_title E w title s = Some s'"
proof (cases "List.find (\<lambda>i. active_ws s i = w) (outputs s)")
  case None
  then show ?thesis by (simp add: kum_ipc_broadcast_window_title_def)
next
  case (Some i)
  then have "i \<in> set (outputs s)" using find_Some_iff_mem by fastforce
  then have "length (out_name E i) \<le> 3" using assms by blast
  then have "length (window_title_msg (out_name E i) (json_body 350 title)) \<le> 400"
    using json_body_length [of 350 title] by (simp add: window_title_msg_length)
  then show ?thesis using Some by (auto simp: kum_ipc_broadcast_window_title_def send_buffer_def)
qed

lemma occupancy_msg_length: "length (occupancy_msg occ) = 47"
proof -
  have "length ((if i = 0 then [] else '','') @ (if occ i then ''1'' else ''0'')) = (if i = 0 then 1 else 2)" for i :: int
    by simp
  moreover have "[0..KUM_WORKSPACE_COUNT - 1] = [0, 1, 2, 3, 4, 5, 6, 7, 8]"
    unfolding KUM_WORKSPACE_COUNT_def by code_simp
  ultimately show ?thesis by (simp add: occupancy_msg_def jstr_def)
qed

lemma build_occupancy_full: "build_occupancy_msg s 256 = occupancy_msg (occupied s)"
  by (simp add: build_occupancy_msg_def snprintf_fits occupancy_msg_length)

end
