(* ===== verification/Focus.thy ===== *)
theory Focus
  imports Decor Ipc_Out
begin

text \<open>
  Keyboard focus: \<open>kum_output_focused\<close> of \<open>src/output.c\<close>, \<open>kum_focus_toplevel\<close> of
  \<open>src/toplevel.c\<close> and \<open>kum_focus_xwayland_surface\<close> of \<open>src/xwayland.c\<close>, with the
  consistency of the window lists every handler has to keep.
\<close>

section \<open>Operations\<close>

definition output_of_wlr :: "oid option \<Rightarrow> kum_server \<Rightarrow> oid option" where
  "output_of_wlr wo s = (case wo of None \<Rightarrow> None | Some w \<Rightarrow> List.find (\<lambda>i. i = w) (outputs s))"

definition kum_output_focused :: "env \<Rightarrow> kum_server \<Rightarrow> oid option" where
  "kum_output_focused E s =
     (let (cx, cy) = cursor_pos E (trace s) in output_of_wlr (layout_output_at E (trace s) cx cy) s)"

text \<open>Taking the activation away from the surface that had the keyboard (in both functions).\<close>

definition deactivate_prev :: "env \<Rightarrow> surf \<Rightarrow> kum_server \<Rightarrow> kum_server option" where
  "deactivate_prev E prev s =
     (case xdg_toplevel_of E prev of
        Some wt \<Rightarrow>
          (let s1 = emit (Shell (XdgSetActivated wt False)) s in
           case List.find (\<lambda>t. tl_surface E t = prev) (toplevels s1) of
             None \<Rightarrow> Some s1
           | Some t \<Rightarrow> kum_border_update E t False s1)
      | None \<Rightarrow>
          (case focused_xwayland s of
             None \<Rightarrow> Some s
           | Some x \<Rightarrow>
               if xw_surface E x = Some prev
               then kum_xwayland_border_update E x False (emit (Shell (XwActivate x False)) s)
               else Some s))"

definition notify_enter :: "env \<Rightarrow> surf \<Rightarrow> kum_server \<Rightarrow> kum_server" where
  \<comment> \<open>only with a keyboard\<close>
  "notify_enter E sf s =
     (case seat_keyboard E (trace s) of None \<Rightarrow> s | Some k \<Rightarrow> emit (Seat (KeyboardEnter sf)) s)"

definition title_text :: "string option \<Rightarrow> string" where
  "title_text t = (case t of None \<Rightarrow> [] | Some x \<Rightarrow> x)"

definition kum_focus_toplevel :: "env \<Rightarrow> tid \<Rightarrow> surf \<Rightarrow> kum_server \<Rightarrow> kum_server option" where
  "kum_focus_toplevel E t sf s =
     (if locked s then Some s
      else if kb_focus E (trace s) = Some sf then Some s
      else do {
        s1 \<leftarrow> (case kb_focus E (trace s) of None \<Rightarrow> Some s | Some p \<Rightarrow> deactivate_prev E p s);
        let s2 = emit (Scene (RaiseToTop (NToplevel t))) (s1\<lparr>focused_xwayland := None\<rparr>);
        let s3 = s2\<lparr>toplevels := wl_insert t (wl_remove t (toplevels s2))\<rparr>;
        let s4 = emit (Shell (XdgSetActivated t True)) s3;
        let s5 = upd_tl t (\<lambda>r. r\<lparr>tl_anim :=
                   kum_anim_start (clock_now E) ANIM_FOCUSING 0 1 (cfg_anim_focus_ms (cfg s4)) (tl_anim r)\<rparr>) s4;
        s6 \<leftarrow> kum_border_update E t True s5;
        let s7 = s6\<lparr>focused := Some t, next_focus_serial := next_focus_serial s6 + 1\<rparr>;
        let s8 = upd_tl t (\<lambda>r. r\<lparr>tl_focus_serial := next_focus_serial s7\<rparr>) s7;
        s9 \<leftarrow> kum_ipc_broadcast_window_title E (ws_of s8 t) (title_text (tl_title E t)) s8;
        Some (notify_enter E sf s9) })"

definition kum_focus_xwayland_surface :: "env \<Rightarrow> xid \<Rightarrow> kum_server \<Rightarrow> kum_server option" where
  "kum_focus_xwayland_surface E x s =
     (if locked s then Some s
      else if kb_focus E (trace s) = xw_surface E x then Some s
      else do {
        s1 \<leftarrow> (case kb_focus E (trace s) of None \<Rightarrow> Some s | Some p \<Rightarrow> deactivate_prev E p s);
        let s2 = s1\<lparr>focused := None, focused_xwayland := Some x, next_focus_serial := next_focus_serial s1 + 1\<rparr>;
        let s3 = upd_xs x (\<lambda>r. r\<lparr>xs_focus_serial := next_focus_serial s2\<rparr>) s2;
        let s4 = emits [Scene (RaiseToTop (NXwayland x)), Shell (XwActivate x True)] s3;
        s5 \<leftarrow> kum_xwayland_border_update E x True s4;
        s6 \<leftarrow> kum_ipc_broadcast_window_title E (xws_of s5 x) (title_text (xw_title E x)) s5;
        (case xw_surface E x of
           None \<Rightarrow> (if seat_keyboard E (trace s6) = None then Some s6 else None)
         | Some sf \<Rightarrow> Some (notify_enter E sf s6)) })"

section \<open>Consistency\<close>

text \<open>
  The invariant of the window lists: every window is on exactly the workspace it
  names, the indices are in range, and what is focused is a live window, of one
  kind at a time.
\<close>

definition ws_ok :: "int \<Rightarrow> bool" where
  "ws_ok i \<longleftrightarrow> 0 \<le> i \<and> i < KUM_WORKSPACE_COUNT"

definition windows_ok :: "kum_server \<Rightarrow> bool" where
  "windows_ok s \<longleftrightarrow>
     distinct (toplevels s) \<and> distinct (xwayland_surfaces s) \<and>
     (\<forall>w. distinct (ws_toplevels (workspaces s w)) \<and>
          set (ws_toplevels (workspaces s w)) = {t \<in> set (toplevels s). ws_of s t = w}) \<and>
     (\<forall>t \<in> set (toplevels s). ws_ok (ws_of s t)) \<and>
     (\<forall>x \<in> set (xwayland_surfaces s). ws_ok (xws_of s x))"

definition focus_ok :: "kum_server \<Rightarrow> bool" where
  "focus_ok s \<longleftrightarrow>
     (\<forall>t. focused s = Some t \<longrightarrow> t \<in> set (toplevels s)) \<and>
     (\<forall>x. focused_xwayland s = Some x \<longrightarrow> x \<in> set (xwayland_surfaces s)) \<and>
     (focused s = None \<or> focused_xwayland s = None)"

definition outputs_ok :: "kum_server \<Rightarrow> bool" where
  "outputs_ok s \<longleftrightarrow>
     distinct (outputs s) \<and> inj_on (active_ws s) (set (outputs s)) \<and>
     (\<forall>i \<in> set (outputs s). ws_ok (active_ws s i) \<and> ws_ok (previous_workspace (output_at s i)))"

definition server_ok :: "kum_server \<Rightarrow> bool" where
  "server_ok s \<longleftrightarrow> windows_ok s \<and> focus_ok s \<and> outputs_ok s \<and> ws_ok (scratchpad_ws s)"

text \<open>The fields the invariant reads.\<close>

definition same_view :: "kum_server \<Rightarrow> kum_server \<Rightarrow> bool" where
  "same_view s t \<longleftrightarrow>
     toplevels t = toplevels s \<and> xwayland_surfaces t = xwayland_surfaces s \<and>
     workspaces t = workspaces s \<and> ws_of t = ws_of s \<and> xws_of t = xws_of s \<and>
     focused t = focused s \<and> focused_xwayland t = focused_xwayland s \<and>
     outputs t = outputs s \<and> output_at t = output_at s \<and> scratchpad_ws t = scratchpad_ws s"

lemma same_view_refl [simp]: "same_view s s"
  by (simp add: same_view_def)

lemma same_view_trans [trans]: "same_view s t \<Longrightarrow> same_view t u \<Longrightarrow> same_view s u"
  by (simp add: same_view_def)

lemma quiet_same_view: "quiet s t \<Longrightarrow> same_view s t"
  by (simp add: same_view_def quiet_fields ws_of_def xws_of_def fun_eq_iff)

lemma same_view_server_ok: "same_view s t \<Longrightarrow> server_ok s \<Longrightarrow> server_ok t"
  by (simp add: same_view_def server_ok_def windows_ok_def focus_ok_def outputs_ok_def active_ws_def [abs_def])

lemma quiet_server_ok: "quiet s t \<Longrightarrow> server_ok s \<Longrightarrow> server_ok t"
  by (blast intro: same_view_server_ok quiet_same_view)

section \<open>What focusing changes\<close>

text \<open>
  \<open>refocus s t\<close>: windows keep their workspace, and the lists of outputs, workspaces
  and windows keep their contents (the order of the toplevels may change).
\<close>

fun ws_plain :: "call \<Rightarrow> bool" where
  "ws_plain (Scene (SetEnabled n b)) = False"
| "ws_plain c = True"

definition says_plain :: "kum_server \<Rightarrow> kum_server \<Rightarrow> bool" where
  "says_plain s t \<longleftrightarrow> (\<exists>cs. trace t = cs @ trace s \<and> list_all ws_plain cs)"

lemma says_refl [simp, intro]: "says_plain s s"
  by (simp add: says_plain_def)

lemma says_trans [trans]: "says_plain s t \<Longrightarrow> says_plain t u \<Longrightarrow> says_plain s u"
  unfolding says_plain_def by (elim exE conjE, rule_tac x = "csa @ cs" in exI) simp

lemma saysI: "trace t = cs @ trace s \<Longrightarrow> list_all ws_plain cs \<Longrightarrow> says_plain s t"
  by (auto simp: says_plain_def)

lemma plain_ws_plain: "plain c \<Longrightarrow> ws_plain c"
  by (cases c rule: ws_plain.cases) auto

definition refocus :: "kum_server \<Rightarrow> kum_server \<Rightarrow> bool" where
  "refocus s t \<longleftrightarrow>
     set (toplevels t) = set (toplevels s) \<and> (distinct (toplevels s) \<longrightarrow> distinct (toplevels t)) \<and>
     xwayland_surfaces t = xwayland_surfaces s \<and> workspaces t = workspaces s \<and>
     ws_of t = ws_of s \<and> xws_of t = xws_of s \<and> outputs t = outputs s \<and> output_at t = output_at s \<and>
     scratchpad_ws t = scratchpad_ws s \<and> locked t = locked s \<and> active_lock t = active_lock s \<and>
     cfg t = cfg s \<and> rules t = rules s \<and> layer_surfaces t = layer_surfaces s \<and> keybinds t = keybinds s \<and>
     keyboards t = keyboards s \<and> lock_children t = lock_children s \<and>
     (\<forall>i. tl_floating (toplevel_at t i) = tl_floating (toplevel_at s i) \<and>
          tl_border (toplevel_at t i) = tl_border (toplevel_at s i)) \<and>
     (\<forall>i. xs_border (xsurface_at t i) = xs_border (xsurface_at s i)) \<and>
     set (ipc_clients t) \<subseteq> set (ipc_clients s) \<and>
     says_plain s t"

lemma refocus_refl [simp, intro]: "refocus s s"
  by (simp add: refocus_def)

lemma refocus_trans [trans]: "refocus s t \<Longrightarrow> refocus t u \<Longrightarrow> refocus s u"
  by (auto simp: refocus_def intro: says_trans)

lemma quiet_says: "quiet s t \<Longrightarrow> says_plain s t"
  using quiet_trace [of s t] plain_ws_plain by (auto simp: says_plain_def list_all_iff)

lemma quiet_refocus: "quiet s t \<Longrightarrow> refocus s t"
  using quiet_clients quiet_says by (simp add: refocus_def quiet_fields ws_of_def xws_of_def fun_eq_iff)

lemma refocus_windows_ok: "refocus s t \<Longrightarrow> windows_ok s \<Longrightarrow> windows_ok t"
  by (simp add: refocus_def windows_ok_def)

lemma refocus_outputs_ok: "refocus s t \<Longrightarrow> outputs_ok s \<Longrightarrow> outputs_ok t"
  by (simp add: refocus_def outputs_ok_def active_ws_def [abs_def])

lemma deactivate_prev_quiet: "deactivate_prev E p s = Some s' \<Longrightarrow> quiet s s'"
  by (auto simp: deactivate_prev_def Let_def split: option.splits if_splits
      dest!: border_update_quiet xborder_update_quiet intro: quiet_after_emit)

lemma notify_enter_refocus: "refocus s (notify_enter E sf s)"
  by (auto simp: notify_enter_def refocus_def ws_of_def xws_of_def fun_eq_iff split: option.split
      intro: saysI [of _ "[Seat (KeyboardEnter sf)]"])

lemma notify_enter_fields [simp]:
  "focused (notify_enter E sf s) = focused s" "focused_xwayland (notify_enter E sf s) = focused_xwayland s"
  "toplevels (notify_enter E sf s) = toplevels s" "toplevel_at (notify_enter E sf s) = toplevel_at s"
  "next_focus_serial (notify_enter E sf s) = next_focus_serial s"
  by (simp_all add: notify_enter_def split: option.split)

lemma bind_SomeE:
  assumes "Option.bind m f = Some y"
  obtains x where "m = Some x" and "f x = Some y"
  using assms by (cases m) auto

lemma deactivate_opt_quiet:
  "(case kf of None \<Rightarrow> Some s | Some p \<Rightarrow> deactivate_prev E p s) = Some s1 \<Longrightarrow> quiet s s1"
  by (auto simp: deactivate_prev_quiet split: option.splits)

lemma upd_tl_fields [simp]:
  "toplevels (upd_tl t f s) = toplevels s" "xwayland_surfaces (upd_tl t f s) = xwayland_surfaces s"
  "workspaces (upd_tl t f s) = workspaces s" "outputs (upd_tl t f s) = outputs s"
  "output_at (upd_tl t f s) = output_at s" "xsurface_at (upd_tl t f s) = xsurface_at s"
  "focused (upd_tl t f s) = focused s" "focused_xwayland (upd_tl t f s) = focused_xwayland s"
  "cfg (upd_tl t f s) = cfg s" "rules (upd_tl t f s) = rules s" "trace (upd_tl t f s) = trace s"
  "locked (upd_tl t f s) = locked s" "active_lock (upd_tl t f s) = active_lock s"
  "next_focus_serial (upd_tl t f s) = next_focus_serial s" "scratchpad_ws (upd_tl t f s) = scratchpad_ws s"
  "ipc_clients (upd_tl t f s) = ipc_clients s" "layer_surfaces (upd_tl t f s) = layer_surfaces s"
  "keybinds (upd_tl t f s) = keybinds s" "keyboards (upd_tl t f s) = keyboards s"
  "lock_children (upd_tl t f s) = lock_children s" "next_node (upd_tl t f s) = next_node s"
  "toplevel_at (upd_tl t f s) i = (if i = t then f (toplevel_at s t) else toplevel_at s i)"
  by (simp_all add: upd_tl_def)

lemma upd_xs_fields [simp]:
  "toplevels (upd_xs t f s) = toplevels s" "xwayland_surfaces (upd_xs t f s) = xwayland_surfaces s"
  "workspaces (upd_xs t f s) = workspaces s" "outputs (upd_xs t f s) = outputs s"
  "output_at (upd_xs t f s) = output_at s" "toplevel_at (upd_xs t f s) = toplevel_at s"
  "focused (upd_xs t f s) = focused s" "focused_xwayland (upd_xs t f s) = focused_xwayland s"
  "cfg (upd_xs t f s) = cfg s" "rules (upd_xs t f s) = rules s" "trace (upd_xs t f s) = trace s"
  "locked (upd_xs t f s) = locked s" "active_lock (upd_xs t f s) = active_lock s"
  "next_focus_serial (upd_xs t f s) = next_focus_serial s" "scratchpad_ws (upd_xs t f s) = scratchpad_ws s"
  "ipc_clients (upd_xs t f s) = ipc_clients s" "layer_surfaces (upd_xs t f s) = layer_surfaces s"
  "keybinds (upd_xs t f s) = keybinds s" "keyboards (upd_xs t f s) = keyboards s"
  "lock_children (upd_xs t f s) = lock_children s" "next_node (upd_xs t f s) = next_node s"
  "xsurface_at (upd_xs t f s) i = (if i = t then f (xsurface_at s t) else xsurface_at s i)"
  by (simp_all add: upd_xs_def)

lemma quiet_ws: "quiet s t \<Longrightarrow> ws_of t = ws_of s \<and> xws_of t = xws_of s"
  by (simp add: quiet_fields ws_of_def [abs_def] xws_of_def [abs_def])

lemma focus_toplevel_noop:
  "locked s \<or> kb_focus E (trace s) = Some sf \<Longrightarrow> kum_focus_toplevel E t sf s = Some s"
  by (elim disjE) (simp_all add: kum_focus_toplevel_def)

lemma focus_xwayland_noop:
  "locked s \<or> kb_focus E (trace s) = xw_surface E x \<Longrightarrow> kum_focus_xwayland_surface E x s = Some s"
  by (elim disjE) (simp_all add: kum_focus_xwayland_surface_def)

text \<open>
  Focusing a toplevel either does nothing, or makes it the one focused window, at the
  head of the window list.
\<close>

lemma focus_toplevel_effect:
  assumes "kum_focus_toplevel E t sf s = Some s'" and "t \<in> set (toplevels s)"
  shows "refocus s s' \<and>
     (if locked s \<or> kb_focus E (trace s) = Some sf then s' = s
      else focused s' = Some t \<and> focused_xwayland s' = None \<and> hd (toplevels s') = t \<and>
           next_focus_serial s' = next_focus_serial s + 1 \<and> tl_focus_serial (toplevel_at s' t) = next_focus_serial s + 1)"
proof (cases "locked s \<or> kb_focus E (trace s) = Some sf")
  case True
  then show ?thesis using assms(1) by (simp add: focus_toplevel_noop)
next
  case False
  then obtain s1 s6 s9 where
    1: "quiet s s1" and
    6: "quiet (upd_tl t (\<lambda>r. r\<lparr>tl_anim :=
                   kum_anim_start (clock_now E) ANIM_FOCUSING 0 1 (cfg_anim_focus_ms (cfg s1)) (tl_anim r)\<rparr>)
         (emit (Shell (XdgSetActivated t True))
            (emit (Scene (RaiseToTop (NToplevel t))) (s1\<lparr>focused_xwayland := None\<rparr>)
               \<lparr>toplevels := wl_insert t (wl_remove t (toplevels s1))\<rparr>))) s6" and
    9: "quiet (upd_tl t (\<lambda>r. r\<lparr>tl_focus_serial := next_focus_serial s6 + 1\<rparr>)
         (s6\<lparr>focused := Some t, next_focus_serial := next_focus_serial s6 + 1\<rparr>)) s9" and
    s': "s' = notify_enter E sf s9"
    using assms(1) unfolding kum_focus_toplevel_def Let_def
    by (auto elim!: bind_SomeE dest!: deactivate_opt_quiet border_update_quiet broadcast_title_quiet)
  let ?s5 = "upd_tl t (\<lambda>r. r\<lparr>tl_anim :=
                   kum_anim_start (clock_now E) ANIM_FOCUSING 0 1 (cfg_anim_focus_ms (cfg s1)) (tl_anim r)\<rparr>)
         (emit (Shell (XdgSetActivated t True))
            (emit (Scene (RaiseToTop (NToplevel t))) (s1\<lparr>focused_xwayland := None\<rparr>)
               \<lparr>toplevels := wl_insert t (wl_remove t (toplevels s1))\<rparr>))"
  let ?s8 = "upd_tl t (\<lambda>r. r\<lparr>tl_focus_serial := next_focus_serial s6 + 1\<rparr>)
         (s6\<lparr>focused := Some t, next_focus_serial := next_focus_serial s6 + 1\<rparr>)"
  have t: "t \<in> set (toplevels s1)" using assms(2) quiet_fields(3) [OF 1] by simp
  have "refocus s1 ?s5"
    using t by (auto simp: refocus_def ws_of_def xws_of_def fun_eq_iff
        intro: saysI [of _ "[Shell (XdgSetActivated t True), Scene (RaiseToTop (NToplevel t))]"])
  with quiet_refocus [OF 1] have "refocus s ?s5" by (rule refocus_trans)
  also have "refocus ?s5 s6" by (rule quiet_refocus [OF 6])
  also have "refocus s6 ?s8"
    by (auto simp: refocus_def ws_of_def xws_of_def fun_eq_iff intro: saysI [of _ "[]"])
  also have "refocus ?s8 s9" by (rule quiet_refocus [OF 9])
  also have "refocus s9 s'" unfolding s' by (rule notify_enter_refocus)
  finally have "refocus s s'" .
  then show ?thesis
    using False by (simp add: s' quiet_fields [OF 9] quiet_fields [OF 6] quiet_fields [OF 1] wl_insert_def)
qed

lemma focus_xwayland_effect:
  assumes "kum_focus_xwayland_surface E x s = Some s'"
  shows "refocus s s' \<and> toplevels s' = toplevels s \<and>
     (if locked s \<or> kb_focus E (trace s) = xw_surface E x then s' = s
      else focused s' = None \<and> focused_xwayland s' = Some x)"
proof (cases "locked s \<or> kb_focus E (trace s) = xw_surface E x")
  case True
  then show ?thesis using assms by (simp add: focus_xwayland_noop)
next
  case False
  let ?s4 = "\<lambda>s1. emits [Scene (RaiseToTop (NXwayland x)), Shell (XwActivate x True)]
          (upd_xs x (\<lambda>r. r\<lparr>xs_focus_serial := next_focus_serial s1 + 1\<rparr>)
            (s1\<lparr>focused := None, focused_xwayland := Some x, next_focus_serial := next_focus_serial s1 + 1\<rparr>))"
  from False obtain s1 s5 s6 where
    "(case kb_focus E (trace s) of None \<Rightarrow> Some s | Some p \<Rightarrow> deactivate_prev E p s) = Some s1" and
    "kum_xwayland_border_update E x True (?s4 s1) = Some s5" and
    "kum_ipc_broadcast_window_title E (xws_of s5 x) (title_text (xw_title E x)) s5 = Some s6" and
    last: "(case xw_surface E x of None \<Rightarrow> (if seat_keyboard E (trace s6) = None then Some s6 else None)
       | Some sf \<Rightarrow> Some (notify_enter E sf s6)) = Some s'"
    using assms unfolding kum_focus_xwayland_surface_def Let_def
    by (simp del: option.case_distrib split del: option.splits) (elim bind_SomeE, simp)
  then have 1: "quiet s s1" and 5: "quiet (?s4 s1) s5" and 6: "quiet s5 s6"
    by (auto dest: deactivate_opt_quiet xborder_update_quiet broadcast_title_quiet)
  from last have s': "refocus s6 s'" and f: "focused s' = focused s6" "focused_xwayland s' = focused_xwayland s6"
      "toplevels s' = toplevels s6"
    by (auto simp: notify_enter_refocus split: option.splits if_splits)
  have "refocus s1 (?s4 s1)"
    by (auto simp: refocus_def ws_of_def xws_of_def fun_eq_iff
        intro: saysI [of _ "[Shell (XwActivate x True), Scene (RaiseToTop (NXwayland x))]"])
  with quiet_refocus [OF 1] have "refocus s (?s4 s1)" by (rule refocus_trans)
  also have "refocus (?s4 s1) s5" by (rule quiet_refocus [OF 5])
  also have "refocus s5 s6" by (rule quiet_refocus [OF 6])
  also note s'
  finally have "refocus s s'" .
  then show ?thesis
    using False f by (simp add: quiet_fields [OF 1] quiet_fields [OF 5] quiet_fields [OF 6])
qed

lemmas focus_effects = focus_toplevel_effect focus_xwayland_effect

lemma refocus_server_ok: "refocus s t \<Longrightarrow> server_ok s \<Longrightarrow> focus_ok t \<Longrightarrow> server_ok t"
  by (simp add: server_ok_def refocus_windows_ok refocus_outputs_ok) (simp add: refocus_def)

lemma refocus_sets: "refocus s t \<Longrightarrow> set (toplevels t) = set (toplevels s) \<and> xwayland_surfaces t = xwayland_surfaces s"
  by (simp add: refocus_def)

lemma focus_toplevel_ok [kum_inv]:
  assumes "kum_focus_toplevel E t sf s = Some s'" and "t \<in> set (toplevels s)" and "server_ok s"
  shows "server_ok s'"
proof (rule refocus_server_ok)
  note e = focus_toplevel_effect [OF assms(1,2)]
  show "refocus s s'" using e by blast
  show "focus_ok s'"
    using e assms(2,3) refocus_sets [of s s'] by (auto simp: focus_ok_def server_ok_def split: if_splits)
qed (rule assms)

lemma focus_xwayland_ok [kum_inv]:
  assumes "kum_focus_xwayland_surface E x s = Some s'" and "x \<in> set (xwayland_surfaces s)" and "server_ok s"
  shows "server_ok s'"
proof (rule refocus_server_ok)
  note e = focus_xwayland_effect [OF assms(1)]
  show "refocus s s'" using e by blast
  show "focus_ok s'"
    using e assms(2,3) refocus_sets [of s s'] by (auto simp: focus_ok_def server_ok_def split: if_splits)
qed (rule assms)

end
