(* ===== verification/Workspace.thy ===== *)
theory Workspace
  imports Focus "HOL-Library.Signed_Division"
begin

text \<open>
  Workspaces and tiling: \<open>src/workspace.c\<close>, \<open>src/tiling.c\<close> and \<open>src/focus.c\<close>.
\<close>

section \<open>Lookups\<close>

definition kum_workspace_init :: "kum_server \<Rightarrow> kum_server" where
  "kum_workspace_init s =
     fold (\<lambda>i st. emits [Scene (TreeCreate NNormal (NWorkspace i)), Scene (SetEnabled (NWorkspace i) False)]
                    (upd_ws i (\<lambda>_. \<lparr>ws_layout = LAYOUT_FLOATING, ws_toplevels = []\<rparr>) st))
       [0..KUM_WORKSPACE_COUNT - 1] s"

definition output_for_workspace :: "kum_server \<Rightarrow> int \<Rightarrow> oid option" where
  "output_for_workspace s w = List.find (\<lambda>i. active_ws s i = w) (outputs s)"

text \<open>The toplevels the layouts place.\<close>

definition tiled :: "env \<Rightarrow> kum_server \<Rightarrow> int \<Rightarrow> tid list" where
  "tiled E s w = filter (\<lambda>t. \<not> tl_floating (toplevel_at s t) \<and> tl_mapped E t) (ws_toplevels (workspaces s w))"

section \<open>Layouts\<close>

definition master_width :: "int \<Rightarrow> rat \<Rightarrow> wlr_box \<Rightarrow> nat \<Rightarrow> int" where
  "master_width gap mr area count =
     (if count = 1 then box_w area - gap * 2
      else trunc (f32 (f32 (of_int (box_w area - gap * 3)) * mr)))"

definition tile_box :: "int \<Rightarrow> rat \<Rightarrow> wlr_box \<Rightarrow> nat \<Rightarrow> nat \<Rightarrow> wlr_box" where
  "tile_box gap mr area count i =
     (let master_w = master_width gap mr area count;
          stack_w = box_w area - gap * 3 - master_w;
          stack_count = int count - 1 in
      if i = 0 then
        \<lparr>box_x = box_x area + gap, box_y = box_y area + gap, box_w = master_w, box_h = box_h area - gap * 2\<rparr>
      else
        let slot = int i - 1;
            slot_h = (if 0 < stack_count then (box_h area - gap * (stack_count + 1)) sdiv stack_count
                      else box_h area - gap * 2)
        in \<lparr>box_x = box_x area + gap * 2 + master_w, box_y = box_y area + gap + slot * (slot_h + gap),
            box_w = stack_w, box_h = slot_h\<rparr>)"

fun place_windows :: "env \<Rightarrow> (tid \<times> wlr_box) list \<Rightarrow> kum_server \<Rightarrow> kum_server option" where
  "place_windows E [] s = Some s"
| "place_windows E ((t, b) # ps) s =
     do { s1 \<leftarrow> kum_border_update E t (focused s = Some t)
                 (emits [Scene (SetPosition (NToplevel t) (box_x b) (box_y b)), Shell (XdgSetSize t (box_w b) (box_h b))] s);
          place_windows E ps s1 }"

fun place_monocle :: "env \<Rightarrow> wlr_box \<Rightarrow> int \<Rightarrow> tid list \<Rightarrow> kum_server \<Rightarrow> kum_server option" where
  "place_monocle E area gap [] s = Some s"
| "place_monocle E area gap (t # ts) s =
     do { s1 \<leftarrow> kum_border_update E t (focused s = Some t)
                 (emits [Scene (SetPosition (NToplevel t) (box_x area + gap) (box_y area + gap)),
                         Shell (XdgSetSize t (box_w area - gap * 2) (box_h area - gap * 2)),
                         Scene (LowerToBottom (NToplevel t))] s);
          place_monocle E area gap ts s1 }"

definition kum_workspace_monocle_arrange :: "env \<Rightarrow> oid option \<Rightarrow> int \<Rightarrow> kum_server \<Rightarrow> kum_server option" where
  "kum_workspace_monocle_arrange E out w s =
     (case out of None \<Rightarrow> None
      | Some i \<Rightarrow> do {
          s1 \<leftarrow> place_monocle E (usable_area (output_at s i)) (cfg_gap (cfg s)) (tiled E s w) s;
          Some (case focused s1 of
                  None \<Rightarrow> s1
                | Some t \<Rightarrow> if ws_of s1 t = w \<and> \<not> tl_floating (toplevel_at s1 t)
                            then emit (Scene (RaiseToTop (NToplevel t))) s1 else s1) })"

definition kum_workspace_arrange :: "env \<Rightarrow> oid option \<Rightarrow> int \<Rightarrow> kum_server \<Rightarrow> kum_server option" where
  "kum_workspace_arrange E out w s =
     (if layout_of s w = LAYOUT_FLOATING then Some s
      else if layout_of s w = LAYOUT_MONOCLE then kum_workspace_monocle_arrange E out w s
      else case out of None \<Rightarrow> None
           | Some i \<Rightarrow>
               let ts = tiled E s w; n = length ts in
               place_windows E
                 (zip ts (map (tile_box (cfg_gap (cfg s)) (cfg_master_ratio (cfg s)) (usable_area (output_at s i)) n) [0..<n])) s)"

section \<open>Switching\<close>

definition translate_node :: "env \<Rightarrow> int \<Rightarrow> int \<Rightarrow> node \<Rightarrow> kum_server \<Rightarrow> kum_server" where
  "translate_node E dx dy n s =
     (let (x, y) = node_coords E (trace s) n in emit (Scene (SetPosition n (x + dx) (y + dy))) s)"

definition workspace_translate :: "env \<Rightarrow> int \<Rightarrow> int \<Rightarrow> int \<Rightarrow> kum_server \<Rightarrow> kum_server" where
  "workspace_translate E w dx dy s =
     (if dx = 0 \<and> dy = 0 then s
      else fold (translate_node E dx dy)
             (map NToplevel (ws_toplevels (workspaces s w)) @
              map NXwayland (filter (\<lambda>x. xws_of s x = w) (xwayland_surfaces s))) s)"

text \<open>
  The search for an XWayland window to focus reads \<open>surface->mapped\<close>, a null
  dereference for a window that has no surface (yet).
\<close>

fun first_mapped_xs :: "env \<Rightarrow> kum_server \<Rightarrow> int \<Rightarrow> xid list \<Rightarrow> xid option option" where
  "first_mapped_xs E s w [] = Some None"
| "first_mapped_xs E s w (x # xs) =
     (if xws_of s x \<noteq> w then first_mapped_xs E s w xs
      else case xw_surface E x of
             None \<Rightarrow> None
           | Some _ \<Rightarrow> if xw_mapped E x then Some (Some x) else first_mapped_xs E s w xs)"

definition focus_first :: "env \<Rightarrow> int \<Rightarrow> kum_server \<Rightarrow> kum_server option" where
  "focus_first E w s =
     (case List.find (tl_mapped E) (ws_toplevels (workspaces s w)) of
        Some t \<Rightarrow> kum_focus_toplevel E t (tl_surface E t) s
      | None \<Rightarrow> do {
          r \<leftarrow> first_mapped_xs E s w (xwayland_surfaces s);
          (case r of None \<Rightarrow> Some s | Some x \<Rightarrow> kum_focus_xwayland_surface E x s) })"

text \<open>Dropping the focus of a window on a workspace that is being left.\<close>

definition unfocus_toplevel_on :: "int \<Rightarrow> kum_server \<Rightarrow> kum_server" where
  "unfocus_toplevel_on w s =
     (case focused s of
        Some t \<Rightarrow> if ws_of s t = w then emit (Seat KeyboardClear) (s\<lparr>focused := None\<rparr>) else s
      | None \<Rightarrow> s)"

definition unfocus_xwayland_on :: "int \<Rightarrow> kum_server \<Rightarrow> kum_server" where
  "unfocus_xwayland_on w s =
     (case focused_xwayland s of
        Some x \<Rightarrow> if xws_of s x = w then emit (Seat KeyboardClear) (s\<lparr>focused_xwayland := None\<rparr>) else s
      | None \<Rightarrow> s)"

text \<open>Taking workspace \<open>index\<close> from another output that shows it, or hiding \<open>prev\<close>.\<close>

definition swap_or_hide :: "env \<Rightarrow> oid \<Rightarrow> int \<Rightarrow> int \<Rightarrow> kum_server \<Rightarrow> kum_server" where
  "swap_or_hide E i prev index s =
     (case List.find (\<lambda>j. j \<noteq> i \<and> active_ws s j = index) (outputs s) of
        Some j \<Rightarrow>
          (let s1 = upd_output j (\<lambda>r. r\<lparr>previous_workspace := index, active_workspace := prev\<rparr>) s;
               s2 = emit (Scene (SetEnabled (NWorkspace prev) True)) s1;
               ui = usable_area (output_at s2 i); uj = usable_area (output_at s2 j);
               s3 = workspace_translate E prev (box_x uj - box_x ui) (box_y uj - box_y ui) s2;
               s4 = workspace_translate E index (box_x ui - box_x uj) (box_y ui - box_y uj) s3
           in ipc_broadcast_workspace E j prev s4)
      | None \<Rightarrow> emit (Scene (SetEnabled (NWorkspace prev) False)) s)"

definition show_workspace :: "oid \<Rightarrow> int \<Rightarrow> int \<Rightarrow> kum_server \<Rightarrow> kum_server" where
  "show_workspace i prev index s =
     emit (Scene (SetEnabled (NWorkspace index) True))
       (upd_output i (\<lambda>r. r\<lparr>previous_workspace := prev, active_workspace := index\<rparr>) s)"

definition kum_workspace_switch :: "env \<Rightarrow> oid option \<Rightarrow> int \<Rightarrow> kum_server \<Rightarrow> kum_server option" where
  "kum_workspace_switch E out index s =
     (if index < 0 \<or> KUM_WORKSPACE_COUNT \<le> index then Some s
      else case out of
        None \<Rightarrow> Some s
      | Some i \<Rightarrow>
          if active_ws s i = index then Some s
          else
            let prev = active_ws s i;
                s1 = show_workspace i prev index (swap_or_hide E i prev index s);
                s2 = unfocus_xwayland_on prev (unfocus_toplevel_on prev s1)
            in do { s3 \<leftarrow> focus_first E index s2; Some (ipc_broadcast_workspace E i index s3) })"

definition kum_workspace_toggle_layout :: "env \<Rightarrow> oid option \<Rightarrow> kum_server \<Rightarrow> kum_server option" where
  "kum_workspace_toggle_layout E out s =
     (case out of None \<Rightarrow> Some s
      | Some i \<Rightarrow>
          let w = active_ws s i;
              l = (if layout_of s w = LAYOUT_FLOATING then LAYOUT_TILE else LAYOUT_FLOATING);
              s1 = upd_ws w (\<lambda>r. r\<lparr>ws_layout := l\<rparr>) s
          in if l = LAYOUT_TILE then kum_workspace_arrange E out w s1 else Some s1)"

definition kum_workspace_scratchpad_toggle :: "env \<Rightarrow> kum_server \<Rightarrow> kum_server option" where
  "kum_workspace_scratchpad_toggle E s =
     (case kum_output_focused E s of None \<Rightarrow> Some s
      | Some i \<Rightarrow>
          let cur = active_ws s i; scratch = scratchpad_ws s in
          if scratch < 0 then Some s
          else if cur = scratch then
            (case List.find (\<lambda>k. k \<noteq> scratch) [0..KUM_WORKSPACE_COUNT - 1] of
               None \<Rightarrow> Some s
             | Some k \<Rightarrow> kum_workspace_switch E (Some i) k s)
          else kum_workspace_switch E (Some i) scratch s)"

section \<open>Moving windows\<close>

definition arrange_opt :: "env \<Rightarrow> oid option \<Rightarrow> int \<Rightarrow> kum_server \<Rightarrow> kum_server option" where
  \<comment> \<open>\<open>if (output) kum_workspace_arrange(server, output, w)\<close>\<close>
  "arrange_opt E out w s = (case out of None \<Rightarrow> Some s | Some i \<Rightarrow> kum_workspace_arrange E (Some i) w s)"

text \<open>Relinking: out of the old workspace's list, first in the new one's, and reparented.\<close>

definition relink_toplevel :: "tid \<Rightarrow> int \<Rightarrow> kum_server \<Rightarrow> kum_server" where
  "relink_toplevel t index s =
     upd_tl t (\<lambda>r. r\<lparr>tl_workspace := index\<rparr>)
       (emit (Scene (Reparent (NToplevel t) (NWorkspace index)))
         (upd_ws index (\<lambda>r. r\<lparr>ws_toplevels := wl_insert t (ws_toplevels r)\<rparr>)
           (upd_ws (ws_of s t) (\<lambda>r. r\<lparr>ws_toplevels := wl_remove t (ws_toplevels r)\<rparr>) s)))"

definition settle_moved :: "env \<Rightarrow> tid \<Rightarrow> int \<Rightarrow> kum_server \<Rightarrow> kum_server option" where
  "settle_moved E t index s =
     (case output_for_workspace s index of
        Some d \<Rightarrow> kum_workspace_arrange E (Some d) index s
      | None \<Rightarrow> Some (emit (Scene (SetEnabled (NToplevel t) False)) s))"

definition hand_over_focus :: "env \<Rightarrow> tid \<Rightarrow> int \<Rightarrow> oid option \<Rightarrow> kum_server \<Rightarrow> kum_server option" where
  "hand_over_focus E t old src s =
     (if focused s = Some t then
        let s1 = emit (Seat KeyboardClear) (s\<lparr>focused := None\<rparr>)
        in (if src = None then Some s1 else focus_first E old s1)
      else Some s)"

definition kum_workspace_move_toplevel :: "env \<Rightarrow> tid \<Rightarrow> int \<Rightarrow> kum_server \<Rightarrow> kum_server option" where
  "kum_workspace_move_toplevel E t index s =
     (if index < 0 \<or> KUM_WORKSPACE_COUNT \<le> index then Some s
      else if index = ws_of s t then Some s
      else
        let old = ws_of s t; src = output_for_workspace s old
        in do {
          s5 \<leftarrow> settle_moved E t index (relink_toplevel t index s);
          s6 \<leftarrow> arrange_opt E src old s5;
          hand_over_focus E t old src s6 })"

definition kum_workspace_move_xwayland_surface :: "env \<Rightarrow> xid \<Rightarrow> int \<Rightarrow> kum_server \<Rightarrow> kum_server" where
  "kum_workspace_move_xwayland_surface E x index s =
     (if index < 0 \<or> KUM_WORKSPACE_COUNT \<le> index then s
      else if index = xws_of s x then s
      else
        let s1 = emit (Scene (Reparent (NXwayland x) (NWorkspace index))) s;
            s2 = upd_xs x (\<lambda>r. r\<lparr>xs_workspace := index\<rparr>) s1;
            s3 = (if output_for_workspace s2 index = None
                  then emit (Scene (SetEnabled (NXwayland x) False)) s2 else s2)
        in if focused_xwayland s3 = Some x
           then emit (Seat KeyboardClear) (s3\<lparr>focused_xwayland := None\<rparr>) else s3)"

section \<open>Tiling commands (\<open>tiling.c\<close>)\<close>

text \<open>
  The search for the master sets its loop variable to NULL when a window does not
  qualify, and \<open>wl_list_for_each\<close> then steps from that NULL: unless the first window
  of the list qualifies the search dereferences a null pointer.
\<close>

definition kum_tiling_swap_master :: "env \<Rightarrow> kum_server \<Rightarrow> kum_server option" where
  "kum_tiling_swap_master E s =
     (case focused s of None \<Rightarrow> Some s
      | Some f \<Rightarrow>
          let w = ws_of s f in
          if layout_of s w \<noteq> LAYOUT_TILE then Some s
          else if tl_floating (toplevel_at s f) then Some s
          else case ws_toplevels (workspaces s w) of
                 [] \<Rightarrow> None
               | m # _ \<Rightarrow>
                   if tl_floating (toplevel_at s m) \<or> \<not> tl_mapped E m then None
                   else if m = f then Some s
                   else let s1 = upd_ws w (\<lambda>r. r\<lparr>ws_toplevels := wl_insert_tail f (wl_remove f (ws_toplevels r))\<rparr>) s
                        in arrange_opt E (output_for_workspace s1 w) w s1)"

definition clamp_ratio :: "rat \<Rightarrow> rat" where
  "clamp_ratio r =
     (let r1 = (if r < f32 (1 / 10) then f32 (1 / 10) else r)
      in if f32 (9 / 10) < r1 then f32 (9 / 10) else r1)"

definition kum_tiling_resize :: "env \<Rightarrow> int \<Rightarrow> int \<Rightarrow> kum_server \<Rightarrow> kum_server option" where
  "kum_tiling_resize E dw dh s =
     (case focused s of None \<Rightarrow> Some s
      | Some t \<Rightarrow>
          let w = ws_of s t in
          if layout_of s w = LAYOUT_TILE then
            (let r = f32 (cfg_master_ratio (cfg s) + f32 (f32 (of_int dw) / 2000));
                 s1 = s\<lparr>cfg := (cfg s)\<lparr>cfg_master_ratio := clamp_ratio r\<rparr>\<rparr>
             in arrange_opt E (output_for_workspace s1 w) w s1)
          else
            (let geo = tl_geometry E t;
                 nw = max (box_w geo + dw) KUM_RESIZE_MIN_W;
                 nh = max (box_h geo + dh) KUM_RESIZE_MIN_H
             in Some (emit (Shell (XdgSetSize t nw nh)) s)))"

section \<open>Moving between outputs (\<open>focus.c\<close>)\<close>

definition kum_output_focus_adjacent :: "env \<Rightarrow> int \<Rightarrow> int \<Rightarrow> kum_server \<Rightarrow> kum_server option" where
  "kum_output_focus_adjacent E dx dy s =
     (case kum_output_focused E s of None \<Rightarrow> Some s
      | Some cur \<Rightarrow>
          let cb = layout_box E (trace s) cur;
              half = (\<lambda>n. f64 (of_int n / 2));
              px = f64 (f64 (of_int (box_x cb) + half (box_w cb)) + f64 (of_int dx * f64 (of_int (box_w cb) * (3 / 4))));
              py = f64 (f64 (of_int (box_y cb) + half (box_h cb)) + f64 (of_int dy * f64 (of_int (box_h cb) * (3 / 4))))
          in case output_of_wlr (layout_output_at E (trace s) px py) s of
               None \<Rightarrow> Some s
             | Some target \<Rightarrow>
                 if target = cur then Some s
                 else
                   let tb = layout_box E (trace s) target;
                       s1 = emit (Device (CursorWarp (f64 (of_int (box_x tb) + half (box_w tb)))
                                    (f64 (of_int (box_y tb) + half (box_h tb))))) s
                   in focus_first E (active_ws s1 target) s1)"

section \<open>Frames\<close>

lemma place_step_quiet:
  "kum_border_update E t foc (emits cs s) = Some s1 \<Longrightarrow> list_all plain cs \<Longrightarrow> quiet s1 s' \<Longrightarrow> quiet s s'"
  by (blast intro: quiet_trans quiet_after_emits border_update_quiet)

lemma place_windows_quiet [kum_frame]: "place_windows E ps s = Some s' \<Longrightarrow> quiet s s'"
proof (induction E ps s rule: place_windows.induct)
  case (1 E s)
  then show ?case by simp
next
  case (2 E t b ps s)
  then show ?case by (auto elim!: bind_SomeE intro: place_step_quiet)
qed

lemma place_monocle_quiet [kum_frame]: "place_monocle E area gap ts s = Some s' \<Longrightarrow> quiet s s'"
proof (induction E area gap ts s rule: place_monocle.induct)
  case (1 E area gap s)
  then show ?case by simp
next
  case (2 E area gap t ts s)
  then show ?case by (auto elim!: bind_SomeE intro: place_step_quiet)
qed

lemma monocle_arrange_quiet [kum_frame]: "kum_workspace_monocle_arrange E out w s = Some s' \<Longrightarrow> quiet s s'"
  by (auto simp: kum_workspace_monocle_arrange_def elim!: bind_SomeE dest!: place_monocle_quiet
      intro: quiet_trans split: option.splits)

lemma arrange_quiet [kum_frame]: "kum_workspace_arrange E out w s = Some s' \<Longrightarrow> quiet s s'"
  by (auto simp: kum_workspace_arrange_def Let_def dest: place_windows_quiet monocle_arrange_quiet
      split: option.splits if_splits)

lemma arrange_opt_quiet [kum_frame]: "arrange_opt E out w s = Some s' \<Longrightarrow> quiet s s'"
  by (auto simp: arrange_opt_def dest: arrange_quiet split: option.splits)

lemma translate_node_quiet: "quiet s (translate_node E dx dy n s)"
  by (simp add: translate_node_def split: prod.split)

lemma translate_quiet [kum_frame]: "quiet s (workspace_translate E w dx dy s)"
proof -
  have "quiet t (fold (translate_node E dx dy) ns t)" for ns t
    by (induction ns arbitrary: t) (auto intro: quiet_trans translate_node_quiet)
  then show ?thesis by (simp add: workspace_translate_def del: fold_append)
qed

lemmas workspace_quiet = arrange_quiet arrange_opt_quiet translate_quiet monocle_arrange_quiet

lemma find_mapped_mem:
  "windows_ok s \<Longrightarrow> List.find P (ws_toplevels (workspaces s w)) = Some t \<Longrightarrow> t \<in> set (toplevels s) \<and> ws_of s t = w \<and> P t"
  using find_Some_iff_mem [of P "ws_toplevels (workspaces s w)" t] by (auto simp: windows_ok_def)

lemma first_mapped_xs_mem:
  "first_mapped_xs E s w xs = Some (Some x) \<Longrightarrow> x \<in> set xs \<and> xws_of s x = w \<and> xw_mapped E x \<and> xw_surface E x \<noteq> None"
  by (induction xs) (auto split: if_splits option.splits)

lemma focus_first_effect:
  assumes "focus_first E w s = Some s'" and "windows_ok s"
  shows "refocus s s' \<and> (s' = s \<or> (\<exists>t. focused s' = Some t \<and> focused_xwayland s' = None \<and> t \<in> set (toplevels s) \<and> ws_of s t = w)
     \<or> (\<exists>x. focused s' = None \<and> focused_xwayland s' = Some x \<and> x \<in> set (xwayland_surfaces s) \<and> xws_of s x = w))"
proof (cases "List.find (tl_mapped E) (ws_toplevels (workspaces s w))")
  case (Some t)
  then have "kum_focus_toplevel E t (tl_surface E t) s = Some s'" using assms(1) by (simp add: focus_first_def)
  moreover have "t \<in> set (toplevels s) \<and> ws_of s t = w" using find_mapped_mem [OF assms(2) Some] by blast
  ultimately show ?thesis
    using focus_toplevel_effect [of E t "tl_surface E t" s s'] by (auto split: if_splits)
next
  case None
  then consider "s' = s" | x where "first_mapped_xs E s w (xwayland_surfaces s) = Some (Some x)"
      "kum_focus_xwayland_surface E x s = Some s'"
    using assms(1) by (auto simp: focus_first_def elim!: bind_SomeE split: option.splits)
  then show ?thesis
  proof cases
    case 1
    then show ?thesis by simp
  next
    case (2 x)
    then show ?thesis using focus_xwayland_effect [OF 2(2)] first_mapped_xs_mem [OF 2(1)] by (auto split: if_splits)
  qed
qed

lemma focus_first_ok [kum_inv]:
  assumes "focus_first E w s = Some s'" and "server_ok s"
  shows "server_ok s'"
proof (rule refocus_server_ok)
  have "windows_ok s" using assms(2) by (simp add: server_ok_def)
  note e = focus_first_effect [OF assms(1) this]
  show r: "refocus s s'" using e by blast
  show "focus_ok s'" using e refocus_sets [OF r] assms(2) by (auto simp: focus_ok_def server_ok_def)
qed (rule assms)

section \<open>What is on screen\<close>

text \<open>The last word on whether a workspace's scene tree is shown.\<close>

fun ws_enabled :: "int \<Rightarrow> trace \<Rightarrow> bool" where
  "ws_enabled w [] = False"
| "ws_enabled w (Scene (SetEnabled n b) # cs) = (if n = NWorkspace w then b else ws_enabled w cs)"
| "ws_enabled w (c # cs) = ws_enabled w cs"

definition visible_ok :: "kum_server \<Rightarrow> bool" where
  "visible_ok s \<longleftrightarrow> (\<forall>w. ws_ok w \<longrightarrow> ws_enabled w (trace s) = (\<exists>i \<in> set (outputs s). active_ws s i = w))"

definition shown_ok :: "kum_server \<Rightarrow> bool" where
  "shown_ok s \<longleftrightarrow> server_ok s \<and> visible_ok s"

lemma ws_enabled_plain: "ws_plain c \<Longrightarrow> ws_enabled w (c # cs) = ws_enabled w cs"
  by (cases "(w, c # cs)" rule: ws_enabled.cases) auto

lemma ws_enabled_plains: "list_all ws_plain cs \<Longrightarrow> ws_enabled w (cs @ ds) = ws_enabled w ds"
  by (induction cs) (auto simp: ws_enabled_plain)

lemma ws_enabled_says: "says_plain s t \<Longrightarrow> ws_enabled w (trace t) = ws_enabled w (trace s)"
  by (auto simp: says_plain_def ws_enabled_plains)

lemma ws_enabled_toggle [simp]:
  "ws_enabled w (trace (emit (Scene (SetEnabled (NWorkspace v) b)) s)) = (if v = w then b else ws_enabled w (trace s))"
  by simp

lemma ws_enabled_emit: "ws_plain c \<Longrightarrow> ws_enabled w (trace (emit c s)) = ws_enabled w (trace s)"
  using ws_enabled_plain by simp

text \<open>The last word on any other node, which is shown when it is created.\<close>

fun node_enabled :: "node \<Rightarrow> trace \<Rightarrow> bool" where
  "node_enabled n [] = True"
| "node_enabled n (Scene (SetEnabled m b) # cs) = (if m = n then b else node_enabled n cs)"
| "node_enabled n (c # cs) = node_enabled n cs"

lemma node_enabled_plain: "ws_plain c \<Longrightarrow> node_enabled n (c # cs) = node_enabled n cs"
  by (cases "(n, c # cs)" rule: node_enabled.cases) auto

lemma node_enabled_plains: "list_all ws_plain cs \<Longrightarrow> node_enabled n (cs @ ds) = node_enabled n ds"
  by (induction cs) (auto simp: node_enabled_plain)

lemma node_enabled_says: "says_plain s t \<Longrightarrow> node_enabled n (trace t) = node_enabled n (trace s)"
  by (auto simp: says_plain_def node_enabled_plains)

lemma refocus_visible:
  assumes "refocus s t" and "visible_ok s"
  shows "visible_ok t"
proof -
  have "says_plain s t" "outputs t = outputs s" "output_at t = output_at s" using assms(1) by (simp_all add: refocus_def)
  with assms(2) show ?thesis by (simp add: visible_ok_def active_ws_def ws_enabled_says)
qed

lemma quiet_visible: "quiet s t \<Longrightarrow> visible_ok s \<Longrightarrow> visible_ok t"
  by (blast intro: refocus_visible quiet_refocus)

lemma quiet_shown: "quiet s t \<Longrightarrow> shown_ok s \<Longrightarrow> shown_ok t"
  by (simp add: shown_ok_def quiet_server_ok quiet_visible)

lemma shown_parts: "shown_ok s \<Longrightarrow> server_ok s" "shown_ok s \<Longrightarrow> windows_ok s" "shown_ok s \<Longrightarrow> focus_ok s" "shown_ok s \<Longrightarrow> outputs_ok s"
  by (simp_all add: shown_ok_def server_ok_def)

section \<open>Switching keeps the screens apart\<close>

lemma swap_or_hide_quiet:
  "quiet (case List.find (\<lambda>j. j \<noteq> i \<and> active_ws s j = index) (outputs s) of
            Some j \<Rightarrow> emit (Scene (SetEnabled (NWorkspace prev) True))
                        (upd_output j (\<lambda>r. r\<lparr>previous_workspace := index, active_workspace := prev\<rparr>) s)
          | None \<Rightarrow> emit (Scene (SetEnabled (NWorkspace prev) False)) s)
     (swap_or_hide E i prev index s)"
proof -
  have "quiet t (ipc_broadcast_workspace E j prev (workspace_translate E index a b (workspace_translate E prev c d t)))" for t j a b c d
    by (rule quiet_trans [OF quiet_trans [OF translate_quiet translate_quiet] broadcast_workspace_quiet])
  then show ?thesis by (simp add: swap_or_hide_def Let_def split: option.split)
qed

lemma upd_output_fields [simp]:
  "toplevels (upd_output i f s) = toplevels s" "xwayland_surfaces (upd_output i f s) = xwayland_surfaces s"
  "workspaces (upd_output i f s) = workspaces s" "outputs (upd_output i f s) = outputs s"
  "toplevel_at (upd_output i f s) = toplevel_at s" "xsurface_at (upd_output i f s) = xsurface_at s"
  "focused (upd_output i f s) = focused s" "focused_xwayland (upd_output i f s) = focused_xwayland s"
  "cfg (upd_output i f s) = cfg s" "rules (upd_output i f s) = rules s" "trace (upd_output i f s) = trace s"
  "locked (upd_output i f s) = locked s" "active_lock (upd_output i f s) = active_lock s"
  "scratchpad_ws (upd_output i f s) = scratchpad_ws s" "ipc_clients (upd_output i f s) = ipc_clients s"
  "lock_children (upd_output i f s) = lock_children s" "layer_surfaces (upd_output i f s) = layer_surfaces s"
  "next_focus_serial (upd_output i f s) = next_focus_serial s"
  "output_at (upd_output i f s) k = (if k = i then f (output_at s i) else output_at s k)"
  by (simp_all add: upd_output_def)

lemma upd_ws_fields [simp]:
  "toplevels (upd_ws i f s) = toplevels s" "xwayland_surfaces (upd_ws i f s) = xwayland_surfaces s"
  "outputs (upd_ws i f s) = outputs s" "output_at (upd_ws i f s) = output_at s"
  "toplevel_at (upd_ws i f s) = toplevel_at s" "xsurface_at (upd_ws i f s) = xsurface_at s"
  "focused (upd_ws i f s) = focused s" "focused_xwayland (upd_ws i f s) = focused_xwayland s"
  "cfg (upd_ws i f s) = cfg s" "rules (upd_ws i f s) = rules s" "trace (upd_ws i f s) = trace s"
  "locked (upd_ws i f s) = locked s" "active_lock (upd_ws i f s) = active_lock s"
  "scratchpad_ws (upd_ws i f s) = scratchpad_ws s" "ipc_clients (upd_ws i f s) = ipc_clients s"
  "lock_children (upd_ws i f s) = lock_children s" "layer_surfaces (upd_ws i f s) = layer_surfaces s"
  "next_focus_serial (upd_ws i f s) = next_focus_serial s"
  "workspaces (upd_ws i f s) k = (if k = i then f (workspaces s i) else workspaces s k)"
  by (simp_all add: upd_ws_def)

lemma upd_view [simp]:
  "ws_of (upd_output i f s) = ws_of s" "xws_of (upd_output i f s) = xws_of s"
  "ws_of (upd_ws w g s) = ws_of s" "xws_of (upd_ws w g s) = xws_of s"
  "ws_of (emit c s) = ws_of s" "xws_of (emit c s) = xws_of s"
  "ws_of (emits cs s) = ws_of s" "xws_of (emits cs s) = xws_of s"
  "active_ws (emit c s) = active_ws s" "active_ws (emits cs s) = active_ws s" "active_ws (upd_ws w g s) = active_ws s"
  by (simp_all add: ws_of_def xws_of_def active_ws_def fun_eq_iff)

text \<open>The new assignment of workspaces to outputs.\<close>

definition switched :: "kum_server \<Rightarrow> oid \<Rightarrow> int \<Rightarrow> oid \<Rightarrow> int" where
  "switched s i index k =
     (if k = i then index else if active_ws s k = index then active_ws s i else active_ws s k)"

lemma inj_on_switched:
  assumes "inj_on (active_ws s) A" and "i \<in> A"
  shows "inj_on (switched s i index) A"
  using assms unfolding inj_on_def switched_def by (auto split: if_splits)

lemma switched_range:
  assumes "inj_on (active_ws s) A" and "i \<in> A" and "active_ws s i \<noteq> index"
  shows "(\<exists>k \<in> A. switched s i index k = w) =
     (w = index \<or> (if w = active_ws s i then \<exists>k \<in> A. active_ws s k = index else \<exists>k \<in> A. active_ws s k = w))"
proof -
  have other: "k = i" if "k \<in> A" "active_ws s k = active_ws s i" for k
    using assms(1,2) that by (auto simp: inj_on_def)
  consider "w = index" | "w \<noteq> index" "w = active_ws s i" | "w \<noteq> index" "w \<noteq> active_ws s i" by blast
  then show ?thesis
  proof cases
    case 1
    then show ?thesis using assms(2) by (auto simp: switched_def)
  next
    case 2
    then have "switched s i index k = w \<longleftrightarrow> active_ws s k = index" if "k \<in> A" for k
      using other [OF that] assms(3) by (auto simp: switched_def)
    then show ?thesis using 2 by auto
  next
    case 3
    then show ?thesis by (auto simp: switched_def)
  qed
qed

lemma swap_show_effect:
  assumes "outputs_ok s" and "i \<in> set (outputs s)" and "active_ws s i \<noteq> index"
    and "s1 = show_workspace i (active_ws s i) index (swap_or_hide E i (active_ws s i) index s)"
  shows "toplevels s1 = toplevels s \<and> xwayland_surfaces s1 = xwayland_surfaces s \<and> workspaces s1 = workspaces s \<and>
     ws_of s1 = ws_of s \<and> xws_of s1 = xws_of s \<and> outputs s1 = outputs s \<and> focused s1 = focused s \<and>
     focused_xwayland s1 = focused_xwayland s \<and> scratchpad_ws s1 = scratchpad_ws s \<and> locked s1 = locked s \<and>
     (\<forall>k \<in> set (outputs s). active_ws s1 k = switched s i index k) \<and>
     (\<forall>k \<in> set (outputs s). previous_workspace (output_at s1 k) =
        (if k = i \<or> active_ws s k = index then active_ws s k else previous_workspace (output_at s k))) \<and>
     (\<forall>w. ws_enabled w (trace s1) =
        (w = index \<or> (if w = active_ws s i then \<exists>k \<in> set (outputs s). active_ws s k = index else ws_enabled w (trace s))))"
proof -
  let ?prev = "active_ws s i" and ?P = "\<lambda>j. j \<noteq> i \<and> active_ws s j = index"
  define u where "u = swap_or_hide E i ?prev index s"
  note q = swap_or_hide_quiet [where i = i and s = s and index = index and prev = ?prev and E = E, folded u_def]
  have s1: "s1 = show_workspace i ?prev index u" using assms(4) by (simp add: u_def)
  have inj: "inj_on (active_ws s) (set (outputs s))" using assms(1) by (simp add: outputs_ok_def)
  show ?thesis
  proof (cases "List.find ?P (outputs s)")
    case None
    then have no: "\<forall>k \<in> set (outputs s). k \<noteq> i \<longrightarrow> active_ws s k \<noteq> index" by (auto simp: find_None_iff)
    have q': "quiet (emit (Scene (SetEnabled (NWorkspace ?prev) False)) s) u"
      using q None by simp
    note f = quiet_fields [OF q'] and w = ws_enabled_says [OF quiet_says [OF q']]
    from no assms(3) show ?thesis
      by (auto simp: s1 show_workspace_def f w active_ws_def ws_of_def xws_of_def fun_eq_iff switched_def)
  next
    case (Some j)
    then have j: "j \<in> set (outputs s)" "j \<noteq> i" "active_ws s j = index" using find_Some_iff_mem by fastforce+
    then have only: "\<forall>k \<in> set (outputs s). active_ws s k = index \<longleftrightarrow> k = j" using inj by (auto simp: inj_on_def)
    have q': "quiet (emit (Scene (SetEnabled (NWorkspace ?prev) True))
                (upd_output j (\<lambda>r. r\<lparr>previous_workspace := index, active_workspace := ?prev\<rparr>) s))
        u" using q Some by simp
    note f = quiet_fields [OF q'] and w = ws_enabled_says [OF quiet_says [OF q']]
    from only j assms(3) show ?thesis
      by (auto simp: s1 show_workspace_def f w active_ws_def ws_of_def xws_of_def fun_eq_iff switched_def)
  qed
qed

lemma unfocus_fields [simp]:
  "toplevels (unfocus_toplevel_on w s) = toplevels s" "xwayland_surfaces (unfocus_toplevel_on w s) = xwayland_surfaces s"
  "workspaces (unfocus_toplevel_on w s) = workspaces s" "outputs (unfocus_toplevel_on w s) = outputs s"
  "output_at (unfocus_toplevel_on w s) = output_at s" "toplevel_at (unfocus_toplevel_on w s) = toplevel_at s"
  "xsurface_at (unfocus_toplevel_on w s) = xsurface_at s" "focused_xwayland (unfocus_toplevel_on w s) = focused_xwayland s"
  "scratchpad_ws (unfocus_toplevel_on w s) = scratchpad_ws s" "locked (unfocus_toplevel_on w s) = locked s"
  "toplevels (unfocus_xwayland_on w s) = toplevels s" "xwayland_surfaces (unfocus_xwayland_on w s) = xwayland_surfaces s"
  "workspaces (unfocus_xwayland_on w s) = workspaces s" "outputs (unfocus_xwayland_on w s) = outputs s"
  "output_at (unfocus_xwayland_on w s) = output_at s" "toplevel_at (unfocus_xwayland_on w s) = toplevel_at s"
  "xsurface_at (unfocus_xwayland_on w s) = xsurface_at s" "focused (unfocus_xwayland_on w s) = focused s"
  "scratchpad_ws (unfocus_xwayland_on w s) = scratchpad_ws s" "locked (unfocus_xwayland_on w s) = locked s"
  by (simp_all add: unfocus_toplevel_on_def unfocus_xwayland_on_def split: option.split)

lemma unfocus_enabled [simp]:
  "ws_enabled v (trace (unfocus_toplevel_on w s)) = ws_enabled v (trace s)"
  "ws_enabled v (trace (unfocus_xwayland_on w s)) = ws_enabled v (trace s)"
  by (simp_all add: unfocus_toplevel_on_def unfocus_xwayland_on_def split: option.split)

lemma unfocus_focused:
  "focused (unfocus_toplevel_on w s) =
     (case focused s of None \<Rightarrow> None | Some t \<Rightarrow> if ws_of s t = w then None else Some t)"
  "focused_xwayland (unfocus_xwayland_on w s) =
     (case focused_xwayland s of None \<Rightarrow> None | Some x \<Rightarrow> if xws_of s x = w then None else Some x)"
  by (auto simp: unfocus_toplevel_on_def unfocus_xwayland_on_def split: option.split)

definition before_focus :: "env \<Rightarrow> oid \<Rightarrow> int \<Rightarrow> kum_server \<Rightarrow> kum_server" where
  "before_focus E i index s =
     (let prev = active_ws s i
      in unfocus_xwayland_on prev (unfocus_toplevel_on prev
           (show_workspace i prev index (swap_or_hide E i prev index s))))"

lemma before_focus_effect:
  assumes "shown_ok s" and "i \<in> set (outputs s)" and "ws_ok index" and "active_ws s i \<noteq> index"
    and u: "u = before_focus E i index s"
  shows "shown_ok u \<and> outputs u = outputs s \<and> toplevels u = toplevels s \<and> xwayland_surfaces u = xwayland_surfaces s \<and>
     workspaces u = workspaces s \<and> ws_of u = ws_of s \<and> xws_of u = xws_of s \<and> locked u = locked s \<and>
     (\<forall>k \<in> set (outputs s). active_ws u k = switched s i index k) \<and>
     previous_workspace (output_at u i) = active_ws s i \<and>
     (\<forall>t. focused u = Some t \<longrightarrow> focused s = Some t \<and> ws_of s t \<noteq> active_ws s i) \<and>
     (\<forall>x. focused_xwayland u = Some x \<longrightarrow> focused_xwayland s = Some x \<and> xws_of s x \<noteq> active_ws s i)"
proof -
  let ?prev = "active_ws s i"
  define s1 where "s1 = show_workspace i ?prev index (swap_or_hide E i ?prev index s)"
  note e = swap_show_effect [OF shown_parts(4) [OF assms(1)] assms(2,4) s1_def]
  have u: "u = unfocus_xwayland_on ?prev (unfocus_toplevel_on ?prev s1)"
    by (simp add: u before_focus_def Let_def s1_def)
  have v: "ws_of u = ws_of s" "xws_of u = xws_of s"
    using e by (simp_all add: u ws_of_def xws_of_def fun_eq_iff)
  have act: "\<forall>k \<in> set (outputs s). active_ws u k = switched s i index k"
    using e by (simp add: u active_ws_def)
  have o: "outputs_ok s" and w: "windows_ok s" and f: "focus_ok s" using assms(1) by (auto dest: shown_parts)
  have "inj_on (active_ws u) (set (outputs s))"
    using act inj_on_switched [OF _ assms(2), of s index] o inj_on_cong [of "set (outputs s)" "active_ws u"]
    by (simp add: outputs_ok_def)
  moreover have "\<forall>k \<in> set (outputs s). ws_ok (switched s i index k)"
    using o assms(2,3) by (simp add: outputs_ok_def switched_def)
  moreover have "\<forall>k \<in> set (outputs s). ws_ok (previous_workspace (output_at u k))"
    using e o assms(2) by (simp add: u outputs_ok_def)
  ultimately have ou: "outputs_ok u"
    using o e act by (simp add: outputs_ok_def u)
  have wu: "windows_ok u" using w e v by (simp add: windows_ok_def u)
  have foc: "focused u = (case focused s of None \<Rightarrow> None | Some t \<Rightarrow> if ws_of s t = ?prev then None else Some t)"
    "focused_xwayland u = (case focused_xwayland s of None \<Rightarrow> None | Some x \<Rightarrow> if xws_of s x = ?prev then None else Some x)"
    using e by (auto simp: u unfocus_focused xws_of_def fun_eq_iff split: option.split)
  have fu: "focus_ok u" using f foc e by (auto simp: focus_ok_def u split: option.splits if_splits)
  have vis: "visible_ok u"
  proof -
    have "ws_enabled w (trace u) = (\<exists>k \<in> set (outputs s). switched s i index k = w)" if "ws_ok w" for w
    proof -
      have "ws_enabled w (trace s) = (\<exists>k \<in> set (outputs s). active_ws s k = w)"
        using assms(1) that by (simp add: shown_ok_def visible_ok_def)
      moreover have "inj_on (active_ws s) (set (outputs s))" using o by (simp add: outputs_ok_def)
      moreover have "ws_enabled w (trace u) = ws_enabled w (trace s1)" by (simp add: u)
      ultimately show ?thesis using e switched_range [OF _ assms(2,4), of w] by simp
    qed
    then show ?thesis using act e by (simp add: visible_ok_def u)
  qed
  have "shown_ok u" using ou wu fu vis assms(1) e by (simp add: shown_ok_def server_ok_def u)
  then show ?thesis using e act v assms(2) foc by (auto simp: u split: option.splits if_splits)
qed

lemma switch_unfold:
  assumes "ws_ok index" and "active_ws s i \<noteq> index"
  shows "kum_workspace_switch E (Some i) index s =
    do { s3 \<leftarrow> focus_first E index (before_focus E i index s); Some (ipc_broadcast_workspace E i index s3) }"
  using assms by (simp add: kum_workspace_switch_def before_focus_def ws_ok_def Let_def)

lemma switch_noop:
  "\<not> ws_ok index \<or> out = None \<or> (\<exists>i. out = Some i \<and> active_ws s i = index) \<Longrightarrow> kum_workspace_switch E out index s = Some s"
  by (auto simp: kum_workspace_switch_def ws_ok_def)

lemma focus_first_shown:
  assumes "focus_first E w s = Some s'" and "shown_ok s"
  shows "shown_ok s'"
  using assms focus_first_effect [OF assms(1)] focus_first_ok [OF assms(1)] refocus_visible [of s s']
  by (auto simp: shown_ok_def server_ok_def)

lemma switch_effect:
  assumes "shown_ok s" and "i \<in> set (outputs s)" and "ws_ok index" and "active_ws s i \<noteq> index"
    and "kum_workspace_switch E (Some i) index s = Some s'"
  shows "shown_ok s' \<and> outputs s' = outputs s \<and>
     (\<forall>k \<in> set (outputs s). active_ws s' k = switched s i index k) \<and>
     previous_workspace (output_at s' i) = active_ws s i \<and> ws_of s' = ws_of s \<and> xws_of s' = xws_of s \<and>
     (\<forall>t. focused s' = Some t \<longrightarrow> ws_of s t \<noteq> active_ws s i) \<and>
     (\<forall>x. focused_xwayland s' = Some x \<longrightarrow> xws_of s x \<noteq> active_ws s i)"
proof -
  define u where "u = before_focus E i index s"
  note b = before_focus_effect [OF assms(1-4) u_def]
  obtain s3 where 3: "focus_first E index u = Some s3" and s': "s' = ipc_broadcast_workspace E i index s3"
    using assms(5) switch_unfold [OF assms(3,4)] by (auto simp: u_def elim!: bind_SomeE)
  have q: "quiet s3 s'" unfolding s' by simp
  note f = quiet_fields [OF q]
  have "windows_ok u" using b by (auto dest: shown_parts)
  note e = focus_first_effect [OF 3 this]
  have r: "outputs s3 = outputs u" "output_at s3 = output_at u" "ws_of s3 = ws_of u" "xws_of s3 = xws_of u"
    using e by (auto simp: refocus_def)
  have "shown_ok s'" using quiet_shown [OF q] focus_first_shown [OF 3] b by blast
  moreover have "\<forall>t. focused s3 = Some t \<longrightarrow> ws_of s t \<noteq> active_ws s i"
    using e b assms(4) by auto
  moreover have "\<forall>x. focused_xwayland s3 = Some x \<longrightarrow> xws_of s x \<noteq> active_ws s i"
    using e b assms(4) by auto
  ultimately show ?thesis using b r by (simp add: f active_ws_def ws_of_def xws_of_def fun_eq_iff)
qed

lemma switch_shown [kum_inv]:
  assumes "kum_workspace_switch E out index s = Some s'" and "shown_ok s" and "\<forall>i. out = Some i \<longrightarrow> i \<in> set (outputs s)"
  shows "shown_ok s'"
proof (cases "\<not> ws_ok index \<or> out = None \<or> (\<exists>i. out = Some i \<and> active_ws s i = index)")
  case True
  then show ?thesis using assms switch_noop [OF True, of E] by simp
next
  case False
  then obtain i where i: "out = Some i" "ws_ok index" "active_ws s i \<noteq> index" by auto
  then show ?thesis using switch_effect [of s i index E s'] assms by simp
qed

end
