(* ===== verification/Workspace_Laws.thy ===== *)
theory Workspace_Laws
  imports Workspace
begin

text \<open>
  What the operations of \<open>Workspace\<close> keep and achieve: the window lists stay consistent
  under every command, the layouts place windows inside the usable area, and no
  command runs into a null pointer while the decorations are in step with what is
  mapped.
\<close>

section \<open>Moving a window\<close>

lemma relink_fields [simp]:
  "toplevels (relink_toplevel t w s) = toplevels s" "xwayland_surfaces (relink_toplevel t w s) = xwayland_surfaces s"
  "outputs (relink_toplevel t w s) = outputs s" "output_at (relink_toplevel t w s) = output_at s" "focused (relink_toplevel t w s) = focused s"
  "focused_xwayland (relink_toplevel t w s) = focused_xwayland s" "scratchpad_ws (relink_toplevel t w s) = scratchpad_ws s"
  "locked (relink_toplevel t w s) = locked s" "xws_of (relink_toplevel t w s) = xws_of s" "active_ws (relink_toplevel t w s) = active_ws s"
  "xsurface_at (relink_toplevel t w s) = xsurface_at s" "cfg (relink_toplevel t w s) = cfg s"
  "ws_of (relink_toplevel t w s) k = (if k = t then w else ws_of s k)"
  "trace (relink_toplevel t w s) = Scene (Reparent (NToplevel t) (NWorkspace w)) # trace s"
  "layout_of (relink_toplevel t w s) v = layout_of s v"
  by (simp_all add: relink_toplevel_def ws_of_def xws_of_def active_ws_def layout_of_def fun_eq_iff)

lemma relink_windows:
  assumes "windows_ok s" and "t \<in> set (toplevels s)" and "ws_ok w" and "w \<noteq> ws_of s t"
  shows "windows_ok (relink_toplevel t w s)"
proof -
  have "t \<notin> set (ws_toplevels (workspaces s w))" using assms(1,4) by (auto simp: windows_ok_def)
  then have "workspaces (relink_toplevel t w s) v =
      (if v = w then (workspaces s w)\<lparr>ws_toplevels := t # ws_toplevels (workspaces s w)\<rparr>
       else if v = ws_of s t then (workspaces s v)\<lparr>ws_toplevels := wl_remove t (ws_toplevels (workspaces s v))\<rparr>
       else workspaces s v)" for v
    using assms(4) by (simp add: relink_toplevel_def wl_insert_def)
  then show ?thesis using assms by (auto simp: windows_ok_def)
qed

lemma relink_shown:
  assumes "shown_ok s" and "t \<in> set (toplevels s)" and "ws_ok w" and "w \<noteq> ws_of s t"
  shows "shown_ok (relink_toplevel t w s)"
  using assms relink_windows [OF shown_parts(2) [OF assms(1)] assms(2-4)]
  by (simp add: shown_ok_def server_ok_def focus_ok_def outputs_ok_def visible_ok_def)

text \<open>Clearing the focus keeps everything.\<close>

lemma clear_focus_shown:
  "shown_ok s \<Longrightarrow> shown_ok (emit (Seat KeyboardClear) (s\<lparr>focused := None\<rparr>))"
  "shown_ok s \<Longrightarrow> shown_ok (emit (Seat KeyboardClear) (s\<lparr>focused_xwayland := None\<rparr>))"
  by (auto simp: shown_ok_def server_ok_def windows_ok_def focus_ok_def outputs_ok_def visible_ok_def
      ws_of_def xws_of_def active_ws_def inj_on_def)

text \<open>Showing or hiding a window's own node.\<close>

lemma toggle_window_shown:
  "shown_ok s \<Longrightarrow> n = NToplevel t \<or> n = NXwayland x \<Longrightarrow> shown_ok (emit (Scene (SetEnabled n b)) s)"
  by (auto simp: shown_ok_def server_ok_def windows_ok_def focus_ok_def outputs_ok_def visible_ok_def)

lemma settle_moved_quiet:
  "settle_moved E t index s = Some s' \<Longrightarrow>
    quiet (if output_for_workspace s index = None then emit (Scene (SetEnabled (NToplevel t) False)) s else s) s'"
  by (auto simp: settle_moved_def dest: arrange_quiet split: option.splits)

lemma move_toplevel_noop: "\<not> ws_ok index \<or> index = ws_of s t \<Longrightarrow> kum_workspace_move_toplevel E t index s = Some s"
  by (auto simp: kum_workspace_move_toplevel_def ws_ok_def)

lemma move_toplevel_effect:
  assumes "kum_workspace_move_toplevel E t index s = Some s'" and "shown_ok s" and "t \<in> set (toplevels s)"
    and "ws_ok index"
  shows "shown_ok s' \<and> ws_of s' t = index \<and> t \<in> set (ws_toplevels (workspaces s' index)) \<and>
     (\<forall>k. k \<noteq> t \<longrightarrow> ws_of s' k = ws_of s k) \<and> outputs s' = outputs s \<and> output_at s' = output_at s \<and>
     (index \<noteq> ws_of s t \<longrightarrow> focused s' \<noteq> Some t) \<and> set (toplevels s') = set (toplevels s) \<and>
     xwayland_surfaces s' = xwayland_surfaces s \<and> (\<forall>v. layout_of s' v = layout_of s v) \<and> cfg s' = cfg s"
proof (cases "index = ws_of s t")
  case True
  then have "s' = s" using assms(1) by (simp add: move_toplevel_noop)
  then show ?thesis using True assms by (auto simp: shown_ok_def server_ok_def windows_ok_def)
next
  case False
  let ?m = "relink_toplevel t index s" and ?src = "output_for_workspace s (ws_of s t)"
  have m: "shown_ok ?m" by (rule relink_shown [OF assms(2-4) False])
  obtain s5 s6 where 5: "settle_moved E t index ?m = Some s5"
    and 6: "arrange_opt E ?src (ws_of s t) s5 = Some s6"
    and 7: "hand_over_focus E t (ws_of s t) ?src s6 = Some s'"
    using assms(1,4) False by (auto simp: kum_workspace_move_toplevel_def Let_def ws_ok_def elim!: bind_SomeE)
  define u where "u = (if output_for_workspace ?m index = None then emit (Scene (SetEnabled (NToplevel t) False)) ?m else ?m)"
  have u: "shown_ok u" using m toggle_window_shown [of ?m] by (simp add: u_def)
  have q: "quiet u s6" using settle_moved_quiet [OF 5, folded u_def] arrange_opt_quiet [OF 6] by (rule quiet_trans)
  have uf: "toplevels u = toplevels ?m" "xwayland_surfaces u = xwayland_surfaces ?m" "outputs u = outputs ?m"
    "output_at u = output_at ?m" "cfg u = cfg ?m" "ws_of u = ws_of ?m" "workspaces u = workspaces ?m"
    by (simp_all add: u_def)
  have w: "ws_of s6 k = (if k = t then index else ws_of s k)" for k
    using quiet_ws [OF q] by (simp only: relink_fields uf)
  have f: "toplevels s6 = toplevels s" "xwayland_surfaces s6 = xwayland_surfaces s" "outputs s6 = outputs s"
    "output_at s6 = output_at s" "cfg s6 = cfg s"
    using quiet_fields [OF q] by (simp_all only: relink_fields uf)
  have s6: "shown_ok s6" using quiet_shown [OF q] u by blast
  have in_ws: "t \<in> set (ws_toplevels (workspaces s6 index))"
  proof -
    have "set (ws_toplevels (workspaces s6 index)) = {k \<in> set (toplevels s6). ws_of s6 k = index}"
      using shown_parts(2) [OF s6] by (simp add: windows_ok_def)
    then show ?thesis using assms(3) by (simp add: f w)
  qed
  have lay: "layout_of s6 v = layout_of s v" for v
    using relink_fields(15) [of t index s v] quiet_fields(7) [OF q] by (simp only: layout_of_def uf)
  let ?s7 = "emit (Seat KeyboardClear) (s6\<lparr>focused := None\<rparr>)"
  have s7: "shown_ok ?s7" using clear_focus_shown(1) [OF s6] .
  consider "focused s6 \<noteq> Some t" "s' = s6" | "focused s6 = Some t" "s' = ?s7"
    | "focused s6 = Some t" "focus_first E (ws_of s t) ?s7 = Some s'"
    using 7 unfolding hand_over_focus_def Let_def by (metis (full_types) option.inject)
  then show ?thesis
  proof cases
    case 1
    then show ?thesis using s6 in_ws lay by (simp add: f w)
  next
    case 2
    have "ws_of s' k = ws_of s6 k" for k using 2 by (simp add: ws_of_def)
    then show ?thesis using 2 s7 in_ws lay by (simp add: f w layout_of_def)
  next
    case 3
    note e = focus_first_effect [OF 3(2) shown_parts(2) [OF s7]]
    have "shown_ok s'" using focus_first_shown [OF 3(2) s7] .
    moreover have w7: "ws_of ?s7 k = ws_of s6 k" for k by (simp add: ws_of_def)
    moreover have "focused s' \<noteq> Some t" using e False w7 w by auto
    moreover have "ws_of s' k = ws_of s6 k" for k using e w7 by (simp add: refocus_def)
    ultimately show ?thesis using e in_ws lay w by (simp add: refocus_def f layout_of_def)
  qed
qed

end
