(* ===== verification/Workspace_Cmds.thy ===== *)
theory Workspace_Cmds
  imports Workspace_Laws
begin

text \<open>The remaining workspace commands keep the invariant too, and what the layouts compute.\<close>

section \<open>Commands\<close>

lemma move_xwayland_shown [kum_inv]:
  assumes "shown_ok s" and "x \<in> set (xwayland_surfaces s)"
  shows "shown_ok (kum_workspace_move_xwayland_surface E x index s)"
proof -
  define s2 where "s2 = upd_xs x (\<lambda>r. r\<lparr>xs_workspace := index\<rparr>) (emit (Scene (Reparent (NXwayland x) (NWorkspace index))) s)"
  define s3 where "s3 = (if output_for_workspace s2 index = None then emit (Scene (SetEnabled (NXwayland x) False)) s2 else s2)"
  have op: "kum_workspace_move_xwayland_surface E x index s =
      (if \<not> ws_ok index \<or> index = xws_of s x then s
       else if focused_xwayland s3 = Some x then emit (Seat KeyboardClear) (s3\<lparr>focused_xwayland := None\<rparr>) else s3)"
    by (auto simp: kum_workspace_move_xwayland_surface_def ws_ok_def s2_def s3_def Let_def)
  have "shown_ok s2" if "ws_ok index"
    using assms that
    by (auto simp: s2_def shown_ok_def server_ok_def windows_ok_def focus_ok_def outputs_ok_def visible_ok_def
        ws_of_def xws_of_def active_ws_def inj_on_def)
  then have "shown_ok s3" if "ws_ok index"
    using that toggle_window_shown [of s2] by (simp add: s3_def)
  then show ?thesis using assms(1) clear_focus_shown(2) [of s3] by (simp add: op)
qed

lemma set_layout_shown: "shown_ok s \<Longrightarrow> shown_ok (upd_ws w (\<lambda>r. r\<lparr>ws_layout := l\<rparr>) s)"
  by (simp add: shown_ok_def server_ok_def windows_ok_def focus_ok_def outputs_ok_def visible_ok_def)

lemma toggle_layout_shown [kum_inv]:
  assumes "kum_workspace_toggle_layout E out s = Some s'" and "shown_ok s"
  shows "shown_ok s'"
  using assms set_layout_shown [OF assms(2)]
  by (auto simp: kum_workspace_toggle_layout_def Let_def split: option.splits if_splits
      dest!: arrange_quiet intro: quiet_shown)

lemma output_of_wlr_mem: "output_of_wlr wo s = Some i \<Longrightarrow> i \<in> set (outputs s)"
  by (auto simp: output_of_wlr_def find_Some_iff split: option.splits)

lemma output_focused_mem: "kum_output_focused E s = Some i \<Longrightarrow> i \<in> set (outputs s)"
  by (auto simp: kum_output_focused_def output_of_wlr_mem split: prod.splits)

lemma scratchpad_shown [kum_inv]:
  assumes "kum_workspace_scratchpad_toggle E s = Some s'" and "shown_ok s"
  shows "shown_ok s'"
proof (cases "kum_output_focused E s")
  case None
  then show ?thesis using assms by (simp add: kum_workspace_scratchpad_toggle_def)
next
  case (Some i)
  then have "s' = s \<or> (\<exists>k. kum_workspace_switch E (Some i) k s = Some s')"
    using assms(1) by (auto simp: kum_workspace_scratchpad_toggle_def Let_def split: if_splits option.splits)
  then show ?thesis using assms(2) switch_shown [of E "Some i"] output_focused_mem [OF Some] by auto
qed

lemma relist_shown:
  assumes "shown_ok s" and "set l = set (ws_toplevels (workspaces s w))" and "distinct l"
  shows "shown_ok (upd_ws w (\<lambda>r. r\<lparr>ws_toplevels := l\<rparr>) s)"
  using assms by (simp add: shown_ok_def server_ok_def windows_ok_def focus_ok_def outputs_ok_def visible_ok_def)

lemma swap_master_shown [kum_inv]:
  assumes "kum_tiling_swap_master E s = Some s'" and "shown_ok s"
  shows "shown_ok s'"
proof -
  have "s' = s \<or> (\<exists>f w. focused s = Some f \<and> w = ws_of s f \<and> arrange_opt E (output_for_workspace s w) w
      (upd_ws w (\<lambda>r. r\<lparr>ws_toplevels := wl_insert_tail f (wl_remove f (ws_toplevels r))\<rparr>) s) = Some s')"
    using assms(1)
    by (auto simp: kum_tiling_swap_master_def Let_def output_for_workspace_def split: option.splits if_splits list.splits)
  then show ?thesis
  proof (elim disjE exE conjE)
    assume "s' = s"
    then show ?thesis using assms(2) by simp
  next
    fix f w
    let ?l = "wl_insert_tail f (wl_remove f (ws_toplevels (workspaces s w)))"
    assume a: "focused s = Some f" "w = ws_of s f" and
      r: "arrange_opt E (output_for_workspace s w) w
        (upd_ws w (\<lambda>r. r\<lparr>ws_toplevels := wl_insert_tail f (wl_remove f (ws_toplevels r))\<rparr>) s) = Some s'"
    have mem: "f \<in> set (ws_toplevels (workspaces s w))" and d: "distinct (ws_toplevels (workspaces s w))"
      using a shown_parts(2,3) [OF assms(2)] by (auto simp: windows_ok_def focus_ok_def)
    have "shown_ok (upd_ws w (\<lambda>r. r\<lparr>ws_toplevels := ?l\<rparr>) s)"
      by (rule relist_shown [OF assms(2) wl_tail.move_set [OF mem] wl_tail.move_distinct [OF d]])
    moreover have "upd_ws w (\<lambda>r. r\<lparr>ws_toplevels := wl_insert_tail f (wl_remove f (ws_toplevels r))\<rparr>) s =
        upd_ws w (\<lambda>r. r\<lparr>ws_toplevels := ?l\<rparr>) s" by (simp add: upd_ws_def)
    ultimately show ?thesis using quiet_shown [OF arrange_opt_quiet [OF r]] by simp
  qed
qed

lemma set_cfg_shown: "shown_ok s \<Longrightarrow> shown_ok (s\<lparr>cfg := c\<rparr>)"
  by (simp add: shown_ok_def server_ok_def windows_ok_def focus_ok_def outputs_ok_def visible_ok_def
      ws_of_def xws_of_def active_ws_def inj_on_def)

lemma tiling_resize_shown [kum_inv]:
  assumes "kum_tiling_resize E dw dh s = Some s'" and "shown_ok s"
  shows "shown_ok s'"
  using assms set_cfg_shown [OF assms(2)]
  by (auto simp: kum_tiling_resize_def Let_def split: option.splits if_splits
      dest!: arrange_opt_quiet intro: quiet_shown quiet_shown [OF quiet_emit])

lemma focus_adjacent_shown [kum_inv]:
  assumes "kum_output_focus_adjacent E dx dy s = Some s'" and "shown_ok s"
  shows "shown_ok s'"
proof -
  have "s' = s \<or> (\<exists>w x y. focus_first E w (emit (Device (CursorWarp x y)) s) = Some s')"
    using assms(1)
    by (auto simp: kum_output_focus_adjacent_def Let_def split: option.splits if_splits)
  then show ?thesis
    using assms(2) quiet_shown [OF quiet_emit, of "Device (CursorWarp x y)" s for x y] focus_first_shown by fastforce
qed

section \<open>Layout geometry\<close>

text \<open>\<open>inside b a\<close>: box \<open>b\<close> lies within box \<open>a\<close>.\<close>

definition inside :: "wlr_box \<Rightarrow> wlr_box \<Rightarrow> bool" where
  "inside b a \<longleftrightarrow> 0 \<le> box_w b \<and> 0 \<le> box_h b \<and>
     box_x a \<le> box_x b \<and> box_x b + box_w b \<le> box_x a + box_w a \<and>
     box_y a \<le> box_y b \<and> box_y b + box_h b \<le> box_y a + box_h a"

definition disjoint_boxes :: "wlr_box \<Rightarrow> wlr_box \<Rightarrow> bool" where
  "disjoint_boxes a b \<longleftrightarrow>
     box_x a + box_w a \<le> box_x b \<or> box_x b + box_w b \<le> box_x a \<or>
     box_y a + box_h a \<le> box_y b \<or> box_y b + box_h b \<le> box_y a"

text \<open>An area in which \<open>count\<close> windows with their gaps can be laid out.\<close>

definition roomy :: "int \<Rightarrow> wlr_box \<Rightarrow> nat \<Rightarrow> bool" where
  "roomy gap area count \<longleftrightarrow> 0 \<le> gap \<and> gap * 3 \<le> box_w area \<and> box_w area \<le> 2 ^ 24 \<and>
     gap * 2 \<le> box_h area \<and> gap * int count \<le> box_h area"

lemma master_width_bounds:
  assumes "roomy gap area count" and "0 \<le> mr" and "mr \<le> 1" and "1 < count"
  shows "0 \<le> master_width gap mr area count \<and> master_width gap mr area count \<le> box_w area - gap * 3"
proof -
  have n: "0 \<le> box_w area - gap * 3" "box_w area - gap * 3 \<le> 2 ^ 24" using assms(1) by (auto simp: roomy_def)
  then have "f32 (of_int (box_w area - gap * 3)) = of_int (box_w area - gap * 3)"
    using flt32.fl_int [of "box_w area - gap * 3"] by simp
  then show ?thesis
    using flt32.fl_share [OF n assms(2,3)] assms(4) by (simp add: master_width_def)
qed

definition slot_height :: "int \<Rightarrow> wlr_box \<Rightarrow> nat \<Rightarrow> int" where
  "slot_height gap area count = (box_h area - gap * int count) div (int count - 1)"

lemma tile_box_master:
  "tile_box gap mr area count 0 =
    \<lparr>box_x = box_x area + gap, box_y = box_y area + gap, box_w = master_width gap mr area count, box_h = box_h area - gap * 2\<rparr>"
  by (simp add: tile_box_def Let_def)

lemma tile_box_slot:
  assumes "roomy gap area count" and "0 < i" and "i < count"
  shows "tile_box gap mr area count i =
    \<lparr>box_x = box_x area + gap * 2 + master_width gap mr area count,
     box_y = box_y area + gap + (int i - 1) * (slot_height gap area count + gap),
     box_w = box_w area - gap * 3 - master_width gap mr area count, box_h = slot_height gap area count\<rparr>"
proof -
  have "0 \<le> box_h area - gap * int count" "0 < int count - 1" using assms by (auto simp: roomy_def)
  then have "(box_h area - gap * int count) sdiv (int count - 1) = slot_height gap area count"
    by (simp add: signed_divide_int_def slot_height_def sgn_if)
  then show ?thesis using assms by (simp add: tile_box_def Let_def)
qed

lemma slot_height_bounds:
  assumes "roomy gap area count" and "1 < count"
  shows "0 \<le> slot_height gap area count \<and> (int count - 1) * slot_height gap area count \<le> box_h area - gap * int count"
proof -
  have n: "0 \<le> box_h area - gap * int count" "0 < int count - 1" using assms by (auto simp: roomy_def)
  let ?H = "box_h area - gap * int count" and ?n = "int count - 1"
  have "?n * (?H div ?n) = ?H - ?H mod ?n" by (rule minus_mod_eq_mult_div [symmetric])
  moreover have "0 \<le> ?H mod ?n" using n(2) by (rule pos_mod_sign)
  ultimately show ?thesis using n by (simp add: slot_height_def pos_imp_zdiv_nonneg_iff)
qed

lemma slot_fits:
  assumes "roomy gap area count" and "0 < i" and "i < count"
  defines "sh \<equiv> slot_height gap area count"
  shows "0 \<le> (int i - 1) * (sh + gap) \<and> gap + (int i - 1) * (sh + gap) + sh \<le> box_h area - gap"
proof -
  have b: "0 \<le> sh" "(int count - 1) * sh \<le> box_h area - gap * int count"
    using slot_height_bounds [OF assms(1)] assms(2,3) by (auto simp: sh_def)
  have g: "0 \<le> gap" using assms(1) by (simp add: roomy_def)
  have "int i * (sh + gap) \<le> (int count - 1) * (sh + gap)" using assms(3) b g by (intro mult_right_mono) auto
  then have "gap + (int i - 1) * (sh + gap) + sh \<le> box_h area - gap" using b by (simp add: algebra_simps)
  moreover have "0 \<le> (int i - 1) * (sh + gap)" using assms(2) b g by (intro mult_nonneg_nonneg) auto
  ultimately show ?thesis by simp
qed

lemma tile_box_inside:
  assumes "roomy gap area count" and "0 \<le> mr" and "mr \<le> 1" and "i < count"
  shows "inside (tile_box gap mr area count i) area"
proof (cases "i = 0")
  case True
  have "0 \<le> master_width gap mr area count \<and> master_width gap mr area count \<le> box_w area - gap * 2"
  proof (cases "count = 1")
    case True
    then show ?thesis using assms(1) by (simp add: master_width_def roomy_def)
  next
    case False
    then show ?thesis using master_width_bounds [OF assms(1-3)] assms(1,4) by (auto simp: roomy_def)
  qed
  then show ?thesis using True assms(1) by (simp add: tile_box_master inside_def roomy_def)
next
  case False
  then have "1 < count" using assms(4) by simp
  note m = master_width_bounds [OF assms(1-3) this] and h = slot_height_bounds [OF assms(1) this]
  have g: "0 \<le> gap" using assms(1) by (simp add: roomy_def)
  show ?thesis
    using False m h g slot_fits [OF assms(1) _ assms(4)] by (simp add: tile_box_slot [OF assms(1) _ assms(4)] inside_def)
qed

lemma tile_box_disjoint:
  assumes "roomy gap area count" and "0 \<le> mr" and "mr \<le> 1" and "i < j" and "j < count"
  shows "disjoint_boxes (tile_box gap mr area count i) (tile_box gap mr area count j)"
proof -
  have j: "0 < j" and i: "i < count" using assms(4,5) by auto
  have g: "0 \<le> gap" using assms(1) by (simp add: roomy_def)
  show ?thesis
  proof (cases "i = 0")
    case True
    then show ?thesis using g by (simp add: tile_box_master tile_box_slot [OF assms(1) j assms(5)] disjoint_boxes_def)
  next
    case False
    let ?sh = "slot_height gap area count"
    have "0 \<le> ?sh" using slot_height_bounds [OF assms(1)] j assms(5) by auto
    then have "int i * (?sh + gap) \<le> (int j - 1) * (?sh + gap)" using assms(4) g by (intro mult_right_mono) auto
    then have "(int i - 1) * (?sh + gap) + ?sh \<le> (int j - 1) * (?sh + gap)" using g by (simp add: algebra_simps)
    then show ?thesis
      using False by (simp add: tile_box_slot [OF assms(1) j assms(5)] tile_box_slot [OF assms(1) _ i] disjoint_boxes_def)
  qed
qed

text \<open>The clamped master ratio always qualifies.\<close>

lemma clamp_ratio_bounds: "0 \<le> clamp_ratio r \<and> clamp_ratio r \<le> 1"
proof -
  have "f32 (1 / 10) \<le> f32 (9 / 10)" "0 \<le> f32 (1 / 10)" "f32 (9 / 10) \<le> 1"
    using flt32.fl_mono [of "1/10" "9/10"] flt32.fl_nonneg [of "1/10"] flt32.fl_le_1 [of "9/10"] by auto
  then show ?thesis by (auto simp: clamp_ratio_def Let_def)
qed

section \<open>No null pointers\<close>

text \<open>
  The decorations are in step with what is mapped, a mapped XWayland window has a
  surface, and titles and output names fit the message buffer.
\<close>

definition decor_ok :: "env \<Rightarrow> kum_server \<Rightarrow> bool" where
  "decor_ok E s \<longleftrightarrow>
     (\<forall>t \<in> set (toplevels s). tl_mapped E t \<longrightarrow> length (tl_border (toplevel_at s t)) = 4) \<and>
     (\<forall>x \<in> set (xwayland_surfaces s). xw_surface E x \<noteq> None \<and>
        (xw_mapped E x \<or> focused_xwayland s = Some x \<longrightarrow> length (xs_border (xsurface_at s x)) = 4))"

definition title_fits :: "env \<Rightarrow> kum_server \<Rightarrow> bool" where
  "title_fits E s \<longleftrightarrow>
     (\<forall>i \<in> set (outputs s).
        (\<forall>t. length (window_title_msg (out_name E i) (json_body 350 (title_text (tl_title E t)))) \<le> 400) \<and>
        (\<forall>x. length (window_title_msg (out_name E i) (json_body 350 (title_text (xw_title E x)))) \<le> 400))"

lemma title_broadcast_defined:
  assumes "\<forall>i \<in> set (outputs s). length (window_title_msg (out_name E i) (json_body 350 title)) \<le> 400"
  shows "\<exists>s'. kum_ipc_broadcast_window_title E w title s = Some s'"
proof (cases "List.find (\<lambda>i. active_ws s i = w) (outputs s)")
  case None
  then show ?thesis by (simp add: kum_ipc_broadcast_window_title_def)
next
  case (Some i)
  then have "i \<in> set (outputs s)" using find_Some_iff_mem by fastforce
  then show ?thesis using Some assms by (fastforce simp: kum_ipc_broadcast_window_title_def send_buffer_def)
qed

lemma decor_quiet: "quiet s t \<Longrightarrow> decor_ok E s \<Longrightarrow> decor_ok E t"
  by (simp add: decor_ok_def quiet_fields)

lemma deactivate_defined:
  assumes "decor_ok E s" and "focus_ok s"
  shows "\<exists>s'. deactivate_prev E p s = Some s'"
proof (cases "xdg_toplevel_of E p")
  case (Some wt)
  let ?s1 = "emit (Shell (XdgSetActivated wt False)) s"
  have "\<exists>s'. kum_border_update E t False ?s1 = Some s'" if "t \<in> set (toplevels s)" for t
    using assms(1) that by (intro border_update_defined) (simp add: decor_ok_def)
  moreover have "t \<in> set (toplevels s)" if "List.find (\<lambda>t. tl_surface E t = p) (toplevels s) = Some t" for t
    using find_Some_iff_mem [OF that] by simp
  ultimately show ?thesis using Some by (simp add: deactivate_prev_def Let_def split: option.split)
next
  case None
  have "\<exists>s'. kum_xwayland_border_update E x False (emit c s) = Some s'" if "focused_xwayland s = Some x" for x c
    using assms that by (intro xborder_update_defined) (auto simp: decor_ok_def focus_ok_def)
  then show ?thesis using None by (auto simp: deactivate_prev_def split: option.split)
qed

lemma focus_toplevel_defined:
  assumes "decor_ok E s" and "title_fits E s" and "focus_ok s" and "t \<in> set (toplevels s)"
  shows "\<exists>s'. kum_focus_toplevel E t sf s = Some s'"
proof -
  obtain s1 where 1: "(case kb_focus E (trace s) of None \<Rightarrow> Some s | Some p \<Rightarrow> deactivate_prev E p s) = Some s1"
    using deactivate_defined [OF assms(1,3)] by (cases "kb_focus E (trace s)") auto
  note f1 = quiet_fields [OF deactivate_opt_quiet [OF 1]]
  let ?s5 = "upd_tl t (\<lambda>r. r\<lparr>tl_anim :=
                   kum_anim_start (clock_now E) ANIM_FOCUSING 0 1 (cfg_anim_focus_ms (cfg s1)) (tl_anim r)\<rparr>)
         (emit (Shell (XdgSetActivated t True))
            (emit (Scene (RaiseToTop (NToplevel t))) (s1\<lparr>focused_xwayland := None\<rparr>)
               \<lparr>toplevels := wl_insert t (wl_remove t (toplevels s1))\<rparr>))"
  have "tl_mapped E t \<Longrightarrow> length (tl_border (toplevel_at ?s5 t)) = 4"
    using assms(1,4) by (simp add: decor_ok_def f1)
  then obtain s6 where 6: "kum_border_update E t True ?s5 = Some s6" using border_update_defined by blast
  note f6 = quiet_fields [OF border_update_quiet [OF 6]]
  let ?s8 = "upd_tl t (\<lambda>r. r\<lparr>tl_focus_serial := next_focus_serial s6 + 1\<rparr>)
         (s6\<lparr>focused := Some t, next_focus_serial := next_focus_serial s6 + 1\<rparr>)"
  obtain s9 where "kum_ipc_broadcast_window_title E (ws_of ?s8 t) (title_text (tl_title E t)) ?s8 = Some s9"
    using title_broadcast_defined [of ?s8 E] assms(2) by (fastforce simp: title_fits_def f1 f6)
  then show ?thesis using 1 6 by (simp add: kum_focus_toplevel_def)
qed

lemma focus_xwayland_defined:
  assumes "decor_ok E s" and "title_fits E s" and "focus_ok s" and "x \<in> set (xwayland_surfaces s)"
    and "length (xs_border (xsurface_at s x)) = 4"
  shows "\<exists>s'. kum_focus_xwayland_surface E x s = Some s'"
proof -
  obtain s1 where 1: "(case kb_focus E (trace s) of None \<Rightarrow> Some s | Some p \<Rightarrow> deactivate_prev E p s) = Some s1"
    using deactivate_defined [OF assms(1,3)] by (cases "kb_focus E (trace s)") auto
  note f1 = quiet_fields [OF deactivate_opt_quiet [OF 1]]
  let ?s4 = "emits [Scene (RaiseToTop (NXwayland x)), Shell (XwActivate x True)]
          (upd_xs x (\<lambda>r. r\<lparr>xs_focus_serial := next_focus_serial s1 + 1\<rparr>)
            (s1\<lparr>focused := None, focused_xwayland := Some x, next_focus_serial := next_focus_serial s1 + 1\<rparr>))"
  obtain s5 where 5: "kum_xwayland_border_update E x True ?s4 = Some s5"
    using xborder_update_defined [of ?s4 x E True] assms(5) by (auto simp: f1)
  note f5 = quiet_fields [OF xborder_update_quiet [OF 5]]
  obtain s6 where 6: "kum_ipc_broadcast_window_title E (xws_of s5 x) (title_text (xw_title E x)) s5 = Some s6"
    using title_broadcast_defined [of s5 E] assms(2) by (fastforce simp: title_fits_def f1 f5)
  obtain sf where "xw_surface E x = Some sf" using assms(1,4) by (auto simp: decor_ok_def)
  then show ?thesis using 1 5 6 by (simp add: kum_focus_xwayland_surface_def)
qed

lemma first_mapped_xs_defined:
  "\<forall>x \<in> set xs. xw_surface E x \<noteq> None \<Longrightarrow> \<exists>r. first_mapped_xs E s w xs = Some r"
  by (induction xs) auto

lemma focus_first_defined:
  assumes "decor_ok E s" and "title_fits E s" and "focus_ok s" and "windows_ok s"
  shows "\<exists>s'. focus_first E w s = Some s'"
proof (cases "List.find (tl_mapped E) (ws_toplevels (workspaces s w))")
  case (Some t)
  then show ?thesis
    using focus_toplevel_defined [OF assms(1-3)] find_mapped_mem [OF assms(4) Some] by (simp add: focus_first_def)
next
  case None
  obtain r where r: "first_mapped_xs E s w (xwayland_surfaces s) = Some r"
    using first_mapped_xs_defined [of "xwayland_surfaces s" E s w] assms(1) by (auto simp: decor_ok_def)
  show ?thesis
  proof (cases r)
    case None
    then show ?thesis using r \<open>List.find _ _ = None\<close> by (simp add: focus_first_def)
  next
    case (Some x)
    then have "\<exists>s'. kum_focus_xwayland_surface E x s = Some s'"
      using first_mapped_xs_mem [of E s w _ x] r assms by (intro focus_xwayland_defined) (auto simp: decor_ok_def)
    then show ?thesis using r Some None by (simp add: focus_first_def)
  qed
qed

lemma switch_defined:
  assumes "shown_ok s" and "decor_ok E s" and "title_fits E s" and "\<forall>i. out = Some i \<longrightarrow> i \<in> set (outputs s)"
  shows "\<exists>s'. kum_workspace_switch E out index s = Some s'"
proof (cases "\<not> ws_ok index \<or> out = None \<or> (\<exists>i. out = Some i \<and> active_ws s i = index)")
  case True
  then show ?thesis using switch_noop [OF True] by blast
next
  case False
  then obtain i where i: "out = Some i" "ws_ok index" "active_ws s i \<noteq> index" by auto
  then have mem: "i \<in> set (outputs s)" using assms(4) by simp
  define u where "u = before_focus E i index s"
  note b = before_focus_effect [OF assms(1) mem i(2,3) u_def]
  have d: "toplevel_at u = toplevel_at s \<and> xsurface_at u = xsurface_at s"
    using quiet_fields(4,6) [OF swap_or_hide_quiet [where i = i and s = s and index = index and prev = "active_ws s i" and E = E]]
    by (auto simp: u_def before_focus_def Let_def show_workspace_def split: option.splits)
  have "decor_ok E u" using assms(2) b d by (fastforce simp: decor_ok_def)
  moreover have "title_fits E u" using assms(3) b by (simp add: title_fits_def)
  ultimately obtain s3 where "focus_first E index u = Some s3"
    using focus_first_defined [of E u] b shown_parts(2,3) [of u] by blast
  then show ?thesis using i switch_unfold [OF i(2,3)] by (simp add: u_def)
qed

lemma place_windows_defined:
  "\<forall>(t, b) \<in> set ps. tl_mapped E t \<longrightarrow> length (tl_border (toplevel_at s t)) = 4 \<Longrightarrow> \<exists>s'. place_windows E ps s = Some s'"
proof (induction E ps s rule: place_windows.induct)
  case (1 E s)
  then show ?case by simp
next
  case (2 E t b ps s)
  let ?s0 = "emits [Scene (SetPosition (NToplevel t) (box_x b) (box_y b)), Shell (XdgSetSize t (box_w b) (box_h b))] s"
  obtain s1 where s1: "kum_border_update E t (focused s = Some t) ?s0 = Some s1"
    using border_update_defined [of E t ?s0] 2(2) by auto
  have "toplevel_at s1 = toplevel_at s" using quiet_fields(4) [OF border_update_quiet [OF s1]] by simp
  then obtain s2 where "place_windows E ps s1 = Some s2" using "2.IH" [OF s1] 2(2) by auto
  then show ?case using s1 by simp
qed

lemma place_monocle_defined:
  "\<forall>t \<in> set ts. tl_mapped E t \<longrightarrow> length (tl_border (toplevel_at s t)) = 4 \<Longrightarrow> \<exists>s'. place_monocle E area gap ts s = Some s'"
proof (induction E area gap ts s rule: place_monocle.induct)
  case (1 E area gap s)
  then show ?case by simp
next
  case (2 E area gap t ts s)
  let ?s0 = "emits [Scene (SetPosition (NToplevel t) (box_x area + gap) (box_y area + gap)),
                    Shell (XdgSetSize t (box_w area - gap * 2) (box_h area - gap * 2)),
                    Scene (LowerToBottom (NToplevel t))] s"
  obtain s1 where s1: "kum_border_update E t (focused s = Some t) ?s0 = Some s1"
    using border_update_defined [of E t ?s0] 2(2) by auto
  have "toplevel_at s1 = toplevel_at s" using quiet_fields(4) [OF border_update_quiet [OF s1]] by simp
  then obtain s2 where "place_monocle E area gap ts s1 = Some s2" using "2.IH" [OF s1] 2(2) by auto
  then show ?case using s1 by simp
qed

lemma arrange_defined:
  assumes "decor_ok E s" and "windows_ok s"
  shows "\<exists>s'. kum_workspace_arrange E (Some i) w s = Some s'"
proof -
  have b: "\<forall>t \<in> set (tiled E s w). tl_mapped E t \<longrightarrow> length (tl_border (toplevel_at s t)) = 4"
    using assms by (auto simp: tiled_def decor_ok_def windows_ok_def)
  have "\<exists>s'. place_windows E (zip (tiled E s w) bs) s = Some s'" for bs
    using b by (intro place_windows_defined) (auto dest: set_zip_leftD)
  moreover have "\<exists>s'. place_monocle E area gap (tiled E s w) s = Some s'" for area gap
    using b by (rule place_monocle_defined)
  moreover from this have "\<exists>s'. kum_workspace_monocle_arrange E (Some i) w s = Some s'"
  proof -
    obtain s1 where "place_monocle E (usable_area (output_at s i)) (cfg_gap (cfg s)) (tiled E s w) s = Some s1"
      using place_monocle_defined [OF b] by blast
    then show ?thesis by (simp add: kum_workspace_monocle_arrange_def)
  qed
  ultimately show ?thesis by (simp add: kum_workspace_arrange_def Let_def)
qed

lemma arrange_opt_defined:
  "decor_ok E s \<Longrightarrow> windows_ok s \<Longrightarrow> \<exists>s'. arrange_opt E out w s = Some s'"
  using arrange_defined by (auto simp: arrange_opt_def split: option.split)

end
