(* ===== verification/Workspace_Spec.thy ===== *)
theory Workspace_Spec
  imports Workspace_Cmds
begin

text \<open>
  A concrete compositor state for the witnesses, and the properties of the workspace
  and tiling commands.
\<close>

section \<open>A state with two outputs and three windows\<close>

definition idle_anim :: kum_animation where
  "idle_anim =
     \<lparr>an_type = ANIM_NONE, an_start = \<lparr>tv_sec = 0, tv_nsec = 0\<rparr>, duration_ms = 0, an_from = 0, an_to = 0,
      an_current = 0, an_done = False\<rparr>"

definition zero_box :: wlr_box where
  "zero_box = \<lparr>box_x = 0, box_y = 0, box_w = 0, box_h = 0\<rparr>"

definition window_on :: "int \<Rightarrow> nat \<Rightarrow> kum_toplevel" where
  "window_on w n =
     \<lparr>tl_focus_serial = 0, tl_border = [n, n + 1, n + 2, n + 3], tl_shadow_buf = None, tl_corner_mask_buf = None,
      tl_anim = idle_anim, tl_grabbed = False, tl_floating = False, tl_workspace = w, tl_resize_edges = {},
      tl_grab_x = 0, tl_grab_y = 0, tl_grab_geobox = zero_box, tl_saved_geom = zero_box, tl_last_geo = zero_box\<rparr>"

definition blank_xsurface :: kum_xwayland_surface where
  "blank_xsurface =
     \<lparr>xs_focus_serial = 0, xs_border = [], xs_shadow_buf = None, xs_corner_mask_buf = None, xs_anim = idle_anim,
      xs_workspace = 0, xs_grabbed = False, xs_resize_edges = {}, xs_grab_x = 0, xs_grab_y = 0,
      xs_grab_geobox = zero_box, xs_saved_geom = zero_box, xs_last_width = 0, xs_last_height = 0, xs_associated = False\<rparr>"

definition screen_at :: "int \<Rightarrow> int \<Rightarrow> kum_output" where
  "screen_at x w =
     \<lparr>usable_area = \<lparr>box_x = x, box_y = 30, box_w = 1920, box_h = 1050\<rparr>, active_workspace = w, previous_workspace = 0\<rparr>"

definition ex_env :: env where
  "ex_env =
     \<lparr>tl_mapped = (\<lambda>t. t < 4), tl_surface = (\<lambda>t. 100 + t), tl_geometry = (\<lambda>t. zero_box),
      tl_title = (\<lambda>t. Some ''shell''), tl_app_id = (\<lambda>t. Some ''foot''), tl_current_fullscreen = (\<lambda>t. False),
      tl_requested_fullscreen = (\<lambda>t. False), tl_requested_maximized = (\<lambda>t. False), tl_initial_commit = (\<lambda>t. False),
      xdg_toplevel_of = (\<lambda>f. if 100 \<le> f then Some (f - 100) else None),
      xw_surface = (\<lambda>x. None), xw_mapped = (\<lambda>x. False), xw_box = (\<lambda>tr x. zero_box), xw_title = (\<lambda>x. None),
      xw_class = (\<lambda>x. None), xw_maximized = (\<lambda>x. False), xw_fullscreen = (\<lambda>x. False),
      out_name = (\<lambda>i. if i = 1 then ''DP-1'' else ''DP-2''),
      layout_box = (\<lambda>tr i. \<lparr>box_x = (if i = 1 then 0 else 1920), box_y = 0, box_w = 1920, box_h = 1080\<rparr>),
      layout_output_at = (\<lambda>tr x y. if x < 1920 then Some 1 else Some 2),
      cursor_pos = (\<lambda>tr. (10, 10)), node_coords = (\<lambda>tr n. (0, 0)), kb_focus = (\<lambda>tr. Some 101),
      seat_keyboard = (\<lambda>tr. Some 1), send_result = (\<lambda>tr c m. SendOk),
      clock_now = \<lparr>tv_sec = 1, tv_nsec = 0\<rparr>, env_fnmatch = (\<lambda>p s. p = s),
      layer_q = \<lparr>ly_output = (\<lambda>l. Some 1), ly_mapped = (\<lambda>l. True), ly_initial_commit = (\<lambda>l. False),
        ly_committed = (\<lambda>l. {}), ly_layer = (\<lambda>l. 2), ly_pending_layer = (\<lambda>l. 2), ly_keyboard = (\<lambda>l. True),
        ly_surface = (\<lambda>l. 50 + l), ly_configure = (\<lambda>tr l full usable. usable)\<rparr>,
      input_q = \<lparr>in_key_syms = (\<lambda>k c. if c = 24 then [''q''] else []), in_modifiers = (\<lambda>k. {WLR_MODIFIER_LOGO}),
        in_device_type = (\<lambda>d. DeviceKeyboard), in_libinput = (\<lambda>d. True), in_tap_fingers = (\<lambda>d. 1),
        in_natural_scroll = (\<lambda>d. True), in_dwt = (\<lambda>d. True), in_accel = (\<lambda>d. True), in_external_mouse = (\<lambda>d. False),
        in_node_at = (\<lambda>tr x y. None),
        in_ancestors = (\<lambda>tr n. []), in_keymap_ok = (\<lambda>m l v p. True)\<rparr>,
      output_q = \<lparr>oq_modes = (\<lambda>i. [(1920, 1080, 60000), (1920, 1080, 144000)]), oq_preferred = (\<lambda>i. Some (1920, 1080, 60000)),
        oq_lock_output = (\<lambda>l. Some 1), oq_lock_surface = (\<lambda>l. 70 + l)\<rparr>,
      os_getenv = (\<lambda>v. if v = ''HOME'' then Some ''/home/kum'' else None),
      os_file = (\<lambda>p. if p = ''/home/kum/.config/kumde/kumde.conf'' then Some (''gap = 4'' @ [NL]) else None),
      os_exec = (\<lambda>p. p = ''foot'')\<rparr>"

definition ex_server :: kum_server where
  "ex_server =
     \<lparr>outputs = [2, 1], output_at = (\<lambda>i. screen_at 0 0)(1 := screen_at 0 0, 2 := screen_at 1920 1),
      toplevels = [1, 2, 3], toplevel_at = (\<lambda>t. window_on 0 t)(1 := window_on 0 10, 2 := window_on 0 20, 3 := window_on 1 30),
      xwayland_surfaces = [], xsurface_at = (\<lambda>x. blank_xsurface),
      workspaces = (\<lambda>w. \<lparr>ws_layout = LAYOUT_FLOATING, ws_toplevels = []\<rparr>)
        (0 := \<lparr>ws_layout = LAYOUT_TILE, ws_toplevels = [1, 2]\<rparr>, 1 := \<lparr>ws_layout = LAYOUT_FLOATING, ws_toplevels = [3]\<rparr>),
      keyboards = [1], pointers = [], keybinds = [], ipc_clients = [7], layer_surfaces = [], layer_assigned = (\<lambda>l. None),
      cfg = kum_config_defaults, rules = [], focused = Some 1, focused_xwayland = None, scratchpad_ws = 8,
      next_focus_serial = 3, active_lock = None, locked = False, lock_children = [],
      split_layouts = [''us''], layout_current = 0, next_node = 50,
      trace = [Scene (SetEnabled (NWorkspace 1) True), Scene (SetEnabled (NWorkspace 0) True)]\<rparr>"

lemma ex_ws_of: "ws_of ex_server t = (if t = 3 then 1 else 0)"
  by (simp add: ex_server_def ws_of_def window_on_def)

lemma ex_active: "active_ws ex_server i = (if i = 2 then 1 else 0)"
  by (simp add: ex_server_def active_ws_def screen_at_def)

lemma ex_fields [simp]:
  "outputs ex_server = [2, 1]" "toplevels ex_server = [1, 2, 3]" "xwayland_surfaces ex_server = []"
  "focused ex_server = Some 1" "focused_xwayland ex_server = None" "scratchpad_ws ex_server = 8"
  "trace ex_server = [Scene (SetEnabled (NWorkspace 1) True), Scene (SetEnabled (NWorkspace 0) True)]"
  "locked ex_server = False" "cfg ex_server = kum_config_defaults" "lock_children ex_server = []"
  "active_lock ex_server = None"
  by (simp_all add: ex_server_def)

lemma ws_ok_numerals: "ws_ok 0" "ws_ok 1" "ws_ok 2" "ws_ok 8"
  by (simp_all add: ws_ok_def KUM_WORKSPACE_COUNT_def)

lemma ex_windows: "windows_ok ex_server"
proof -
  have "ws_toplevels (workspaces ex_server w) = (if w = 0 then [1, 2] else if w = 1 then [3] else [])" for w
    by (simp add: ex_server_def)
  then show ?thesis by (auto simp: windows_ok_def ex_ws_of ws_ok_numerals)
qed

lemma ex_shown: "shown_ok ex_server"
  using ex_windows
  by (auto simp: shown_ok_def server_ok_def focus_ok_def outputs_ok_def visible_ok_def ex_active ws_ok_numerals)
    (auto simp: ex_server_def screen_at_def ws_ok_numerals)

lemma ex_decor: "decor_ok ex_env ex_server"
  by (auto simp: decor_ok_def) (auto simp: ex_server_def window_on_def)

lemma ex_title: "title_fits ex_env ex_server"
proof -
  have a: "length (json_body 350 ''shell'') = 5" and b: "length (json_body 350 []) = 0" by code_simp+
  show ?thesis by (auto simp: title_fits_def window_title_msg_length title_text_def a b ex_env_def)
qed

section \<open>Properties\<close>



text \<open>
  C11. Moving a window puts it on exactly the requested workspace and nowhere else,
  leaves every other window where it is, takes the focus off the moved window, and
  keeps the window lists, the focus and the screens consistent.
\<close>

theorem move_toplevel_correct:
  assumes "shown_ok s" and "t \<in> set (toplevels s)" and "ws_ok index" and "index \<noteq> ws_of s t"
    and "kum_workspace_move_toplevel E t index s = Some s'"
  shows "shown_ok s' \<and> (\<forall>w. t \<in> set (ws_toplevels (workspaces s' w)) \<longleftrightarrow> w = index) \<and>
     (\<forall>k. k \<noteq> t \<longrightarrow> ws_of s' k = ws_of s k) \<and> focused s' \<noteq> Some t \<and>
     set (toplevels s') = set (toplevels s) \<and> outputs s' = outputs s \<and> output_at s' = output_at s"
proof -
  note e = move_toplevel_effect [OF assms(5,1-3)]
  then have "set (ws_toplevels (workspaces s' w)) = {k \<in> set (toplevels s'). ws_of s' k = w}" for w
    using shown_parts(2) [of s'] by (simp add: windows_ok_def)
  then show ?thesis using e assms(2,4) by auto
qed

lemma some_of_not_none: "\<not> Option.is_none x \<Longrightarrow> \<exists>y. x = Some y"
  by (cases x) auto

lemma ex_move_defined: "\<exists>s'. kum_workspace_move_toplevel ex_env 1 5 ex_server = Some s'"
  by (rule some_of_not_none) code_simp

lemma move_toplevel_correct_witness:
  "\<exists>s'. kum_workspace_move_toplevel ex_env 1 5 ex_server = Some s' \<and> shown_ok s' \<and>
     (\<forall>w. 1 \<in> set (ws_toplevels (workspaces s' w)) \<longleftrightarrow> w = 5) \<and> focused s' \<noteq> Some 1"
proof -
  obtain s' where s': "kum_workspace_move_toplevel ex_env 1 5 ex_server = Some s'" using ex_move_defined by blast
  have "1 \<in> set (toplevels ex_server)" "ws_ok 5" "5 \<noteq> ws_of ex_server 1"
    by (simp_all add: ex_ws_of ws_ok_def KUM_WORKSPACE_COUNT_def)
  from move_toplevel_correct [OF ex_shown this s'] s' show ?thesis by blast
qed

lemma before_focus_node:
  "node_enabled (NToplevel t) (trace (before_focus E i index s)) = node_enabled (NToplevel t) (trace s)"
proof -
  let ?prev = "active_ws s i"
  have "node_enabled (NToplevel t) (trace (swap_or_hide E i ?prev index s)) = node_enabled (NToplevel t) (trace s)"
    using node_enabled_says [OF quiet_says [OF swap_or_hide_quiet [where i = i and s = s and index = index and prev = ?prev and E = E]]]
    by (simp split: option.split)
  then show ?thesis
    by (simp add: before_focus_def show_workspace_def unfocus_toplevel_on_def unfocus_xwayland_on_def Let_def split: option.split)
qed

lemma switch_node:
  assumes "kum_workspace_switch E (Some i) index s = Some s'" and "shown_ok s" and "i \<in> set (outputs s)"
    and "ws_ok index"
  shows "node_enabled (NToplevel t) (trace s') = node_enabled (NToplevel t) (trace s)"
proof (cases "active_ws s i = index")
  case True
  then show ?thesis using assms(1) switch_noop [of index "Some i" s E] by simp
next
  case False
  define u where "u = before_focus E i index s"
  note b = before_focus_effect [OF assms(2-4) False u_def]
  obtain s3 where 3: "focus_first E index u = Some s3" and s': "s' = ipc_broadcast_workspace E i index s3"
    using assms(1) switch_unfold [OF assms(4) False] by (auto simp: u_def elim!: bind_SomeE)
  have "windows_ok u" using b by (auto dest: shown_parts)
  then have "says_plain u s3" using focus_first_effect [OF 3] by (simp add: refocus_def)
  moreover have "says_plain s3 s'" unfolding s' by (rule quiet_says) simp
  ultimately have "says_plain u s'" by (rule says_trans)
  then show ?thesis using node_enabled_says [of u s'] before_focus_node [of t E i index s] by (simp add: u_def)
qed

lemma move_hidden_node:
  assumes "kum_workspace_move_toplevel E t index s = Some s'" and "shown_ok s" and "t \<in> set (toplevels s)"
    and "ws_ok index" and "index \<noteq> ws_of s t" and "\<forall>i \<in> set (outputs s). active_ws s i \<noteq> index"
  shows "\<not> node_enabled (NToplevel t) (trace s')"
proof -
  let ?m = "relink_toplevel t index s" and ?src = "output_for_workspace s (ws_of s t)"
  let ?u = "emit (Scene (SetEnabled (NToplevel t) False)) ?m"
  have dst: "output_for_workspace ?m index = None" using assms(6) by (simp add: output_for_workspace_def find_None_iff)
  obtain s5 s6 where 5: "settle_moved E t index ?m = Some s5"
    and 6: "arrange_opt E ?src (ws_of s t) s5 = Some s6"
    and 7: "hand_over_focus E t (ws_of s t) ?src s6 = Some s'"
    using assms(1,4,5) by (auto simp: kum_workspace_move_toplevel_def Let_def ws_ok_def elim!: bind_SomeE)
  have q: "quiet ?u s6" using settle_moved_quiet [OF 5] dst arrange_opt_quiet [OF 6] by (simp add: quiet_trans)
  have n6: "\<not> node_enabled (NToplevel t) (trace s6)"
    using node_enabled_says [OF quiet_says [OF q], of "NToplevel t"] by simp
  have "shown_ok s6"
    using quiet_shown [OF q] toggle_window_shown [OF relink_shown [OF assms(2-5)]] by blast
  then have w: "windows_ok (emit (Seat KeyboardClear) (s6\<lparr>focused := None\<rparr>))"
    using clear_focus_shown(1) shown_parts(2) by blast
  let ?s7 = "emit (Seat KeyboardClear) (s6\<lparr>focused := None\<rparr>)"
  consider "s' = s6" | "s' = ?s7" | "focus_first E (ws_of s t) ?s7 = Some s'"
    using 7 unfolding hand_over_focus_def Let_def by (metis (full_types) option.inject)
  then show ?thesis
  proof cases
    case 1
    then show ?thesis using n6 by simp
  next
    case 2
    then show ?thesis using n6 by simp
  next
    case 3
    then have "says_plain ?s7 s'" using focus_first_effect [OF 3 w] by (simp add: refocus_def)
    then show ?thesis using n6 node_enabled_says [of ?s7 s' "NToplevel t"] by simp
  qed
qed

text \<open>
  A window moved to a workspace no output shows is hidden by its own node, and
  switching to that workspace afterwards does not bring it back: the workspace is on
  screen, the window is on it, and the window's node is still disabled.
\<close>

theorem hidden_move_loses_window:
  assumes "shown_ok s" and "t \<in> set (toplevels s)" and "ws_ok index" and "index \<noteq> ws_of s t"
    and "\<forall>k \<in> set (outputs s). active_ws s k \<noteq> index" and "i \<in> set (outputs s)"
    and "kum_workspace_move_toplevel E t index s = Some s1"
    and "kum_workspace_switch E' (Some i) index s1 = Some s2"
  shows "ws_enabled index (trace s2) \<and> ws_of s2 t = index \<and> \<not> node_enabled (NToplevel t) (trace s2)"
proof -
  note m = move_toplevel_effect [OF assms(7,1,2,3)]
  have act: "active_ws s1 i \<noteq> index" using m assms(5,6) by (simp add: active_ws_def)
  have i: "i \<in> set (outputs s1)" using m assms(6) by simp
  have s1: "shown_ok s1" using m by blast
  note e = switch_effect [OF s1 i assms(3) act assms(8)]
  have "active_ws s2 i = index" using e i by (simp add: switched_def)
  then have "ws_enabled index (trace s2)"
    using e i assms(3) by (auto simp: shown_ok_def visible_ok_def)
  then show ?thesis
    using e m switch_node [OF assms(8) s1 i assms(3)] move_hidden_node [OF assms(7,1,2,3,4,5)] by simp
qed

lemma hidden_move_loses_window_witness:
  "\<exists>s1 s2. kum_workspace_move_toplevel ex_env 1 5 ex_server = Some s1 \<and>
     kum_workspace_switch ex_env (Some 1) 5 s1 = Some s2 \<and>
     ws_enabled 5 (trace s2) \<and> ws_of s2 1 = 5 \<and> \<not> node_enabled (NToplevel 1) (trace s2)"
proof -
  obtain s1 where s1: "kum_workspace_move_toplevel ex_env 1 5 ex_server = Some s1" using ex_move_defined by blast
  have "\<not> Option.is_none (Option.bind (kum_workspace_move_toplevel ex_env 1 5 ex_server)
          (kum_workspace_switch ex_env (Some 1) 5))" by code_simp
  then obtain s2 where s2: "kum_workspace_switch ex_env (Some 1) 5 s1 = Some s2"
    using s1 by (auto dest: some_of_not_none)
  have "1 \<in> set (toplevels ex_server)" "ws_ok 5" "5 \<noteq> ws_of ex_server 1"
    "\<forall>k \<in> set (outputs ex_server). active_ws ex_server k \<noteq> 5" "1 \<in> set (outputs ex_server)"
    by (simp_all add: ex_ws_of ex_active ws_ok_def KUM_WORKSPACE_COUNT_def)
  from hidden_move_loses_window [OF ex_shown this s1 s2] s1 s2 show ?thesis by blast
qed

section \<open>Tiling\<close>

lemma place_windows_trace:
  "place_windows E ps s = Some s' \<Longrightarrow> \<exists>cs. trace s' = cs @ trace s \<and>
     (\<forall>(t, b) \<in> set ps. Scene (SetPosition (NToplevel t) (box_x b) (box_y b)) \<in> set cs \<and>
        Shell (XdgSetSize t (box_w b) (box_h b)) \<in> set cs)"
proof (induction E ps s rule: place_windows.induct)
  case (1 E s)
  then show ?case by simp
next
  case (2 E t b ps s)
  let ?c = "[Scene (SetPosition (NToplevel t) (box_x b) (box_y b)), Shell (XdgSetSize t (box_w b) (box_h b))]"
  obtain s1 where s1: "kum_border_update E t (focused s = Some t) (emits ?c s) = Some s1"
    and r: "place_windows E ps s1 = Some s'" using 2(2) by (auto elim: bind_SomeE)
  obtain ds where ds: "trace s1 = ds @ rev ?c @ trace s"
    using quiet_trace [OF border_update_quiet [OF s1]] by auto
  obtain cs where "trace s' = cs @ trace s1" and
    cs: "\<forall>(t, b) \<in> set ps. Scene (SetPosition (NToplevel t) (box_x b) (box_y b)) \<in> set cs \<and>
        Shell (XdgSetSize t (box_w b) (box_h b)) \<in> set cs" using "2.IH" [OF s1 r] by blast
  then have "trace s' = (cs @ ds @ rev ?c) @ trace s" using ds by simp
  then show ?case using cs by (intro exI [of _ "cs @ ds @ rev ?c"]) auto
qed

text \<open>
  C14. Laying out a tiled workspace on an output with enough room places every tiled
  window: each is moved and sized to a box inside the output's usable area, no two
  boxes overlap, and the first window of the list gets the full-height master column.
\<close>

theorem tile_layout_correct:
  assumes "kum_workspace_arrange E (Some i) w s = Some s'" and "layout_of s w = LAYOUT_TILE"
    and "0 \<le> cfg_master_ratio (cfg s)" and "cfg_master_ratio (cfg s) \<le> 1"
    and "roomy (cfg_gap (cfg s)) (usable_area (output_at s i)) (length (tiled E s w))"
  shows "\<exists>bs cs. length bs = length (tiled E s w) \<and> trace s' = cs @ trace s \<and>
     (\<forall>k < length bs. Scene (SetPosition (NToplevel (tiled E s w ! k)) (box_x (bs ! k)) (box_y (bs ! k))) \<in> set cs \<and>
        Shell (XdgSetSize (tiled E s w ! k) (box_w (bs ! k)) (box_h (bs ! k))) \<in> set cs \<and>
        inside (bs ! k) (usable_area (output_at s i))) \<and>
     (\<forall>k l. k < l \<and> l < length bs \<longrightarrow> disjoint_boxes (bs ! k) (bs ! l)) \<and>
     (bs \<noteq> [] \<longrightarrow> box_h (hd bs) = box_h (usable_area (output_at s i)) - cfg_gap (cfg s) * 2)"
proof -
  let ?ts = "tiled E s w" and ?area = "usable_area (output_at s i)" and ?g = "cfg_gap (cfg s)" and ?r = "cfg_master_ratio (cfg s)"
  let ?bs = "map (tile_box ?g ?r ?area (length ?ts)) [0..<length ?ts]"
  have "place_windows E (zip ?ts ?bs) s = Some s'"
    using assms(1,2) by (simp add: kum_workspace_arrange_def Let_def)
  then obtain cs where tr: "trace s' = cs @ trace s" and
    cs: "\<forall>(t, b) \<in> set (zip ?ts ?bs). Scene (SetPosition (NToplevel t) (box_x b) (box_y b)) \<in> set cs \<and>
        Shell (XdgSetSize t (box_w b) (box_h b)) \<in> set cs" using place_windows_trace by blast
  have mem: "(?ts ! k, ?bs ! k) \<in> set (zip ?ts ?bs)" if "k < length ?bs" for k
    using that by (auto simp: in_set_zip)
  have "inside (?bs ! k) ?area" if "k < length ?bs" for k
    using tile_box_inside [OF assms(5,3,4)] that by simp
  moreover have "disjoint_boxes (?bs ! k) (?bs ! l)" if "k < l \<and> l < length ?bs" for k l
    using tile_box_disjoint [OF assms(5,3,4)] that by simp
  moreover have "box_h (hd ?bs) = box_h ?area - ?g * 2" if "?bs \<noteq> []"
    using that by (simp add: hd_map hd_upt tile_box_master)
  ultimately show ?thesis using tr cs mem by (intro exI [of _ ?bs] exI [of _ cs]) fastforce
qed

lemma ex_tile_ok:
  "layout_of ex_server 0 = LAYOUT_TILE" "tiled ex_env ex_server 0 = [1, 2]"
  "roomy (cfg_gap (cfg ex_server)) (usable_area (output_at ex_server 1)) (length (tiled ex_env ex_server 0))"
  "0 \<le> cfg_master_ratio (cfg ex_server)" "cfg_master_ratio (cfg ex_server) \<le> 1"
proof -
  show t: "tiled ex_env ex_server 0 = [1, 2]"
    by (simp add: tiled_def ex_server_def ex_env_def window_on_def)
  show "layout_of ex_server 0 = LAYOUT_TILE" by (simp add: layout_of_def ex_server_def)
  show "roomy (cfg_gap (cfg ex_server)) (usable_area (output_at ex_server 1)) (length (tiled ex_env ex_server 0))"
    unfolding t by (simp add: roomy_def ex_server_def screen_at_def kum_config_defaults_def KUM_GAP_def)
  show "0 \<le> cfg_master_ratio (cfg ex_server)" "cfg_master_ratio (cfg ex_server) \<le> 1"
    using flt32.fl_unit [of "11 / 20"] by (simp_all add: kum_config_defaults_def KUM_MASTER_RATIO_def)
qed

lemma tile_layout_correct_witness:
  "\<exists>s' bs cs. kum_workspace_arrange ex_env (Some 1) 0 ex_server = Some s' \<and> length bs = 2 \<and> trace s' = cs @ trace ex_server \<and>
     Shell (XdgSetSize 2 (box_w (bs ! 1)) (box_h (bs ! 1))) \<in> set cs \<and>
     inside (bs ! 1) (usable_area (output_at ex_server 1)) \<and> disjoint_boxes (bs ! 0) (bs ! 1)"
proof -
  obtain s' where s': "kum_workspace_arrange ex_env (Some 1) 0 ex_server = Some s'"
    using arrange_defined [OF ex_decor ex_windows] by blast
  let ?ts = "tiled ex_env ex_server 0" and ?area = "usable_area (output_at ex_server 1)"
  from tile_layout_correct [OF s' ex_tile_ok(1,4,5,3)] obtain bs cs where
    l: "length bs = length ?ts" and tr: "trace s' = cs @ trace ex_server" and
    p: "\<forall>k < length bs. Scene (SetPosition (NToplevel (?ts ! k)) (box_x (bs ! k)) (box_y (bs ! k))) \<in> set cs \<and>
        Shell (XdgSetSize (?ts ! k) (box_w (bs ! k)) (box_h (bs ! k))) \<in> set cs \<and> inside (bs ! k) ?area" and
    d: "\<forall>k l. k < l \<and> l < length bs \<longrightarrow> disjoint_boxes (bs ! k) (bs ! l)"
    by blast
  have l2: "length bs = 2" using l by (simp add: ex_tile_ok)
  moreover have "disjoint_boxes (bs ! 0) (bs ! 1)" using d l2 by simp
  moreover have "Shell (XdgSetSize 2 (box_w (bs ! 1)) (box_h (bs ! 1))) \<in> set cs \<and> inside (bs ! 1) ?area"
    using spec [OF p, of 1] l2 by (simp add: ex_tile_ok)
  ultimately show ?thesis using s' tr by blast
qed

lemma swap_master_unfold:
  assumes "focused s = Some f" and "layout_of s (ws_of s f) = LAYOUT_TILE" and "\<not> tl_floating (toplevel_at s f)"
    and "ws_toplevels (workspaces s (ws_of s f)) = m # ms"
  shows "kum_tiling_swap_master E s =
    (if tl_floating (toplevel_at s m) \<or> \<not> tl_mapped E m then None
     else if m = f then Some s
     else let s1 = upd_ws (ws_of s f) (\<lambda>r. r\<lparr>ws_toplevels := wl_insert_tail f (wl_remove f (ws_toplevels r))\<rparr>) s
          in arrange_opt E (output_for_workspace s1 (ws_of s f)) (ws_of s f) s1)"
  using assms by (simp add: kum_tiling_swap_master_def Let_def)

text \<open>
  \<open>Super+Return\<close> never makes the focused window the master: when another window
  is the master, the focused one is taken out of the list and put back at its end,
  so the old master stays first and the focused window becomes the last of the stack.
\<close>

theorem swap_master_goes_last:
  assumes "focused s = Some f" and "layout_of s (ws_of s f) = LAYOUT_TILE" and "\<not> tl_floating (toplevel_at s f)"
    and "ws_toplevels (workspaces s (ws_of s f)) = m # ms" and "m \<noteq> f"
    and "kum_tiling_swap_master E s = Some s'"
  shows "ws_toplevels (workspaces s' (ws_of s f)) = m # wl_remove f ms @ [f]"
proof -
  let ?s1 = "upd_ws (ws_of s f) (\<lambda>r. r\<lparr>ws_toplevels := wl_insert_tail f (wl_remove f (ws_toplevels r))\<rparr>) s"
  have "arrange_opt E (output_for_workspace ?s1 (ws_of s f)) (ws_of s f) ?s1 = Some s'"
    using assms(5,6) swap_master_unfold [OF assms(1-4)] by (simp add: Let_def split: if_splits)
  then have "workspaces s' = workspaces ?s1" by (intro quiet_fields(7) arrange_opt_quiet)
  then show ?thesis using assms(4,5) by (simp add: wl_insert_tail_def wl_remove_def)
qed

definition ex_focus2 :: kum_server where
  "ex_focus2 = ex_server\<lparr>focused := Some 2\<rparr>"

lemma ex_focus2_facts:
  "focused ex_focus2 = Some 2" "ws_of ex_focus2 2 = 0" "layout_of ex_focus2 0 = LAYOUT_TILE"
  "tl_floating (toplevel_at ex_focus2 2) = False" "ws_toplevels (workspaces ex_focus2 0) = [1, 2]"
  by (simp_all add: ex_focus2_def ex_server_def ws_of_def layout_of_def window_on_def)

lemma swap_master_goes_last_witness:
  "\<exists>s'. kum_tiling_swap_master ex_env ex_focus2 = Some s' \<and>
     ws_toplevels (workspaces s' (ws_of ex_focus2 2)) = 1 # wl_remove 2 [2] @ [2]"
proof -
  let ?s1 = "upd_ws 0 (\<lambda>r. r\<lparr>ws_toplevels := wl_insert_tail 2 (wl_remove 2 (ws_toplevels r))\<rparr>) ex_focus2"
  have f: "shown_ok ex_focus2"
    using ex_shown by (simp add: ex_focus2_def shown_ok_def server_ok_def windows_ok_def focus_ok_def outputs_ok_def
        visible_ok_def ws_of_def xws_of_def active_ws_def inj_on_def)
  have "decor_ok ex_env ?s1" using ex_decor by (simp add: decor_ok_def ex_focus2_def)
  moreover have "upd_ws 0 (\<lambda>r. r\<lparr>ws_toplevels := wl_insert_tail 2 (wl_remove 2 (ws_toplevels r))\<rparr>) ex_focus2 =
      upd_ws 0 (\<lambda>r. r\<lparr>ws_toplevels := [1, 2]\<rparr>) ex_focus2"
    by (simp add: upd_ws_def ex_focus2_facts wl_insert_tail_def wl_remove_def)
  moreover have "windows_ok (upd_ws 0 (\<lambda>r. r\<lparr>ws_toplevels := [1, 2]\<rparr>) ex_focus2)"
    by (rule shown_parts(2) [OF relist_shown [OF f]]) (simp_all add: ex_focus2_facts)
  ultimately have "windows_ok ?s1" "decor_ok ex_env ?s1" by simp_all
  moreover have "tl_floating (toplevel_at ex_focus2 1) = False" "tl_mapped ex_env 1"
    by (simp_all add: ex_focus2_def ex_server_def window_on_def ex_env_def)
  ultimately obtain s' where s': "kum_tiling_swap_master ex_env ex_focus2 = Some s'"
    using arrange_opt_defined [of ex_env ?s1] swap_master_unfold [OF ex_focus2_facts(1), of 1 "[2]" ex_env]
    by (auto simp: ex_focus2_facts Let_def)
  have "ws_toplevels (workspaces s' (ws_of ex_focus2 2)) = 1 # wl_remove 2 [2] @ [2]"
    by (rule swap_master_goes_last [OF ex_focus2_facts(1), where E = ex_env]) (simp_all add: ex_focus2_facts s')
  with s' show ?thesis by blast
qed

text \<open>
  \<open>Super+Return\<close> on a tiled workspace dereferences a null pointer whenever the
  first window of the workspace is floating or not mapped, wherever the focus is.
\<close>

theorem swap_master_null:
  assumes "focused s = Some f" and "layout_of s (ws_of s f) = LAYOUT_TILE" and "\<not> tl_floating (toplevel_at s f)"
    and "ws_toplevels (workspaces s (ws_of s f)) = m # ms"
    and "tl_floating (toplevel_at s m) \<or> \<not> tl_mapped E m"
  shows "kum_tiling_swap_master E s = None"
  using swap_master_unfold [OF assms(1-4)] assms(5) by simp

lemma swap_master_null_witness:
  "kum_tiling_swap_master (ex_env\<lparr>tl_mapped := (\<lambda>t. t = 2)\<rparr>) ex_focus2 = None"
  by (rule swap_master_null [OF ex_focus2_facts(1), of 1 "[2]"]) (simp_all add: ex_focus2_facts)

lemma json_plain_from:
  "\<forall>c \<in> set s. 32 \<le> byte c \<and> c \<noteq> QUOTE \<and> c \<noteq> BSL \<Longrightarrow> json_escape_from sz k s = take (sz - 2 - k) s"
proof (induction s arbitrary: k)
  case Nil
  then show ?case by simp
next
  case (Cons c cs)
  show ?case
  proof (cases "k + 2 < sz")
    case True
    then have "sz - 2 - k = Suc (sz - 2 - (k + 1))" by simp
    moreover have "32 \<le> byte c" "c \<noteq> QUOTE" "c \<noteq> BSL" using Cons.prems by auto
    moreover from this have "c \<noteq> NL" "c \<noteq> CR" "c \<noteq> TAB" by auto
    ultimately show ?thesis using Cons True by simp
  qed simp
qed

text \<open>
  The window title event is built in 400 bytes but sent with the length the whole
  text would have: a title of 348 or more plain characters on an output whose name
  has five characters (\<open>eDP-1\<close>, \<open>HDMI-A-1\<close>) makes the broadcast read past the end of
  its buffer.
\<close>

theorem long_title_overreads:
  assumes "List.find (\<lambda>i. active_ws s i = w) (outputs s) = Some i" and "5 \<le> length (out_name E i)"
    and "\<forall>c \<in> set title. 32 \<le> byte c \<and> c \<noteq> QUOTE \<and> c \<noteq> BSL" and "348 \<le> length title"
  shows "kum_ipc_broadcast_window_title E w title s = None"
proof -
  have "json_body 350 title = take 348 title"
    using json_plain_from [OF assms(3), of 350 0] by (simp add: json_body_def kum_json_escape_def)
  then show ?thesis
    using assms by (simp add: kum_ipc_broadcast_window_title_def send_buffer_def window_title_msg_length)
qed

lemma long_title_overreads_witness:
  "kum_ipc_broadcast_window_title (ex_env\<lparr>out_name := (\<lambda>i. ''eDP-1'')\<rparr>) 0 (replicate 400 CHR ''x'') ex_server = None"
  by (rule long_title_overreads [of _ _ 1]) (simp_all add: ex_active, simp_all add: byte_def QUOTE_def BSL_def)

text \<open>
  Resizing with the keyboard on a tiled workspace keeps the master column's share
  between a tenth and nine tenths of the screen, whatever the steps.
\<close>

theorem tiling_resize_ratio:
  assumes "kum_tiling_resize E dw dh s = Some s'" and "focused s = Some t" and "layout_of s (ws_of s t) = LAYOUT_TILE"
  shows "f32 (1 / 10) \<le> cfg_master_ratio (cfg s') \<and> cfg_master_ratio (cfg s') \<le> f32 (9 / 10)"
proof -
  let ?s1 = "s\<lparr>cfg := (cfg s)\<lparr>cfg_master_ratio :=
      clamp_ratio (f32 (cfg_master_ratio (cfg s) + f32 (f32 (of_int dw) / 2000)))\<rparr>\<rparr>"
  have "arrange_opt E (output_for_workspace ?s1 (ws_of s t)) (ws_of s t) ?s1 = Some s'"
    using assms by (simp add: kum_tiling_resize_def Let_def)
  then have "cfg s' = cfg ?s1" by (intro quiet_fields(12) arrange_opt_quiet)
  moreover have "f32 (1 / 10) \<le> f32 (9 / 10)" by (rule flt32.fl_mono) simp
  ultimately show ?thesis by (auto simp: clamp_ratio_def Let_def)
qed

lemma tiling_resize_ratio_witness:
  "\<exists>s'. kum_tiling_resize ex_env 40 0 ex_server = Some s' \<and>
     f32 (1 / 10) \<le> cfg_master_ratio (cfg s') \<and> cfg_master_ratio (cfg s') \<le> f32 (9 / 10)"
proof -
  let ?s1 = "\<lambda>r. ex_server\<lparr>cfg := (cfg ex_server)\<lparr>cfg_master_ratio := r\<rparr>\<rparr>"
  have l: "layout_of ex_server (ws_of ex_server 1) = LAYOUT_TILE" by (simp add: ex_ws_of ex_tile_ok)
  have "decor_ok ex_env (?s1 r)" "windows_ok (?s1 r)" for r
    using ex_decor shown_parts(2) [OF set_cfg_shown [OF ex_shown]] by (simp_all add: decor_ok_def)
  then have "\<exists>s'. arrange_opt ex_env out w (?s1 r) = Some s'" for out w r by (rule arrange_opt_defined)
  then have "\<exists>s'. kum_tiling_resize ex_env 40 0 ex_server = Some s'"
    using l by (simp add: kum_tiling_resize_def Let_def)
  then obtain s' where s': "kum_tiling_resize ex_env 40 0 ex_server = Some s'" by blast
  then show ?thesis using tiling_resize_ratio [OF s' _ l] by simp
qed

end
