(* ===== verification/Output.thy ===== *)
theory Output
  imports Workspace_Spec
begin

text \<open>
  Outputs: \<open>src/output.c\<close> and the output sections of the configuration applied by
  \<open>src/outputcfg.c\<close>.
\<close>

section \<open>Configured modes (\<open>outputcfg.c\<close>)\<close>

definition find_config :: "kum_server \<Rightarrow> string \<Rightarrow> kum_output_config option" where
  "find_config s name = List.find (\<lambda>c. oc_name c = name) (cfg_output_configs (cfg s))"

definition parse_transform :: "string \<Rightarrow> string" where
  "parse_transform t =
     (if t = [] then ''NORMAL''
      else if t = ''90'' then ''90''
      else if t = ''180'' then ''180''
      else if t = ''270'' then ''270''
      else if t = ''flipped'' then ''FLIPPED''
      else if t = ''flipped-90'' then ''FLIPPED_90''
      else ''NORMAL'')"

text \<open>One step of the search over the modes \<open>(width, height, refresh)\<close> of an output.\<close>

definition better_mode ::
    "kum_output_config \<Rightarrow> int \<times> int \<times> int \<Rightarrow> (int \<times> int \<times> int) option \<Rightarrow> (int \<times> int \<times> int) option" where
  "better_mode c m best =
     (let (w, h, r) = m in
      if w = oc_width c \<and> h = oc_height c then
        (case best of
           None \<Rightarrow> Some m
         | Some (_, _, br) \<Rightarrow>
             if 0 < oc_refresh c \<and> \<bar>r - oc_refresh c * 1000\<bar> < \<bar>br - oc_refresh c * 1000\<bar> then Some m else best)
      else best)"

definition choose_mode :: "kum_output_config \<Rightarrow> (int \<times> int \<times> int) list \<Rightarrow> (int \<times> int \<times> int) option" where
  "choose_mode c modes = (if 0 < oc_width c \<and> 0 < oc_height c then fold (better_mode c) modes None else None)"

definition configure_output :: "env \<Rightarrow> oid \<Rightarrow> kum_server \<Rightarrow> kum_server" where
  "configure_output E i s =
     (case find_config s (out_name E i) of
        None \<Rightarrow> s
      | Some c \<Rightarrow>
          if \<not> oc_enabled c then emit (Output (CommitDisabled i)) s
          else
            let s1 = emit (Output (CommitState i (choose_mode c (oq_modes (output_q E) i))
                       (if 0 < oc_scale c then Some (oc_scale c) else None)
                       (if oc_transform c \<noteq> [] then Some (parse_transform (oc_transform c)) else None))) s
            in if 0 \<le> oc_x c \<or> 0 \<le> oc_y c then
                 let s2 = emit (Output (LayoutAdd i (oc_x c) (oc_y c))) s1
                 in upd_output i (\<lambda>r. r\<lparr>usable_area := layout_box E (trace s2) i\<rparr>) s2
               else s1)"

definition kum_output_configure_all :: "env \<Rightarrow> kum_server \<Rightarrow> kum_server" where
  "kum_output_configure_all E s = fold (configure_output E) (outputs s) s"

section \<open>Frames\<close>

text \<open>
  Animations are ticked for every toplevel. \<open>None\<close> from the tick stands for a value
  that is not a number (an animation of zero duration ticked at its very start).
\<close>

fun tick_list :: "env \<Rightarrow> tid list \<Rightarrow> kum_server \<Rightarrow> kum_server option" where
  "tick_list E [] s = Some s"
| "tick_list E (t # ts) s =
     (let a = tl_anim (toplevel_at s t) in
      if an_done a \<or> an_type a = ANIM_NONE then tick_list E ts s
      else do {
        a1 \<leftarrow> kum_anim_tick (clock_now E) a;
        let s1 = upd_tl t (\<lambda>r. r\<lparr>tl_anim := a1\<rparr>) s;
        s2 \<leftarrow> (if an_type a1 = ANIM_OPENING \<or> an_type a1 = ANIM_CLOSING
               then Some (emit (Scene (SetEnabled (NToplevel t) (f32 (5 / 100) < an_current a1))) s1)
               else kum_border_update E t True s1);
        tick_list E ts s2 })"

definition tick_animations :: "env \<Rightarrow> kum_server \<Rightarrow> kum_server option" where
  "tick_animations E s = tick_list E (toplevels s) s"

definition output_frame :: "env \<Rightarrow> oid \<Rightarrow> kum_server \<Rightarrow> kum_server option" where
  "output_frame E i s = do {
     s1 \<leftarrow> tick_animations E s;
     Some (emits [Output (SceneOutputCommit i), Output (SendFrameDone i)] s1) }"

definition output_request_state :: "oid \<Rightarrow> kum_server \<Rightarrow> kum_server" where
  "output_request_state i s = emit (Output (CommitRequested i)) s"

section \<open>Hot-plugging\<close>

definition next_free_workspace :: "kum_server \<Rightarrow> int" where
  "next_free_workspace s =
     (case List.find (\<lambda>w. \<not> list_ex (\<lambda>i. active_ws s i = w) (outputs s)) [0..KUM_WORKSPACE_COUNT - 1] of
        Some w \<Rightarrow> w | None \<Rightarrow> 0)"

definition kum_new_output :: "env \<Rightarrow> oid \<Rightarrow> kum_server \<Rightarrow> kum_server" where
  "kum_new_output E i s =
     (let s1 = emit (Output (CommitState i (oq_preferred (output_q E) i) None None)) s;
          w = next_free_workspace s1;
          zero = \<lparr>box_x = 0, box_y = 0, box_w = 0, box_h = 0\<rparr>;
          s2 = upd_output i (\<lambda>_. \<lparr>usable_area = zero, active_workspace = w, previous_workspace = 0\<rparr>) s1;
          s3 = s2\<lparr>outputs := wl_insert i (outputs s2)\<rparr>;
          s4 = emit (Output (LayoutAddAuto i)) s3;
          s5 = upd_output i (\<lambda>r. r\<lparr>usable_area := layout_box E (trace s4) i\<rparr>) s4;
          s6 = emit (Output (SceneOutputCreate i)) s5;
          s7 = emit (Scene (SetEnabled (NWorkspace (active_ws s6 i)) True)) s6
      in kum_output_configure_all E s7)"

definition migrate_workspace :: "env \<Rightarrow> int \<Rightarrow> kum_server \<Rightarrow> kum_server option" where
  "migrate_workspace E w s =
     (case outputs s of
        [] \<Rightarrow> Some s
      | dst # _ \<Rightarrow>
          let old_active = active_ws s dst;
              s1 = upd_output dst (\<lambda>r. r\<lparr>active_workspace := w\<rparr>) s;
              s2 = emits [Scene (SetEnabled (NWorkspace old_active) False), Scene (SetEnabled (NWorkspace w) True)] s1
          in do {
            s3 \<leftarrow> (if layout_of s2 w = LAYOUT_TILE then kum_workspace_arrange E (Some dst) w s2 else Some s2);
            s4 \<leftarrow> focus_first E w s3;
            Some (kum_ipc_broadcast E (snprintf 80 (workspace_msg (out_name E dst) w)) s4) })"

definition output_destroy :: "env \<Rightarrow> oid \<Rightarrow> kum_server \<Rightarrow> kum_server option" where
  "output_destroy E i s =
     (let w = active_ws s i;
          s1 = s\<lparr>outputs := wl_remove i (outputs s)\<rparr>;
          s2 = unfocus_toplevel_on w s1
      in if outputs s2 \<noteq> [] then migrate_workspace E w s2
         else Some (emit (Scene (SetEnabled (NWorkspace w) False)) s2))"

section \<open>Lemmas: choosing a mode\<close>

definition mode_fits :: "kum_output_config \<Rightarrow> int \<times> int \<times> int \<Rightarrow> bool" where
  "mode_fits c m \<longleftrightarrow> fst m = oc_width c \<and> fst (snd m) = oc_height c"

definition refresh_miss :: "kum_output_config \<Rightarrow> int \<times> int \<times> int \<Rightarrow> int" where
  "refresh_miss c m = \<bar>snd (snd m) - oc_refresh c * 1000\<bar>"

text \<open>The search, over any kind of mode.\<close>

definition pick :: "('a \<Rightarrow> bool) \<Rightarrow> ('a \<Rightarrow> int) \<Rightarrow> bool \<Rightarrow> 'a \<Rightarrow> 'a option \<Rightarrow> 'a option" where
  "pick fits miss rated m best =
     (if fits m then (case best of None \<Rightarrow> Some m | Some b \<Rightarrow> if rated \<and> miss m < miss b then Some m else Some b)
      else best)"

definition picked :: "('a \<Rightarrow> bool) \<Rightarrow> ('a \<Rightarrow> int) \<Rightarrow> bool \<Rightarrow> 'a set \<Rightarrow> 'a option \<Rightarrow> bool" where
  "picked fits miss rated S b \<longleftrightarrow>
     (case b of None \<Rightarrow> \<forall>m \<in> S. \<not> fits m
      | Some x \<Rightarrow> x \<in> S \<and> fits x \<and> (rated \<longrightarrow> (\<forall>m \<in> S. fits m \<longrightarrow> miss x \<le> miss m)))"

lemma pick_step: "picked fits miss rated S b \<Longrightarrow> picked fits miss rated (insert m S) (pick fits miss rated m b)"
  by (cases b) (fastforce simp: pick_def picked_def)+

lemma fold_pick:
  "picked fits miss rated S b \<Longrightarrow> picked fits miss rated (S \<union> set ms) (fold (pick fits miss rated) ms b)"
proof (induction ms arbitrary: S b)
  case Nil
  then show ?case by simp
next
  case (Cons m ms)
  from Cons.IH [OF pick_step [OF Cons.prems]] show ?case by simp
qed

lemma better_mode_pick: "better_mode c = pick (mode_fits c) (refresh_miss c) (0 < oc_refresh c)"
  by (intro ext) (auto simp: better_mode_def pick_def mode_fits_def refresh_miss_def Let_def split: option.split)

lemma configure_output_fields [simp]:
  "outputs (configure_output E i s) = outputs s" "toplevels (configure_output E i s) = toplevels s"
  "xwayland_surfaces (configure_output E i s) = xwayland_surfaces s" "workspaces (configure_output E i s) = workspaces s"
  "ws_of (configure_output E i s) = ws_of s" "xws_of (configure_output E i s) = xws_of s"
  "active_ws (configure_output E i s) = active_ws s" "focused (configure_output E i s) = focused s"
  "focused_xwayland (configure_output E i s) = focused_xwayland s" "scratchpad_ws (configure_output E i s) = scratchpad_ws s"
  "locked (configure_output E i s) = locked s"
  "previous_workspace (output_at (configure_output E i s) k) = previous_workspace (output_at s k)"
  "ws_enabled w (trace (configure_output E i s)) = ws_enabled w (trace s)"
  by (auto simp: configure_output_def Let_def active_ws_def ws_of_def xws_of_def fun_eq_iff split: option.split)

lemma configure_all_fields [simp]:
  "outputs (kum_output_configure_all E s) = outputs s" "toplevels (kum_output_configure_all E s) = toplevels s"
  "xwayland_surfaces (kum_output_configure_all E s) = xwayland_surfaces s"
  "workspaces (kum_output_configure_all E s) = workspaces s"
  "ws_of (kum_output_configure_all E s) = ws_of s" "xws_of (kum_output_configure_all E s) = xws_of s"
  "active_ws (kum_output_configure_all E s) = active_ws s" "focused (kum_output_configure_all E s) = focused s"
  "focused_xwayland (kum_output_configure_all E s) = focused_xwayland s"
  "scratchpad_ws (kum_output_configure_all E s) = scratchpad_ws s" "locked (kum_output_configure_all E s) = locked s"
  "previous_workspace (output_at (kum_output_configure_all E s) k) = previous_workspace (output_at s k)"
  "ws_enabled w (trace (kum_output_configure_all E s)) = ws_enabled w (trace s)"
proof -
  have f: "outputs (fold (configure_output E) is s) = outputs s \<and> toplevels (fold (configure_output E) is s) = toplevels s \<and>
    xwayland_surfaces (fold (configure_output E) is s) = xwayland_surfaces s \<and>
    workspaces (fold (configure_output E) is s) = workspaces s \<and> ws_of (fold (configure_output E) is s) = ws_of s \<and>
    xws_of (fold (configure_output E) is s) = xws_of s \<and> active_ws (fold (configure_output E) is s) = active_ws s \<and>
    focused (fold (configure_output E) is s) = focused s \<and>
    focused_xwayland (fold (configure_output E) is s) = focused_xwayland s \<and>
    scratchpad_ws (fold (configure_output E) is s) = scratchpad_ws s \<and> locked (fold (configure_output E) is s) = locked s \<and>
    previous_workspace (output_at (fold (configure_output E) is s) k) = previous_workspace (output_at s k) \<and>
    ws_enabled w (trace (fold (configure_output E) is s)) = ws_enabled w (trace s)" for "is"
    by (induction "is" arbitrary: s) simp_all
  show "outputs (kum_output_configure_all E s) = outputs s" "toplevels (kum_output_configure_all E s) = toplevels s"
    "xwayland_surfaces (kum_output_configure_all E s) = xwayland_surfaces s"
    "workspaces (kum_output_configure_all E s) = workspaces s"
    "ws_of (kum_output_configure_all E s) = ws_of s" "xws_of (kum_output_configure_all E s) = xws_of s"
    "active_ws (kum_output_configure_all E s) = active_ws s" "focused (kum_output_configure_all E s) = focused s"
    "focused_xwayland (kum_output_configure_all E s) = focused_xwayland s"
    "scratchpad_ws (kum_output_configure_all E s) = scratchpad_ws s" "locked (kum_output_configure_all E s) = locked s"
    "previous_workspace (output_at (kum_output_configure_all E s) k) = previous_workspace (output_at s k)"
    "ws_enabled w (trace (kum_output_configure_all E s)) = ws_enabled w (trace s)"
    using f by (simp_all add: kum_output_configure_all_def)
qed

section \<open>Properties\<close>

text \<open>
  The mode chosen for a configured output has the configured size, and when a
  refresh rate is configured no mode of that size is closer to it; no mode is chosen
  only when none has that size.
\<close>

theorem choose_mode_best:
  assumes "0 < oc_width c" and "0 < oc_height c"
  shows "(case choose_mode c ms of
       None \<Rightarrow> \<forall>m \<in> set ms. \<not> mode_fits c m
     | Some m \<Rightarrow> m \<in> set ms \<and> mode_fits c m \<and>
         (0 < oc_refresh c \<longrightarrow> (\<forall>n \<in> set ms. mode_fits c n \<longrightarrow> refresh_miss c m \<le> refresh_miss c n)))"
proof -
  have "picked (mode_fits c) (refresh_miss c) (0 < oc_refresh c) (set ms) (choose_mode c ms)"
    using fold_pick [of "mode_fits c" "refresh_miss c" "0 < oc_refresh c" "{}" None ms] assms
    by (simp add: choose_mode_def better_mode_pick) (simp add: picked_def)
  then show ?thesis by (simp only: picked_def)
qed

lemma choose_mode_best_witness:
  "choose_mode \<lparr>oc_name = ''DP-1'', oc_width = 1920, oc_height = 1080, oc_refresh = 140, oc_x = 0, oc_y = 0, oc_scale = 1,
      oc_enabled = True, oc_transform = []\<rparr> [(1920, 1080, 60000), (1280, 720, 140000), (1920, 1080, 144000)] =
      Some (1920, 1080, 144000) \<and>
    refresh_miss \<lparr>oc_name = ''DP-1'', oc_width = 1920, oc_height = 1080, oc_refresh = 140, oc_x = 0, oc_y = 0, oc_scale = 1,
      oc_enabled = True, oc_transform = []\<rparr> (1920, 1080, 144000) \<le> 80000"
proof -
  let ?c = "\<lparr>oc_name = ''DP-1'', oc_width = 1920, oc_height = 1080, oc_refresh = 140, oc_x = 0, oc_y = 0, oc_scale = 1,
      oc_enabled = True, oc_transform = []\<rparr> :: kum_output_config"
  let ?ms = "[(1920, 1080, 60000), (1280, 720, 140000), (1920, 1080, 144000)]"
  have c: "choose_mode ?c ?ms = Some (1920, 1080, 144000)" by (simp add: choose_mode_def better_mode_def)
  have "0 < oc_width ?c" "0 < oc_height ?c" by simp_all
  from choose_mode_best [OF this, of ?ms]
  have "\<forall>n \<in> set ?ms. mode_fits ?c n \<longrightarrow> refresh_miss ?c (1920, 1080, 144000) \<le> refresh_miss ?c n"
    unfolding c by simp
  then have "refresh_miss ?c (1920, 1080, 144000) \<le> refresh_miss ?c (1920, 1080, 60000)"
    by (simp add: mode_fits_def)
  also have "refresh_miss ?c (1920, 1080, 60000) = 80000" by (simp add: refresh_miss_def)
  finally show ?thesis using c by simp
qed

lemma unplug_view:
  assumes "shown_ok s" and "dst # rest = wl_remove i (outputs s)" and "i \<in> set (outputs s)"
    and "u = emits [Scene (SetEnabled (NWorkspace (active_ws s dst)) False), Scene (SetEnabled (NWorkspace (active_ws s i)) True)]
        (upd_output dst (\<lambda>r. r\<lparr>active_workspace := active_ws s i\<rparr>)
          (unfocus_toplevel_on (active_ws s i) (s\<lparr>outputs := wl_remove i (outputs s)\<rparr>)))"
  shows "shown_ok u \<and> outputs u = dst # rest \<and> active_ws u dst = active_ws s i"
proof -
  have o: "outputs_ok s" and w: "windows_ok s" and f: "focus_ok s" using assms(1) by (simp_all add: shown_parts)
  have m: "set (dst # rest) = set (outputs s) - {i}" "distinct (dst # rest)"
    using o by (simp_all only: assms(2)) (auto simp: outputs_ok_def)
  have inj: "j = k" if "active_ws s j = active_ws s k" "j \<in> set (outputs s)" "k \<in> set (outputs s)" for j k
    using that o by (auto simp: outputs_ok_def inj_on_def)
  have act: "active_ws u k = (if k = dst then active_ws s i else active_ws s k)" for k
    by (simp add: assms(4) active_ws_def)
  have outs: "outputs u = dst # rest" by (simp add: assms(4) assms(2))
  have i: "i \<notin> set rest" "i \<noteq> dst" using m by auto
  have sub: "k \<in> set (outputs s) \<and> k \<noteq> i" if "k = dst \<or> k \<in> set rest" for k using m(1) that by auto
  have "outputs_ok u"
  proof -
    have "inj_on (active_ws u) (set (dst # rest))"
      by (rule inj_onI) (use inj sub i assms(3) in \<open>auto simp: act split: if_splits\<close>)
    moreover have "ws_ok (active_ws u k) \<and> ws_ok (previous_workspace (output_at u k))" if "k \<in> set (dst # rest)" for k
    proof -
      have "previous_workspace (output_at u k) = previous_workspace (output_at s k)" by (simp add: assms(4))
      then show ?thesis using o sub [of k] that assms(3) by (auto simp: act outputs_ok_def)
    qed
    ultimately show ?thesis using m(2) by (simp add: outputs_ok_def outs)
  qed
  moreover have "windows_ok u" using w by (simp add: assms(4) windows_ok_def) (simp add: ws_of_def xws_of_def)
  moreover have "focus_ok u" using f by (auto simp: assms(4) focus_ok_def unfocus_focused split: option.splits if_splits)
  moreover have "visible_ok u"
    unfolding visible_ok_def
  proof (intro allI impI)
    fix v
    assume v: "ws_ok v"
    have old: "ws_enabled v (trace s) = (\<exists>k \<in> set (outputs s). active_ws s k = v)"
      using assms(1) v by (simp add: shown_ok_def visible_ok_def)
    have tr: "ws_enabled v (trace u) =
        (if active_ws s i = v then True else if active_ws s dst = v then False else ws_enabled v (trace s))"
      by (simp add: assms(4))
    have set_o: "set (outputs s) = insert i (insert dst (set rest))" using m(1) assms(3) by auto
    have d: "active_ws s dst \<noteq> active_ws s k" if "k \<in> set rest" for k
      using inj [of dst k] that m(2) set_o by auto
    show "ws_enabled v (trace u) = (\<exists>k \<in> set (outputs u). active_ws u k = v)"
    proof -
      have "dst \<notin> set rest" using m(2) by simp
      then have "(\<exists>k \<in> set (outputs u). active_ws u k = v) = (active_ws s i = v \<or> (\<exists>k \<in> set rest. active_ws s k = v))"
        unfolding outs act by (metis list.set_intros(1,2) set_ConsD)
      moreover have "(\<exists>k \<in> set (outputs s). active_ws s k = v) =
          (active_ws s i = v \<or> active_ws s dst = v \<or> (\<exists>k \<in> set rest. active_ws s k = v))"
        by (auto simp: set_o)
      ultimately show ?thesis unfolding tr old using d by (metis (full_types))
    qed
  qed
  moreover have "ws_ok (scratchpad_ws u)" using assms(1) by (simp add: assms(4) shown_ok_def server_ok_def)
  ultimately show ?thesis using outs act [of dst] by (simp add: shown_ok_def server_ok_def)
qed

lemma unplug_last_shown:
  assumes "shown_ok s" and "outputs s = [i]"
  shows "shown_ok (emit (Scene (SetEnabled (NWorkspace (active_ws s i)) False)) (unfocus_toplevel_on (active_ws s i) (s\<lparr>outputs := []\<rparr>)))"
  using assms
  by (auto simp: shown_ok_def server_ok_def windows_ok_def focus_ok_def outputs_ok_def visible_ok_def unfocus_focused
      ws_of_def xws_of_def split: option.splits if_splits)

lemma migrate_shown:
  assumes "migrate_workspace E w s = Some s'" and "outputs s = dst # rest"
    and "shown_ok (emits [Scene (SetEnabled (NWorkspace (active_ws s dst)) False), Scene (SetEnabled (NWorkspace w) True)]
      (upd_output dst (\<lambda>r. r\<lparr>active_workspace := w\<rparr>) s))" (is "shown_ok ?u")
  shows "shown_ok s' \<and> outputs s' = outputs s \<and> active_ws s' dst = w"
proof -
  obtain s3 s4 where 3: "(if layout_of ?u w = LAYOUT_TILE then kum_workspace_arrange E (Some dst) w ?u else Some ?u) = Some s3"
    and 4: "focus_first E w s3 = Some s4"
    and s': "s' = kum_ipc_broadcast E (snprintf 80 (workspace_msg (out_name E dst) w)) s4"
    using assms(1,2) by (auto simp: migrate_workspace_def Let_def elim!: bind_SomeE)
  have q: "quiet ?u s3" using 3 arrange_quiet by (auto split: if_splits)
  have ok3: "shown_ok s3" by (rule quiet_shown [OF q assms(3)])
  have ok4: "shown_ok s4" by (rule focus_first_shown [OF 4 ok3])
  have q': "quiet s4 s'" unfolding s' by simp
  have f4: "outputs s4 = outputs s3 \<and> output_at s4 = output_at s3"
    using focus_first_effect [OF 4 shown_parts(2) [OF ok3]] by (simp add: refocus_def)
  have "shown_ok s'" by (rule quiet_shown [OF q' ok4])
  moreover have "outputs s' = outputs ?u" "output_at s' = output_at ?u"
    using f4 quiet_fields(1,2) [OF q] quiet_fields(1,2) [OF q'] by simp_all
  ultimately show ?thesis by (simp add: active_ws_def)
qed

lemma distinct_singleton: "distinct xs \<Longrightarrow> set xs = {x} \<Longrightarrow> xs = [x]"
proof (cases xs)
  case (Cons y ys)
  assume "distinct xs" and "set xs = {x}"
  then have "y = x" "x \<notin> set ys" "set ys \<subseteq> {x}" using Cons by auto
  then show ?thesis using Cons by (cases ys) auto
qed simp

lemma output_destroy_shown:
  assumes "shown_ok s" and "i \<in> set (outputs s)" and "output_destroy E i s = Some s'"
  shows "shown_ok s' \<and> outputs s' = wl_remove i (outputs s) \<and>
     (outputs s' \<noteq> [] \<longrightarrow> active_ws s' (hd (outputs s')) = active_ws s i)"
proof (cases "wl_remove i (outputs s)")
  case Nil
  have "distinct (outputs s)" using assms(1) by (simp add: shown_ok_def server_ok_def outputs_ok_def)
  moreover have "set (outputs s) = {i}" using Nil assms(2) set_wl_remove [of i "outputs s"] by auto
  ultimately have o: "outputs s = [i]"
    by (rule distinct_singleton)
  have "s' = emit (Scene (SetEnabled (NWorkspace (active_ws s i)) False)) (unfocus_toplevel_on (active_ws s i) (s\<lparr>outputs := []\<rparr>))"
    using assms(3) Nil by (simp add: output_destroy_def Let_def)
  then show ?thesis using unplug_last_shown [OF assms(1) o] Nil by simp
next
  case (Cons dst rest)
  let ?v = "unfocus_toplevel_on (active_ws s i) (s\<lparr>outputs := wl_remove i (outputs s)\<rparr>)"
  have m: "migrate_workspace E (active_ws s i) ?v = Some s'" using assms(3) Cons by (simp add: output_destroy_def Let_def)
  have a: "active_ws (unfocus_toplevel_on w (s\<lparr>outputs := os\<rparr>)) k = active_ws s k" for w os k
    by (simp add: active_ws_def)
  note u = unplug_view [OF assms(1) Cons [symmetric] assms(2) refl]
  show ?thesis using migrate_shown [OF m, of dst rest] u Cons by (simp add: a)
qed

text \<open>
  C16. Unplugging an output keeps the compositor's state consistent: the remaining
  outputs still show different workspaces and exactly those are enabled, and the
  first of them now shows the workspace of the output that went away.
\<close>

theorem unplug_output_correct:
  assumes "shown_ok s" and "i \<in> set (outputs s)" and "output_destroy E i s = Some s'"
  shows "shown_ok s' \<and> outputs s' = wl_remove i (outputs s) \<and>
     (outputs s' \<noteq> [] \<longrightarrow> active_ws s' (hd (outputs s')) = active_ws s i)"
  by (rule output_destroy_shown [OF assms])

lemma ex_unplug_defined: "\<not> Option.is_none (output_destroy ex_env 2 ex_server)"
  by code_simp

lemma unplug_output_correct_witness:
  "\<exists>s'. output_destroy ex_env 2 ex_server = Some s' \<and> shown_ok s' \<and> outputs s' = [1] \<and> active_ws s' 1 = 1"
proof -
  obtain s' where s': "output_destroy ex_env 2 ex_server = Some s'"
    using some_of_not_none [of "output_destroy ex_env 2 ex_server"] by (metis ex_unplug_defined)
  have "2 \<in> set (outputs ex_server)" by simp
  from unplug_output_correct [OF ex_shown this s'] s' show ?thesis by (auto simp: ex_active wl_remove_def)
qed

text \<open>A state where the focused window's workspace is about to be replaced.\<close>

definition ex_unfocused :: kum_server where
  "ex_unfocused = upd_ws 1 (\<lambda>_. \<lparr>ws_layout = LAYOUT_FLOATING, ws_toplevels = []\<rparr>) ex_server"

lemma ex_unfocused_defined: "\<not> Option.is_none (output_destroy ex_env 2 ex_unfocused)"
  by code_simp

text \<open>
  When an output is unplugged while a window on another output's workspace has
  the focus, and the workspace that moves over holds no window to focus, the
  remaining output changes its workspace under the focused window: the focus stays
  on a window whose workspace is no longer shown.
\<close>

theorem unplug_keeps_hidden_focus:
  assumes "outputs s = [i, dst] \<or> outputs s = [dst, i]" and "i \<noteq> dst" and "active_ws s i \<noteq> active_ws s dst"
    and "focused s = Some t" and "ws_of s t = active_ws s dst"
    and "ws_toplevels (workspaces s (active_ws s i)) = []" and "xwayland_surfaces s = []"
    and "layout_of s (active_ws s i) \<noteq> LAYOUT_TILE" and "output_destroy E i s = Some s'"
  shows "focused s' = Some t \<and> (\<forall>k \<in> set (outputs s'). active_ws s' k \<noteq> ws_of s' t)"
proof -
  let ?w = "active_ws s i"
  have o: "wl_remove i (outputs s) = [dst]" using assms(1,2) by (auto simp: wl_remove_def)
  let ?u = "emits [Scene (SetEnabled (NWorkspace (active_ws s dst)) False), Scene (SetEnabled (NWorkspace ?w) True)]
        (upd_output dst (\<lambda>r. r\<lparr>active_workspace := ?w\<rparr>) (s\<lparr>outputs := [dst]\<rparr>))"
  have "unfocus_toplevel_on ?w (s\<lparr>outputs := [dst]\<rparr>) = s\<lparr>outputs := [dst]\<rparr>"
    using assms(3-5) by (simp add: unfocus_toplevel_on_def ws_of_def)
  then have s': "s' = kum_ipc_broadcast E (snprintf 80 (workspace_msg (out_name E dst) ?w)) ?u"
    using assms(6-9) by (simp add: output_destroy_def o migrate_workspace_def Let_def active_ws_def layout_of_def focus_first_def)
  have q: "quiet ?u s'" unfolding s' by simp
  show ?thesis
    using quiet_fields(1,2,4,14) [OF q] assms(3-5) by (simp add: active_ws_def ws_of_def)
qed

lemma unplug_keeps_hidden_focus_witness:
  "\<exists>s'. output_destroy ex_env 2 ex_unfocused = Some s' \<and> focused s' = Some 1 \<and>
     (\<forall>k \<in> set (outputs s'). active_ws s' k \<noteq> ws_of s' 1)"
proof -
  obtain s' where s': "output_destroy ex_env 2 ex_unfocused = Some s'"
    using some_of_not_none [OF ex_unfocused_defined] by blast
  have "outputs ex_unfocused = [2, 1] \<or> outputs ex_unfocused = [1, 2]" "(2::nat) \<noteq> 1"
    "active_ws ex_unfocused 2 \<noteq> active_ws ex_unfocused 1" "focused ex_unfocused = Some 1"
    "ws_of ex_unfocused 1 = active_ws ex_unfocused 1"
    "ws_toplevels (workspaces ex_unfocused (active_ws ex_unfocused 2)) = []" "xwayland_surfaces ex_unfocused = []"
    "layout_of ex_unfocused (active_ws ex_unfocused 2) \<noteq> LAYOUT_TILE"
    by (simp_all add: ex_unfocused_def ex_active ex_ws_of layout_of_def)
  from unplug_keeps_hidden_focus [OF this s'] s' show ?thesis by blast
qed

text \<open>A hot-plugged output.\<close>

lemma next_free_fresh:
  assumes "outputs_ok s" and "length (outputs s) < 9"
  shows "ws_ok (next_free_workspace s) \<and> (\<forall>k \<in> set (outputs s). active_ws s k \<noteq> next_free_workspace s)"
proof -
  let ?used = "\<lambda>w. list_ex (\<lambda>i. active_ws s i = w) (outputs s)"
  have "card (active_ws s ` set (outputs s)) < 9" using card_image_le [of "set (outputs s)" "active_ws s"] card_length [of "outputs s"] assms(2)
    by (meson List.finite_set le_less_trans)
  moreover have "card {0..8 :: int} = 9" by simp
  ultimately have "\<not> {0..8} \<subseteq> active_ws s ` set (outputs s)"
    by (metis List.finite_set card_mono finite_imageI linorder_not_le)
  then obtain v where v: "v \<in> {0..8 :: int}" "v \<notin> active_ws s ` set (outputs s)" by blast
  then have "\<exists>w. List.find (\<lambda>w. \<not> ?used w) [0..KUM_WORKSPACE_COUNT - 1] = Some w"
    by (cases "List.find (\<lambda>w. \<not> ?used w) [0..KUM_WORKSPACE_COUNT - 1]")
      (auto simp: find_None_iff KUM_WORKSPACE_COUNT_def list_ex_iff)
  then obtain w where w: "List.find (\<lambda>w. \<not> ?used w) [0..KUM_WORKSPACE_COUNT - 1] = Some w" by blast
  then have "w \<in> set [0..KUM_WORKSPACE_COUNT - 1] \<and> \<not> ?used w" using find_Some_iff_mem by fastforce
  then show ?thesis using w by (auto simp: next_free_workspace_def list_ex_iff ws_ok_def)
qed

lemma new_output_effect:
  assumes "shown_ok s" and "i \<notin> set (outputs s)" and "length (outputs s) < 9"
  shows "shown_ok (kum_new_output E i s) \<and> outputs (kum_new_output E i s) = i # outputs s \<and>
     (\<forall>k \<in> set (outputs s). active_ws (kum_new_output E i s) k = active_ws s k \<and>
        active_ws s k \<noteq> active_ws (kum_new_output E i s) i)"
proof -
  let ?w = "next_free_workspace s" and ?t = "kum_new_output E i s"
  have fr: "ws_ok ?w \<and> (\<forall>k \<in> set (outputs s). active_ws s k \<noteq> ?w)"
    using next_free_fresh [OF _ assms(3)] assms(1) by (simp add: shown_parts)
  have w': "next_free_workspace (emit c s) = ?w" for c by (simp add: next_free_workspace_def)
  have act: "active_ws ?t k = (if k = i then ?w else active_ws s k)" for k
    by (simp add: kum_new_output_def Let_def w' active_ws_def [of "upd_output _ _ _"]) (simp add: active_ws_def)
  have outs: "outputs ?t = i # outputs s" by (simp add: kum_new_output_def Let_def wl_insert_def)
  have prev: "previous_workspace (output_at ?t k) = (if k = i then 0 else previous_workspace (output_at s k))" for k
    by (simp add: kum_new_output_def Let_def)
  have en: "ws_enabled v (trace ?t) = (v = ?w \<or> ws_enabled v (trace s))" for v
    by (simp add: kum_new_output_def Let_def active_ws_def w')
  have same: "toplevels ?t = toplevels s" "xwayland_surfaces ?t = xwayland_surfaces s" "workspaces ?t = workspaces s"
    "ws_of ?t = ws_of s" "xws_of ?t = xws_of s" "focused ?t = focused s" "focused_xwayland ?t = focused_xwayland s"
    "scratchpad_ws ?t = scratchpad_ws s"
    by (simp_all add: kum_new_output_def Let_def ws_of_def xws_of_def fun_eq_iff)
  have "windows_ok ?t" "focus_ok ?t" "ws_ok (scratchpad_ws ?t)"
    using assms(1) by (simp_all add: shown_ok_def server_ok_def windows_ok_def focus_ok_def same)
  moreover have "outputs_ok ?t"
    using assms(1,2) fr ws_ok_numerals(1)
    by (auto simp: shown_ok_def server_ok_def outputs_ok_def outs act prev inj_on_def)
  moreover have "visible_ok ?t"
    using assms(1,2) fr by (auto simp: shown_ok_def visible_ok_def outs act en)
  ultimately show ?thesis using assms(2) fr by (simp add: shown_ok_def server_ok_def outs act)
qed

text \<open>
  C17. A hot-plugged output gets a workspace that no other output shows (as long as
  fewer than nine outputs are connected), and the state stays consistent: the new
  output is listed, every other output keeps its workspace, and exactly the shown
  workspaces are enabled.
\<close>

theorem new_output_correct:
  assumes "shown_ok s" and "i \<notin> set (outputs s)" and "length (outputs s) < 9"
  shows "shown_ok (kum_new_output E i s) \<and> outputs (kum_new_output E i s) = i # outputs s \<and>
     (\<forall>k \<in> set (outputs s). active_ws (kum_new_output E i s) k = active_ws s k \<and>
        active_ws s k \<noteq> active_ws (kum_new_output E i s) i)"
  using new_output_effect [OF assms] .

lemma new_output_correct_witness:
  "shown_ok (kum_new_output ex_env 3 ex_server) \<and> outputs (kum_new_output ex_env 3 ex_server) = [3, 2, 1]"
  using new_output_correct [OF ex_shown, of 3 ex_env] by simp

end
