(* ===== verification/Toplevel.thy ===== *)
theory Toplevel
  imports Output
begin

text \<open>
  XDG toplevels: the rest of \<open>src/toplevel.c\<close> and \<open>kum_rules_apply\<close> of \<open>src/rules.c\<close>.
  The event handlers take the window they belong to; registering and removing
  listeners is not modelled.
\<close>

section \<open>Operations\<close>

definition toplevel_center_on_output :: "env \<Rightarrow> tid \<Rightarrow> oid option \<Rightarrow> kum_server \<Rightarrow> kum_server" where
  "toplevel_center_on_output E t out s =
     (case out of None \<Rightarrow> s
      | Some i \<Rightarrow>
          let geo = tl_geometry E t; area = usable_area (output_at s i);
              x = box_x area + (box_w area - box_w geo) sdiv 2;
              y = box_y area + (box_h area - box_h geo) sdiv 2
          in emit (Scene (SetPosition (NToplevel t) x y)) s)"

definition output_for_toplevel :: "kum_server \<Rightarrow> tid \<Rightarrow> oid option" where
  "output_for_toplevel s t = List.find (\<lambda>i. active_ws s i = ws_of s t) (outputs s)"

text \<open>The calls of \<open>kum_rules_apply\<close> that follow the move.\<close>

definition rule_calls :: "kum_rule \<Rightarrow> tid \<Rightarrow> call list" where
  "rule_calls r t =
     (if 0 < r_w r \<and> 0 < r_h r then [Shell (XdgSetSize t (r_w r) (r_h r))] else []) @
     (if r_x r \<noteq> 0 \<or> r_y r \<noteq> 0 then [Scene (SetPosition (NToplevel t) (r_x r) (r_y r))] else []) @
     (if r_fullscreen r then [Shell (XdgSetFullscreen t True)] else [])"

definition kum_rules_apply :: "env \<Rightarrow> tid \<Rightarrow> kum_server \<Rightarrow> kum_server option" where
  "kum_rules_apply E t s =
     (case matching_rule (env_fnmatch E) (tl_app_id E t) (tl_title E t) (rules s) of
        None \<Rightarrow> Some s
      | Some r \<Rightarrow> do {
          s1 \<leftarrow> (if 0 \<le> r_workspace r \<and> r_workspace r < KUM_WORKSPACE_COUNT \<and> r_workspace r \<noteq> ws_of s t
                then kum_workspace_move_toplevel E t (r_workspace r) s else Some s);
          let s2 = (if r_floating r then upd_tl t (\<lambda>w. w\<lparr>tl_floating := True\<rparr>) s1 else s1);
          Some (emits (rule_calls r t) s2) })"

definition start_anim :: "env \<Rightarrow> tid \<Rightarrow> kum_anim_type \<Rightarrow> rat \<Rightarrow> rat \<Rightarrow> rat \<Rightarrow> kum_server \<Rightarrow> kum_server" where
  "start_anim E t ty from to ms s =
     (if cfg_animations (cfg s) then upd_tl t (\<lambda>r. r\<lparr>tl_anim := kum_anim_start (clock_now E) ty from to ms (tl_anim r)\<rparr>) s
      else s)"

definition toplevel_map :: "env \<Rightarrow> tid \<Rightarrow> kum_server \<Rightarrow> kum_server option" where
  "toplevel_map E t s =
     (let out = output_for_toplevel s t; w = ws_of s t in do {
        s1 \<leftarrow> kum_border_update E t False (kum_border_create t s);
        let s2 = kum_corners_apply E t (kum_shadow_create E t s1);
        s3 \<leftarrow> (if layout_of s2 w = LAYOUT_TILE \<and> \<not> tl_floating (toplevel_at s2 t)
              then kum_workspace_arrange E out w s2
              else Some (toplevel_center_on_output E t out s2));
        let s4 = start_anim E t ANIM_OPENING 0 1 (cfg_anim_open_ms (cfg s3)) s3;
        s5 \<leftarrow> kum_rules_apply E t s4;
        s6 \<leftarrow> kum_focus_toplevel E t (tl_surface E t) s5;
        Some (kum_ipc_broadcast_occupancy E s6) })"

definition toplevel_unmap :: "env \<Rightarrow> tid \<Rightarrow> kum_server \<Rightarrow> kum_server option" where
  "toplevel_unmap E t s =
     (let out = output_for_toplevel s t;
          s1 = (if focused s = Some t then s\<lparr>focused := None\<rparr> else s);
          s2 = start_anim E t ANIM_CLOSING 1 0 (cfg_anim_close_ms (cfg s1)) s1;
          s3 = kum_corners_destroy t (kum_shadow_destroy t (kum_border_destroy t s2));
          s4 = kum_ipc_broadcast_occupancy E s3
      in if layout_of s4 (ws_of s4 t) = LAYOUT_TILE \<and> out \<noteq> None
         then kum_workspace_arrange E out (ws_of s4 t) s4 else Some s4)"

definition toplevel_commit :: "env \<Rightarrow> tid \<Rightarrow> kum_server \<Rightarrow> kum_server option" where
  "toplevel_commit E t s =
     (let w = ws_of s t; geo = tl_geometry E t;
          s1 = (if tl_initial_commit E t then emit (Shell (XdgSetSize t 0 0)) s else s)
      in do {
        s2 \<leftarrow> (if layout_of s1 w = LAYOUT_TILE \<and> \<not> tl_floating (toplevel_at s1 t)
              then kum_border_update E t (focused s1 = Some t) s1 else Some s1);
        Some (if tl_shadow_buf (toplevel_at s2 t) \<noteq> None \<and>
                 (box_w geo \<noteq> box_w (tl_last_geo (toplevel_at s2 t)) \<or> box_h geo \<noteq> box_h (tl_last_geo (toplevel_at s2 t)))
              then upd_tl t (\<lambda>r. r\<lparr>tl_last_geo := geo\<rparr>) (kum_corners_apply E t (kum_shadow_update E t s2))
              else s2) })"

definition toplevel_destroy :: "tid \<Rightarrow> kum_server \<Rightarrow> kum_server" where
  "toplevel_destroy t s =
     (let s1 = kum_corners_destroy t (kum_shadow_destroy t s);
          s2 = upd_ws (ws_of s1 t) (\<lambda>w. w\<lparr>ws_toplevels := wl_remove t (ws_toplevels w)\<rparr>) s1
      in s2\<lparr>toplevels := wl_remove t (toplevels s2)\<rparr>)"

definition kum_toplevel_begin_interactive :: "env \<Rightarrow> tid \<Rightarrow> edges \<Rightarrow> kum_server \<Rightarrow> kum_server option" where
  "kum_toplevel_begin_interactive E t edges s =
     (let w = ws_of s t; geo = tl_geometry E t in do {
        s1 \<leftarrow> (if layout_of s w = LAYOUT_TILE \<and> \<not> tl_floating (toplevel_at s t)
              then kum_workspace_arrange E (output_for_toplevel s t) w
                     (upd_tl t (\<lambda>r. r\<lparr>tl_floating := True, tl_saved_geom := geo\<rparr>) s)
              else Some s);
        let (cx, cy) = cursor_pos E (trace s1);
        let (nx, ny) = node_coords E (trace s1) (NToplevel t);
        Some (upd_tl t (\<lambda>r. r\<lparr>tl_grabbed := True, tl_resize_edges := edges, tl_grab_x := trunc cx, tl_grab_y := trunc cy,
                tl_grab_geobox := \<lparr>box_x = nx, box_y = ny, box_w = box_w geo, box_h = box_h geo\<rparr>\<rparr>) s1) })"

definition request_move :: "env \<Rightarrow> tid \<Rightarrow> kum_server \<Rightarrow> kum_server option" where
  "request_move E t s = kum_toplevel_begin_interactive E t {} s"

definition request_resize :: "env \<Rightarrow> tid \<Rightarrow> edges \<Rightarrow> kum_server \<Rightarrow> kum_server option" where
  "request_resize E t edges s = kum_toplevel_begin_interactive E t edges s"

definition request_maximize :: "env \<Rightarrow> tid \<Rightarrow> kum_server \<Rightarrow> kum_server" where
  "request_maximize E t s =
     (if \<not> tl_requested_maximized E t then
        let g = tl_saved_geom (toplevel_at s t);
            s1 = (if 0 < box_w g then emit (Shell (XdgSetSize t (box_w g) (box_h g))) s else s)
        in emit (Shell (XdgSetMaximized t False)) s1
      else case output_for_toplevel s t of None \<Rightarrow> s
      | Some i \<Rightarrow>
          let s1 = upd_tl t (\<lambda>r. r\<lparr>tl_saved_geom := tl_geometry E t\<rparr>) s; area = usable_area (output_at s1 i)
          in emits [Shell (XdgSetSize t (box_w area) (box_h area)),
                    Scene (SetPosition (NToplevel t) (box_x area) (box_y area)),
                    Shell (XdgSetMaximized t True)] s1)"

definition kum_toplevel_set_fullscreen :: "env \<Rightarrow> tid \<Rightarrow> bool \<Rightarrow> kum_server \<Rightarrow> kum_server" where
  "kum_toplevel_set_fullscreen E t fs s =
     (let s2 =
        (if fs then
           (case output_for_toplevel s t of None \<Rightarrow> s
            | Some i \<Rightarrow>
                let s1 = upd_tl t (\<lambda>r. r\<lparr>tl_saved_geom := tl_geometry E t\<rparr>) s; full = layout_box E (trace s1) i
                in emits [Shell (XdgSetSize t (box_w full) (box_h full)),
                          Scene (SetPosition (NToplevel t) (box_x full) (box_y full))] s1)
         else
           let g = tl_saved_geom (toplevel_at s t)
           in if 0 < box_w g then emit (Shell (XdgSetSize t (box_w g) (box_h g))) s else s)
      in emit (Shell (XdgSetFullscreen t fs)) s2)"

definition kum_toplevel_toggle_fullscreen :: "env \<Rightarrow> tid \<Rightarrow> kum_server \<Rightarrow> kum_server" where
  "kum_toplevel_toggle_fullscreen E t s = kum_toplevel_set_fullscreen E t (\<not> tl_current_fullscreen E t) s"

definition request_fullscreen :: "env \<Rightarrow> tid \<Rightarrow> kum_server \<Rightarrow> kum_server" where
  "request_fullscreen E t s = kum_toplevel_set_fullscreen E t (tl_requested_fullscreen E t) s"

definition no_anim :: kum_animation where
  "no_anim = \<lparr>an_type = ANIM_NONE, an_start = \<lparr>tv_sec = 0, tv_nsec = 0\<rparr>, duration_ms = 0, an_from = 0, an_to = 0,
     an_current = 0, an_done = False\<rparr>"

definition no_box :: wlr_box where
  "no_box = \<lparr>box_x = 0, box_y = 0, box_w = 0, box_h = 0\<rparr>"

text \<open>What \<open>calloc\<close> leaves in the fields that are not set.\<close>

definition blank_toplevel :: "int \<Rightarrow> kum_toplevel" where
  "blank_toplevel w =
     \<lparr>tl_focus_serial = 0, tl_border = [], tl_shadow_buf = None, tl_corner_mask_buf = None, tl_anim = no_anim,
      tl_grabbed = False, tl_floating = False, tl_workspace = w, tl_resize_edges = {}, tl_grab_x = 0, tl_grab_y = 0,
      tl_grab_geobox = no_box, tl_saved_geom = no_box, tl_last_geo = no_box\<rparr>"

definition kum_new_xdg_toplevel :: "env \<Rightarrow> tid \<Rightarrow> kum_server \<Rightarrow> kum_server" where
  "kum_new_xdg_toplevel E t s =
     (let w = (case kum_output_focused E s of None \<Rightarrow> 0 | Some i \<Rightarrow> active_ws s i);
          s1 = emit (Scene (TreeCreate (NWorkspace w) (NToplevel t))) (upd_tl t (\<lambda>_. blank_toplevel w) s);
          s2 = s1\<lparr>toplevels := wl_insert t (toplevels s1)\<rparr>
      in upd_ws w (\<lambda>r. r\<lparr>ws_toplevels := wl_insert t (ws_toplevels r)\<rparr>) s2)"

text \<open>
  A popup is put under the scene tree of its parent; \<open>parent\<close> is \<open>None\<close> when the parent
  surface is not an XDG surface, whose scene tree the code reads all the same.
\<close>

definition kum_new_xdg_popup :: "nat \<Rightarrow> node option \<Rightarrow> kum_server \<Rightarrow> kum_server option" where
  "kum_new_xdg_popup p parent s =
     (case parent of None \<Rightarrow> None | Some tree \<Rightarrow> Some (emit (Scene (TreeCreate tree (NPopup p))) s))"

definition popup_commit :: "nat \<Rightarrow> bool \<Rightarrow> kum_server \<Rightarrow> kum_server" where
  "popup_commit p initial s = (if initial then emit (Shell (XdgScheduleConfigure p)) s else s)"

section \<open>Changes that leave the window lists alone\<close>

text \<open>
  \<open>gentle s t\<close>: what the invariant reads is the same in \<open>s\<close> and \<open>t\<close>, and no workspace was
  shown or hidden. Decorations, geometry and animations only make gentle changes.
\<close>

definition gentle :: "kum_server \<Rightarrow> kum_server \<Rightarrow> bool" where
  "gentle s t \<longleftrightarrow> same_view s t \<and> (\<forall>w. ws_enabled w (trace t) = ws_enabled w (trace s)) \<and>
     locked t = locked s \<and> active_lock t = active_lock s \<and> cfg t = cfg s \<and> rules t = rules s"

named_theorems gentle

lemma gentle_refl [gentle, simp, intro]: "gentle s s"
  by (simp add: gentle_def)

lemma gentle_trans [trans]: "gentle s t \<Longrightarrow> gentle t u \<Longrightarrow> gentle s u"
  unfolding gentle_def by (metis same_view_trans)

lemma quiet_gentle: "quiet s t \<Longrightarrow> gentle s t"
  unfolding gentle_def
  using quiet_same_view quiet_fields(12,13,18,19) ws_enabled_says [OF quiet_says] by blast

lemma gentle_shown: "gentle s t \<Longrightarrow> shown_ok s \<Longrightarrow> shown_ok t"
  using same_view_server_ok [of s t]
  by (simp add: gentle_def shown_ok_def visible_ok_def active_ws_def [abs_def] same_view_def)

lemma gentle_fields:
  assumes "gentle s t"
  shows "toplevels t = toplevels s" "xwayland_surfaces t = xwayland_surfaces s" "workspaces t = workspaces s"
    "ws_of t = ws_of s" "xws_of t = xws_of s" "focused t = focused s" "focused_xwayland t = focused_xwayland s"
    "outputs t = outputs s" "output_at t = output_at s" "locked t = locked s" "cfg t = cfg s"
    "active_ws t = active_ws s" "layout_of t = layout_of s" "rules t = rules s"
  using assms by (simp_all add: gentle_def same_view_def active_ws_def [abs_def] layout_of_def [abs_def])

lemma gentle_upd_tl [gentle]: "(\<And>r. tl_workspace (f r) = tl_workspace r) \<Longrightarrow> gentle s (upd_tl t f s)"
  by (auto simp: gentle_def same_view_def ws_of_def xws_of_def fun_eq_iff)

lemma gentle_upd_xs [gentle]: "(\<And>r. xs_workspace (f r) = xs_workspace r) \<Longrightarrow> gentle s (upd_xs x f s)"
  by (auto simp: gentle_def same_view_def ws_of_def xws_of_def fun_eq_iff)

fun off_screen :: "call \<Rightarrow> bool" where
  \<comment> \<open>every call that does not show or hide a workspace\<close>
  "off_screen (Scene (SetEnabled (NWorkspace w) b)) = False"
| "off_screen c = True"

lemma ws_enabled_off_screen: "off_screen c \<Longrightarrow> ws_enabled w (c # cs) = ws_enabled w cs"
  by (cases "(w, c # cs)" rule: ws_enabled.cases) (auto elim: off_screen.elims)

lemma ws_enabled_off_screens: "list_all off_screen cs \<Longrightarrow> ws_enabled w (cs @ ds) = ws_enabled w ds"
  by (induction cs) (simp_all add: ws_enabled_off_screen)

lemma gentle_emits [gentle]: "list_all off_screen cs \<Longrightarrow> gentle s (emits cs s)"
  by (simp add: gentle_def same_view_def ws_enabled_off_screens)

lemma gentle_emit [gentle]: "off_screen c \<Longrightarrow> gentle s (emit c s)"
  by (simp add: emit_emits gentle_emits)

lemma gentle_next_node [gentle]: "gentle s (s\<lparr>next_node := n\<rparr>)"
  by (auto simp: gentle_def same_view_def ws_of_def xws_of_def fun_eq_iff)

lemma gentle_trace [gentle]: "list_all off_screen cs \<Longrightarrow> gentle s (s\<lparr>next_node := n, trace := cs @ trace s\<rparr>)"
  by (auto simp: gentle_def same_view_def ws_of_def xws_of_def fun_eq_iff ws_enabled_off_screens)

lemmas gentle_then = gentle_trans [OF _ gentle_upd_tl] gentle_trans [OF _ gentle_upd_xs]
  gentle_trans [OF _ gentle_emits] gentle_trans [OF _ gentle_emit]

lemma gentle_create_rects [gentle]: "gentle s (snd (border_create_rects n c s))"
proof -
  have "gentle s (emits (map (\<lambda>i. Scene (RectCreate n i 0 0 col)) ids) (s\<lparr>next_node := k\<rparr>))" for ids k col
    by (rule gentle_trans [OF gentle_next_node gentle_emits]) (simp add: list_all_iff)
  then show ?thesis by (simp add: border_create_rects_def Let_def del: list.map)
qed

lemma gentle_border_create [gentle]: "gentle s (kum_border_create t s)" "gentle s (kum_xwayland_border_create x s)"
  using gentle_create_rects [of s]
  by (auto simp: kum_border_create_def kum_xwayland_border_create_def split_beta intro: gentle_then)

lemma gentle_border_destroy [gentle]: "gentle s (kum_border_destroy t s)" "gentle s (kum_xwayland_border_destroy x s)"
  by (auto simp: kum_border_destroy_def kum_xwayland_border_destroy_def border_destroy_rects_def list_all_iff
      intro!: gentle_then gentle_emits)

lemma gentle_shadow_build [gentle]: "gentle s (snd (shadow_build n w h s))"
  by (auto simp: shadow_build_def Let_def fresh_node_def intro!: gentle_trans [OF gentle_next_node gentle_emits])

lemma gentle_corners_build [gentle]: "gentle s (snd (corners_build n r w h s))"
  by (auto simp: corners_build_def Let_def fresh_node_def intro!: gentle_trans [OF gentle_next_node gentle_emits])

lemma gentle_destroy_buf [gentle]: "gentle s (emits (destroy_buf b) s)"
  by (auto simp: destroy_buf_def intro!: gentle_emits split: option.split)

lemma gentle_shadow [gentle]:
  "gentle s (kum_shadow_create E t s)" "gentle s (kum_xwayland_shadow_create E x s)"
  "gentle s (kum_shadow_destroy t s)" "gentle s (kum_xwayland_shadow_destroy x s)"
  using gentle_shadow_build [of s]
  by (auto simp: kum_shadow_create_def kum_xwayland_shadow_create_def kum_shadow_destroy_def
      kum_xwayland_shadow_destroy_def split_beta intro: gentle_then gentle_destroy_buf)

lemma gentle_shadow_update [gentle]: "gentle s (kum_shadow_update E t s)"
  by (auto simp: kum_shadow_update_def intro: gentle_trans gentle_shadow)

lemma gentle_corners_destroy [gentle]: "gentle s (kum_corners_destroy t s)" "gentle s (kum_xwayland_corners_destroy x s)"
  by (auto simp: kum_corners_destroy_def kum_xwayland_corners_destroy_def intro: gentle_then gentle_destroy_buf)

lemma gentle_corners_apply [gentle]: "gentle s (kum_corners_apply E t s)" "gentle s (kum_xwayland_corners_apply E x s)"
proof -
  have "gentle s (snd (corners_build n r w h (kum_corners_destroy t s)))" for n r w h
    by (rule gentle_trans [OF gentle_corners_destroy(1) gentle_corners_build])
  then show "gentle s (kum_corners_apply E t s)"
    by (auto simp: kum_corners_apply_def Let_def split_beta intro: gentle_then)
  have "gentle s (snd (corners_build n r w h (kum_xwayland_corners_destroy x s)))" for n r w h
    by (rule gentle_trans [OF gentle_corners_destroy(2) gentle_corners_build])
  then show "gentle s (kum_xwayland_corners_apply E x s)"
    by (auto simp: kum_xwayland_corners_apply_def Let_def split_beta intro: gentle_then)
qed

lemma gentle_center [gentle]: "gentle s (toplevel_center_on_output E t out s)"
  by (auto simp: toplevel_center_on_output_def Let_def intro: gentle_emit split: option.split)

lemma gentle_start_anim [gentle]: "gentle s (start_anim E t ty a b ms s)"
  by (auto simp: start_anim_def intro: gentle_upd_tl)

lemma gentle_arrange [gentle]: "kum_workspace_arrange E out w s = Some s' \<Longrightarrow> gentle s s'"
  by (rule quiet_gentle [OF arrange_quiet])

lemma gentle_border_update [gentle]:
  "kum_border_update E t foc s = Some s' \<Longrightarrow> gentle s s'" "kum_xwayland_border_update E x foc s = Some s' \<Longrightarrow> gentle s s'"
  by (rule quiet_gentle, erule border_update_quiet) (rule quiet_gentle, erule xborder_update_quiet)

lemma gentle_occupancy [gentle]: "gentle s (kum_ipc_broadcast_occupancy E s)"
  by (rule quiet_gentle) simp

lemma gentle_rule_calls [gentle]: "gentle s (emits (rule_calls r t) s)"
  by (rule gentle_emits) (simp add: rule_calls_def)

section \<open>The handlers keep the state consistent\<close>

lemma focus_toplevel_shown:
  assumes "kum_focus_toplevel E t sf s = Some s'" and "t \<in> set (toplevels s)" and "shown_ok s"
  shows "shown_ok s'"
  using focus_toplevel_effect [OF assms(1,2)] focus_toplevel_ok [OF assms(1,2)] refocus_visible [of s s'] assms(3)
  by (simp add: shown_ok_def)

lemma focus_xwayland_shown:
  assumes "kum_focus_xwayland_surface E x s = Some s'" and "x \<in> set (xwayland_surfaces s)" and "shown_ok s"
  shows "shown_ok s'"
  using focus_xwayland_effect [OF assms(1)] focus_xwayland_ok [OF assms(1,2)] refocus_visible [of s s'] assms(3)
  by (simp add: shown_ok_def)

text \<open>What else a move leaves as it was.\<close>

lemma move_toplevel_frame:
  assumes "kum_workspace_move_toplevel E t index s = Some s'" and "shown_ok s" and "t \<in> set (toplevels s)" and "ws_ok index"
  shows "locked s' = locked s \<and> (\<forall>k. tl_floating (toplevel_at s' k) = tl_floating (toplevel_at s k))"
proof (cases "index = ws_of s t")
  case True
  then show ?thesis using assms(1) by (simp add: move_toplevel_noop)
next
  case False
  let ?m = "relink_toplevel t index s" and ?src = "output_for_workspace s (ws_of s t)"
  have m: "shown_ok ?m" by (rule relink_shown [OF assms(2-4) False])
  have f: "locked ?m = locked s \<and> (\<forall>k. tl_floating (toplevel_at ?m k) = tl_floating (toplevel_at s k))"
    by (simp add: relink_toplevel_def Let_def)
  obtain s5 s6 where 5: "settle_moved E t index ?m = Some s5" and 6: "arrange_opt E ?src (ws_of s t) s5 = Some s6"
    and 7: "hand_over_focus E t (ws_of s t) ?src s6 = Some s'"
    using assms(1,4) False by (auto simp: kum_workspace_move_toplevel_def Let_def ws_ok_def elim!: bind_SomeE)
  define u where "u = (if output_for_workspace ?m index = None then emit (Scene (SetEnabled (NToplevel t) False)) ?m else ?m)"
  have q: "quiet u s6" using settle_moved_quiet [OF 5, folded u_def] arrange_opt_quiet [OF 6] by (rule quiet_trans)
  have u: "shown_ok u" "locked u = locked ?m" "toplevel_at u = toplevel_at ?m"
    using m toggle_window_shown [of ?m] by (simp_all add: u_def)
  have s6: "shown_ok s6" "locked s6 = locked ?m" "toplevel_at s6 = toplevel_at ?m"
    using quiet_shown [OF q u(1)] quiet_fields(4,19) [OF q] u by simp_all
  let ?s7 = "emit (Seat KeyboardClear) (s6\<lparr>focused := None\<rparr>)"
  consider "s' = s6" | "s' = ?s7" | "focus_first E (ws_of s t) ?s7 = Some s'"
    using 7 unfolding hand_over_focus_def Let_def by (metis (full_types) option.inject)
  then show ?thesis
  proof cases
    case 3
    then show ?thesis
      using focus_first_effect [OF 3 shown_parts(2) [OF clear_focus_shown(1) [OF s6(1)]]] s6 f by (simp add: refocus_def)
  qed (use s6 f in simp_all)
qed

lemma rules_apply_frame:
  assumes "kum_rules_apply E t s = Some s'" and "shown_ok s" and "t \<in> set (toplevels s)"
  shows "locked s' = locked s \<and> (tl_floating (toplevel_at s' t) \<longleftrightarrow> tl_floating (toplevel_at s t) \<or>
     (\<exists>r. matching_rule (env_fnmatch E) (tl_app_id E t) (tl_title E t) (rules s) = Some r \<and> r_floating r))"
proof (cases "matching_rule (env_fnmatch E) (tl_app_id E t) (tl_title E t) (rules s)")
  case None
  then show ?thesis using assms by (simp add: kum_rules_apply_def)
next
  case (Some r)
  let ?go = "ws_ok (r_workspace r) \<and> r_workspace r \<noteq> ws_of s t"
  obtain s1 where 1: "(if ?go then kum_workspace_move_toplevel E t (r_workspace r) s else Some s) = Some s1"
    and s': "s' = emits (rule_calls r t) (if r_floating r then upd_tl t (\<lambda>w. w\<lparr>tl_floating := True\<rparr>) s1 else s1)"
    using assms(1) Some by (auto simp: kum_rules_apply_def ws_ok_def Let_def elim!: bind_SomeE)
  have "locked s1 = locked s \<and> (\<forall>k. tl_floating (toplevel_at s1 k) = tl_floating (toplevel_at s k))"
    using 1 move_toplevel_frame [OF _ assms(2,3), of E "r_workspace r" s1] by (cases ?go) auto
  then show ?thesis using Some by (simp add: s')
qed

text \<open>The workspace a rule asks for, when it asks for one that exists.\<close>

definition rule_target :: "kum_rule option \<Rightarrow> int \<Rightarrow> int" where
  "rule_target r w = (case r of None \<Rightarrow> w | Some r \<Rightarrow> if ws_ok (r_workspace r) then r_workspace r else w)"

lemma rules_apply_effect:
  assumes "kum_rules_apply E t s = Some s'" and "shown_ok s" and "t \<in> set (toplevels s)"
  shows "shown_ok s' \<and> set (toplevels s') = set (toplevels s) \<and> outputs s' = outputs s \<and> output_at s' = output_at s \<and>
     ws_of s' t = rule_target (matching_rule (env_fnmatch E) (tl_app_id E t) (tl_title E t) (rules s)) (ws_of s t)"
proof (cases "matching_rule (env_fnmatch E) (tl_app_id E t) (tl_title E t) (rules s)")
  case None
  then show ?thesis using assms by (simp add: kum_rules_apply_def rule_target_def)
next
  case (Some r)
  let ?go = "ws_ok (r_workspace r) \<and> r_workspace r \<noteq> ws_of s t"
  obtain s1 where 1: "(if ?go then kum_workspace_move_toplevel E t (r_workspace r) s else Some s) = Some s1"
    and s': "s' = emits (rule_calls r t) (if r_floating r then upd_tl t (\<lambda>w. w\<lparr>tl_floating := True\<rparr>) s1 else s1)"
    using assms(1) Some by (auto simp: kum_rules_apply_def ws_ok_def Let_def elim!: bind_SomeE)
  have m: "shown_ok s1 \<and> set (toplevels s1) = set (toplevels s) \<and> outputs s1 = outputs s \<and> output_at s1 = output_at s \<and>
     ws_of s1 t = rule_target (Some r) (ws_of s t)"
  proof (cases ?go)
    case True
    then show ?thesis using move_toplevel_effect [of E t "r_workspace r" s s1] 1 assms(2,3) by (simp add: rule_target_def)
  next
    case False
    then show ?thesis using 1 assms(2) by (auto simp: rule_target_def)
  qed
  have "gentle s1 (upd_tl t (\<lambda>w. w\<lparr>tl_floating := True\<rparr>) s1)" by (rule gentle_upd_tl) simp
  then have "gentle s1 s'" unfolding s' using gentle_trans [OF _ gentle_rule_calls] gentle_rule_calls by simp
  then show ?thesis using m gentle_shown [of s1 s'] by (simp add: gentle_fields Some)
qed

lemma toplevel_map_until_rules:
  assumes "toplevel_map E t s = Some s'"
  obtains u v w where "gentle s u" and "kum_rules_apply E t u = Some v"
    and "kum_focus_toplevel E t (tl_surface E t) v = Some w" and "s' = kum_ipc_broadcast_occupancy E w"
proof -
  obtain s1 s3 v w where 1: "kum_border_update E t False (kum_border_create t s) = Some s1"
    and 3: "(let s2 = kum_corners_apply E t (kum_shadow_create E t s1)
             in if layout_of s2 (ws_of s t) = LAYOUT_TILE \<and> \<not> tl_floating (toplevel_at s2 t)
                then kum_workspace_arrange E (output_for_toplevel s t) (ws_of s t) s2
                else Some (toplevel_center_on_output E t (output_for_toplevel s t) s2)) = Some s3"
    and rest: "kum_rules_apply E t (start_anim E t ANIM_OPENING 0 1 (cfg_anim_open_ms (cfg s3)) s3) = Some v"
      "kum_focus_toplevel E t (tl_surface E t) v = Some w" "s' = kum_ipc_broadcast_occupancy E w"
    using assms by (auto simp: toplevel_map_def Let_def elim!: bind_SomeE)
  have "gentle s s1" using gentle_trans [OF gentle_border_create(1) gentle_border_update(1) [OF 1]] .
  also have "gentle s1 (kum_corners_apply E t (kum_shadow_create E t s1))"
    by (rule gentle_trans [OF gentle_shadow(1) gentle_corners_apply(1)])
  also have "gentle \<dots> s3" using 3 by (auto simp: Let_def intro: gentle_arrange gentle_center split: if_splits)
  also have "gentle s3 (start_anim E t ANIM_OPENING 0 1 (cfg_anim_open_ms (cfg s3)) s3)" by (rule gentle_start_anim)
  finally show ?thesis using that rest by blast
qed

lemma toplevel_map_effect:
  assumes "toplevel_map E t s = Some s'" and "shown_ok s" and "t \<in> set (toplevels s)"
  shows "shown_ok s' \<and> set (toplevels s') = set (toplevels s) \<and> outputs s' = outputs s \<and> output_at s' = output_at s \<and>
     ws_of s' t = rule_target (matching_rule (env_fnmatch E) (tl_app_id E t) (tl_title E t) (rules s)) (ws_of s t) \<and>
     (\<forall>r. matching_rule (env_fnmatch E) (tl_app_id E t) (tl_title E t) (rules s) = Some r \<and> r_floating r \<longrightarrow>
        tl_floating (toplevel_at s' t)) \<and>
     (\<not> locked s \<and> (\<forall>tr. kb_focus E tr \<noteq> Some (tl_surface E t)) \<longrightarrow> focused s' = Some t)"
proof -
  obtain u v w where u: "gentle s u" and v: "kum_rules_apply E t u = Some v"
    and w: "kum_focus_toplevel E t (tl_surface E t) v = Some w" and s': "s' = kum_ipc_broadcast_occupancy E w"
    using assms(1) by (rule toplevel_map_until_rules)
  have q: "gentle w s'" unfolding s' by (rule gentle_occupancy)
  have q4: "toplevel_at s' = toplevel_at w" unfolding s' by (rule quiet_fields(4)) simp
  have ok: "shown_ok u" "t \<in> set (toplevels u)" using gentle_shown [OF u assms(2)] assms(3) by (simp_all add: gentle_fields [OF u])
  note e = rules_apply_effect [OF v ok]
  have t: "t \<in> set (toplevels v)" using e ok by simp
  note f = focus_toplevel_effect [OF w t]
  have "locked v = locked u" using rules_apply_frame [OF v ok] by blast
  then have l: "locked v = locked s" by (simp add: gentle_fields [OF u])
  have "shown_ok s'" using gentle_shown [OF q] focus_toplevel_shown [OF w t] e by blast
  moreover have "set (toplevels s') = set (toplevels s) \<and> outputs s' = outputs s \<and> output_at s' = output_at s"
    using f e by (simp add: refocus_def gentle_fields [OF q] gentle_fields [OF u])
  moreover have "ws_of s' t = ws_of v t" using f by (simp add: refocus_def gentle_fields [OF q])
  moreover have "focused s' = Some t" if "\<not> locked s" "\<forall>tr. kb_focus E tr \<noteq> Some (tl_surface E t)"
    using f that l by (simp add: gentle_fields [OF q])
  moreover have "tl_floating (toplevel_at s' t) = tl_floating (toplevel_at v t)" using f by (simp add: refocus_def q4)
  ultimately show ?thesis using e rules_apply_frame [OF v ok] by (simp add: gentle_fields [OF u])
qed

lemma toplevel_unmap_shown:
  assumes "toplevel_unmap E t s = Some s'" and "shown_ok s"
  shows "shown_ok s' \<and> focused s' \<noteq> Some t"
proof -
  define s1 where "s1 = (if focused s = Some t then s\<lparr>focused := None\<rparr> else s)"
  have ok1: "shown_ok s1"
    using assms(2) by (auto simp: s1_def shown_ok_def server_ok_def windows_ok_def focus_ok_def outputs_ok_def visible_ok_def
        ws_of_def xws_of_def active_ws_def [abs_def])
  let ?s2 = "start_anim E t ANIM_CLOSING 1 0 (cfg_anim_close_ms (cfg s1)) s1"
  let ?s3 = "kum_corners_destroy t (kum_shadow_destroy t (kum_border_destroy t ?s2))"
  have "gentle s1 ?s2" by (rule gentle_start_anim)
  also have "gentle ?s2 (kum_border_destroy t ?s2)" by (rule gentle_border_destroy)
  also have "gentle \<dots> (kum_shadow_destroy t (kum_border_destroy t ?s2))" by (rule gentle_shadow)
  also have "gentle \<dots> ?s3" by (rule gentle_corners_destroy)
  also have "gentle ?s3 (kum_ipc_broadcast_occupancy E ?s3)" by (rule gentle_occupancy)
  finally have g: "gentle s1 (kum_ipc_broadcast_occupancy E ?s3)" .
  have "gentle s1 s'"
    using assms(1) g gentle_trans [OF g gentle_arrange]
    by (auto simp: toplevel_unmap_def Let_def s1_def [symmetric] split: if_splits)
  then show ?thesis using gentle_shown [OF _ ok1] by (auto simp: gentle_fields s1_def)
qed

lemma toplevel_commit_gentle:
  assumes "toplevel_commit E t s = Some s'"
  shows "gentle s s'"
proof -
  let ?s1 = "if tl_initial_commit E t then emit (Shell (XdgSetSize t 0 0)) s else s"
  obtain s2 where 2: "(if layout_of ?s1 (ws_of s t) = LAYOUT_TILE \<and> \<not> tl_floating (toplevel_at ?s1 t)
      then kum_border_update E t (focused ?s1 = Some t) ?s1 else Some ?s1) = Some s2"
    and s': "s' = s2 \<or> s' = upd_tl t (\<lambda>r. r\<lparr>tl_last_geo := tl_geometry E t\<rparr>) (kum_corners_apply E t (kum_shadow_update E t s2))"
    using assms by (auto simp: toplevel_commit_def Let_def elim!: bind_SomeE split: if_splits)
  have "gentle s ?s1" by (auto intro: gentle_emit)
  also have "gentle ?s1 s2" using 2 gentle_border_update(1) by (auto split: if_splits)
  finally have g: "gentle s s2" .
  have "gentle s2 (kum_corners_apply E t (kum_shadow_update E t s2))"
    by (rule gentle_trans [OF gentle_shadow_update gentle_corners_apply(1)])
  then have "gentle s2 (upd_tl t (\<lambda>r. r\<lparr>tl_last_geo := tl_geometry E t\<rparr>) (kum_corners_apply E t (kum_shadow_update E t s2)))"
    by (rule gentle_trans [OF _ gentle_upd_tl]) simp
  then show ?thesis using s' g gentle_trans by blast
qed

lemma toplevel_destroy_shown:
  assumes "shown_ok s" and "t \<in> set (toplevels s)" and "focused s \<noteq> Some t"
  shows "shown_ok (toplevel_destroy t s) \<and> set (toplevels (toplevel_destroy t s)) = set (toplevels s) - {t}"
proof -
  define u where "u = kum_corners_destroy t (kum_shadow_destroy t s)"
  have g: "gentle s u" unfolding u_def by (rule gentle_trans [OF gentle_shadow(3) gentle_corners_destroy(1)])
  have u: "shown_ok u" "t \<in> set (toplevels u)" "focused u \<noteq> Some t"
    using gentle_shown [OF g assms(1)] assms(2,3) by (simp_all add: gentle_fields [OF g])
  have d: "toplevel_destroy t s = (upd_ws (ws_of u t) (\<lambda>w. w\<lparr>ws_toplevels := wl_remove t (ws_toplevels w)\<rparr>) u)
      \<lparr>toplevels := wl_remove t (toplevels u)\<rparr>"
    by (simp add: toplevel_destroy_def Let_def u_def)
  have [simp]: "ws_of (x\<lparr>toplevels := l\<rparr>) = ws_of x" "xws_of (x\<lparr>toplevels := l\<rparr>) = xws_of x"
    "active_ws (x\<lparr>toplevels := l\<rparr>) = active_ws x" for x l
    by (simp_all add: ws_of_def xws_of_def active_ws_def fun_eq_iff)
  have "windows_ok (toplevel_destroy t s)"
    using shown_parts(2) [OF u(1)] by (auto simp: d windows_ok_def)
  then show ?thesis
    using u by (auto simp: d shown_ok_def server_ok_def focus_ok_def outputs_ok_def visible_ok_def gentle_fields [OF g])
qed

lemma new_toplevel_shown:
  assumes "shown_ok s" and "t \<notin> set (toplevels s)"
  shows "shown_ok (kum_new_xdg_toplevel E t s) \<and> toplevels (kum_new_xdg_toplevel E t s) = t # toplevels s \<and>
     ws_of (kum_new_xdg_toplevel E t s) t = (case kum_output_focused E s of None \<Rightarrow> 0 | Some i \<Rightarrow> active_ws s i)"
proof -
  let ?w = "case kum_output_focused E s of None \<Rightarrow> 0 | Some i \<Rightarrow> active_ws s i" and ?t = "kum_new_xdg_toplevel E t s"
  have w: "ws_ok ?w"
    using assms(1) output_focused_mem [of E s]
    by (auto simp: shown_ok_def server_ok_def outputs_ok_def ws_ok_def KUM_WORKSPACE_COUNT_def split: option.split)
  have f: "toplevels ?t = t # toplevels s" "xwayland_surfaces ?t = xwayland_surfaces s" "outputs ?t = outputs s"
    "output_at ?t = output_at s" "focused ?t = focused s" "focused_xwayland ?t = focused_xwayland s"
    "scratchpad_ws ?t = scratchpad_ws s" "xws_of ?t = xws_of s" "active_ws ?t = active_ws s"
    "ws_of ?t k = (if k = t then ?w else ws_of s k)" "ws_enabled v (trace ?t) = ws_enabled v (trace s)"
    "ws_toplevels (workspaces ?t v) = (if v = ?w then t # ws_toplevels (workspaces s v) else ws_toplevels (workspaces s v))" for k v
    by (simp_all add: kum_new_xdg_toplevel_def Let_def wl_insert_def ws_of_def xws_of_def active_ws_def fun_eq_iff
        blank_toplevel_def)
  have "windows_ok ?t" using shown_parts(2) [OF assms(1)] assms(2) w by (auto simp: windows_ok_def f)
  then show ?thesis
    using assms(1) by (auto simp: f shown_ok_def server_ok_def focus_ok_def outputs_ok_def visible_ok_def)
qed

lemma begin_interactive_gentle:
  assumes "kum_toplevel_begin_interactive E t edges s = Some s'"
  shows "gentle s s'"
proof -
  let ?u = "upd_tl t (\<lambda>r. r\<lparr>tl_floating := True, tl_saved_geom := tl_geometry E t\<rparr>) s"
  obtain s1 f where 1: "(if layout_of s (ws_of s t) = LAYOUT_TILE \<and> \<not> tl_floating (toplevel_at s t)
      then kum_workspace_arrange E (output_for_toplevel s t) (ws_of s t) ?u else Some s) = Some s1"
    and s': "s' = upd_tl t f s1" "\<And>r. tl_workspace (f r) = tl_workspace r"
    using assms by (auto simp: kum_toplevel_begin_interactive_def Let_def elim!: bind_SomeE split: prod.splits)
  have u: "gentle s ?u" by (rule gentle_upd_tl) simp
  have "gentle s s1" using 1 gentle_trans [OF u gentle_arrange] by (auto split: if_splits)
  then show ?thesis unfolding s'(1) by (rule gentle_trans [OF _ gentle_upd_tl]) (rule s'(2))
qed

lemma request_maximize_gentle: "gentle s (request_maximize E t s)"
  by (auto simp: request_maximize_def Let_def emit_emits
      intro!: gentle_emits gentle_trans [OF gentle_upd_tl gentle_emits] split: option.split)

lemma set_fullscreen_gentle: "gentle s (kum_toplevel_set_fullscreen E t fs s)"
  by (auto simp: kum_toplevel_set_fullscreen_def Let_def emit_emits
      intro!: gentle_emits gentle_trans [OF gentle_upd_tl gentle_emits] split: option.split)

section \<open>Properties\<close>

text \<open>
  Mapping a window applies the first rule that matches its application id and
  title: it ends up on the rule's workspace (or stays where it was), floats if the
  rule says so, gets the focus unless the session is locked, and the window lists,
  the focus and the screens stay consistent.
\<close>

theorem map_applies_rules:
  assumes "toplevel_map E t s = Some s'" and "shown_ok s" and "t \<in> set (toplevels s)"
  shows "shown_ok s' \<and> set (toplevels s') = set (toplevels s) \<and>
     ws_of s' t = rule_target (matching_rule (env_fnmatch E) (tl_app_id E t) (tl_title E t) (rules s)) (ws_of s t) \<and>
     (\<forall>r. matching_rule (env_fnmatch E) (tl_app_id E t) (tl_title E t) (rules s) = Some r \<and> r_floating r \<longrightarrow>
        tl_floating (toplevel_at s' t)) \<and>
     (\<not> locked s \<and> (\<forall>tr. kb_focus E tr \<noteq> Some (tl_surface E t)) \<longrightarrow> focused s' = Some t)"
  using toplevel_map_effect [OF assms] by blast

definition ex_rule :: kum_rule where
  "ex_rule = \<lparr>r_app_id = ''foot'', r_title = [], r_workspace = 5, r_floating = True, r_fullscreen = False,
     r_w = 0, r_h = 0, r_x = 0, r_y = 0\<rparr>"

definition ex_ruled :: kum_server where
  "ex_ruled = ex_server\<lparr>rules := [ex_rule]\<rparr>"

lemma ex_ruled_shown: "shown_ok ex_ruled"
  using ex_shown
  by (simp add: ex_ruled_def shown_ok_def server_ok_def windows_ok_def focus_ok_def outputs_ok_def visible_ok_def
      ws_of_def xws_of_def active_ws_def [abs_def])

lemma ex_ruled_match:
  "matching_rule (env_fnmatch ex_env) (tl_app_id ex_env t) (tl_title ex_env t) (rules ex_ruled) = Some ex_rule"
  by (simp add: matching_rule_def rule_matches_def ex_ruled_def ex_rule_def ex_env_def)

lemma ex_map_defined: "\<exists>s'. toplevel_map ex_env 3 ex_ruled = Some s'"
  by (rule some_of_not_none) code_simp

lemma map_applies_rules_witness:
  "\<exists>s'. toplevel_map ex_env 3 ex_ruled = Some s' \<and> shown_ok s' \<and> ws_of s' 3 = 5 \<and> tl_floating (toplevel_at s' 3)"
proof -
  obtain s' where s': "toplevel_map ex_env 3 ex_ruled = Some s'" using ex_map_defined by blast
  have "3 \<in> set (toplevels ex_ruled)" by (simp add: ex_ruled_def)
  from map_applies_rules [OF s' ex_ruled_shown this] s' show ?thesis
    by (auto simp: ex_ruled_match rule_target_def ws_ok_def KUM_WORKSPACE_COUNT_def ex_rule_def)
qed

text \<open>
  A rule that sends a new window to a workspace no output shows still gives it the
  keyboard focus: the user types into a window that is not on any screen.
\<close>

theorem rule_focuses_hidden:
  assumes "toplevel_map E t s = Some s'" and "shown_ok s" and "t \<in> set (toplevels s)" and "\<not> locked s"
    and "matching_rule (env_fnmatch E) (tl_app_id E t) (tl_title E t) (rules s) = Some r" and "ws_ok (r_workspace r)"
    and "\<forall>i \<in> set (outputs s). active_ws s i \<noteq> r_workspace r" and "\<forall>tr. kb_focus E tr \<noteq> Some (tl_surface E t)"
  shows "focused s' = Some t \<and> \<not> ws_enabled (ws_of s' t) (trace s')"
proof -
  have e: "shown_ok s' \<and> outputs s' = outputs s \<and> output_at s' = output_at s \<and> ws_of s' t = r_workspace r \<and> focused s' = Some t"
    using toplevel_map_effect [OF assms(1-3)] assms(4-8) by (simp add: rule_target_def)
  then show ?thesis using assms(6,7) by (auto simp: shown_ok_def visible_ok_def active_ws_def)
qed

lemma rule_focuses_hidden_witness:
  "\<exists>s'. toplevel_map ex_env 3 ex_ruled = Some s' \<and> focused s' = Some 3 \<and> \<not> ws_enabled (ws_of s' 3) (trace s')"
proof -
  obtain s' where s': "toplevel_map ex_env 3 ex_ruled = Some s'" using ex_map_defined by blast
  have a: "active_ws ex_ruled i = active_ws ex_server i" for i by (simp add: ex_ruled_def active_ws_def)
  have "3 \<in> set (toplevels ex_ruled)" "\<not> locked ex_ruled" "ws_ok (r_workspace ex_rule)"
    "\<forall>i \<in> set (outputs ex_ruled). active_ws ex_ruled i \<noteq> r_workspace ex_rule"
    "\<forall>tr. kb_focus ex_env tr \<noteq> Some (tl_surface ex_env 3)"
    by (simp_all add: a ex_active ex_rule_def ws_ok_def KUM_WORKSPACE_COUNT_def ex_env_def) (simp_all add: ex_ruled_def)
  from rule_focuses_hidden [OF s' ex_ruled_shown this(1,2) ex_ruled_match this(3-5)] s' show ?thesis by blast
qed

lemma decor_fields [simp]:
  "tl_floating (toplevel_at (kum_border_create t s) k) = tl_floating (toplevel_at s k)"
  "tl_floating (toplevel_at (kum_shadow_create E t s) k) = tl_floating (toplevel_at s k)"
  "tl_floating (toplevel_at (kum_corners_apply E t s) k) = tl_floating (toplevel_at s k)"
  by (simp_all add: kum_border_create_def kum_shadow_create_def kum_corners_apply_def kum_corners_destroy_def
      border_create_rects_def shadow_build_def corners_build_def fresh_node_def Let_def)

text \<open>
  C40. A window that maps on a tiled workspace no output shows takes the compositor
  down: the handler hands a null output to the layout, which reads its usable area.
\<close>

theorem map_hidden_tiled_crashes:
  assumes "layout_of s (ws_of s t) = LAYOUT_TILE" and "\<not> tl_floating (toplevel_at s t)"
    and "\<forall>i \<in> set (outputs s). active_ws s i \<noteq> ws_of s t"
  shows "toplevel_map E t s = None"
proof -
  have o: "output_for_toplevel s t = None" using assms(3) by (simp add: output_for_toplevel_def find_None_iff)
  have "(if layout_of s2 (ws_of s t) = LAYOUT_TILE \<and> \<not> tl_floating (toplevel_at s2 t)
        then kum_workspace_arrange E None (ws_of s t) s2 else Some (toplevel_center_on_output E t None s2)) = None"
    if "kum_border_update E t False (kum_border_create t s) = Some s1"
      and "s2 = kum_corners_apply E t (kum_shadow_create E t s1)" for s1 s2
  proof -
    have "gentle s s2"
      using gentle_trans [OF gentle_trans [OF gentle_trans [OF gentle_border_create(1) gentle_border_update(1) [OF that(1)]]
          gentle_shadow(1)] gentle_corners_apply(1)] that(2) by simp
    moreover have "tl_floating (toplevel_at s2 t) = tl_floating (toplevel_at s t)"
      using quiet_fields(4) [OF border_update_quiet [OF that(1)]] by (simp add: that(2))
    ultimately show ?thesis using assms(1,2) by (simp add: gentle_fields kum_workspace_arrange_def)
  qed
  then show ?thesis by (cases "kum_border_update E t False (kum_border_create t s)") (simp_all add: toplevel_map_def Let_def o)
qed

lemma map_hidden_tiled_crashes_witness:
  "toplevel_map ex_env 3 (upd_ws 4 (\<lambda>w. w\<lparr>ws_layout := LAYOUT_TILE\<rparr>) (upd_tl 3 (\<lambda>r. r\<lparr>tl_workspace := 4\<rparr>) ex_server)) = None"
proof -
  let ?s = "upd_ws 4 (\<lambda>w. w\<lparr>ws_layout := LAYOUT_TILE\<rparr>) (upd_tl 3 (\<lambda>r. r\<lparr>tl_workspace := 4\<rparr>) ex_server)"
  have "active_ws ?s i = active_ws ex_server i" for i by (simp add: active_ws_def)
  then have "layout_of ?s (ws_of ?s 3) = LAYOUT_TILE" "\<not> tl_floating (toplevel_at ?s 3)"
    "\<forall>i \<in> set (outputs ?s). active_ws ?s i \<noteq> ws_of ?s 3"
    by (simp_all add: ex_active layout_of_def ws_of_def) (simp add: ex_server_def window_on_def)
  then show ?thesis by (rule map_hidden_tiled_crashes)
qed

text \<open>
  Entering full screen fills the output that shows the window, and leaving it asks
  the window for the size it had before.
\<close>

theorem fullscreen_restores_size:
  assumes "output_for_toplevel s t = Some i" and "0 < box_w (tl_geometry E t)"
    and "s1 = kum_toplevel_set_fullscreen E t True s" and "s2 = kum_toplevel_set_fullscreen E' t False s1"
  shows "trace s1 = Shell (XdgSetFullscreen t True) #
       Scene (SetPosition (NToplevel t) (box_x (layout_box E (trace s) i)) (box_y (layout_box E (trace s) i))) #
       Shell (XdgSetSize t (box_w (layout_box E (trace s) i)) (box_h (layout_box E (trace s) i))) # trace s \<and>
     trace s2 = Shell (XdgSetFullscreen t False) #
       Shell (XdgSetSize t (box_w (tl_geometry E t)) (box_h (tl_geometry E t))) # trace s1"
  using assms(1,2) unfolding assms(3,4) by (simp add: kum_toplevel_set_fullscreen_def Let_def)

lemma fullscreen_restores_size_witness:
  "trace (kum_toplevel_set_fullscreen ex_env 1 False
      (kum_toplevel_set_fullscreen (ex_env\<lparr>tl_geometry := \<lambda>t. \<lparr>box_x = 0, box_y = 0, box_w = 640, box_h = 480\<rparr>\<rparr>) 1 True ex_server)) =
     Shell (XdgSetFullscreen 1 False) # Shell (XdgSetSize 1 640 480) # Shell (XdgSetFullscreen 1 True) #
     Scene (SetPosition (NToplevel 1) 0 0) # Shell (XdgSetSize 1 1920 1080) # trace ex_server"
proof -
  let ?E = "ex_env\<lparr>tl_geometry := \<lambda>t. \<lparr>box_x = 0, box_y = 0, box_w = 640, box_h = 480\<rparr>\<rparr>"
  have o: "output_for_toplevel ex_server 1 = Some 1" by (simp add: output_for_toplevel_def ex_active ex_ws_of)
  have "0 < box_w (tl_geometry ?E 1)" by simp
  from fullscreen_restores_size [OF o this refl refl, of ex_env] show ?thesis by (simp add: ex_env_def)
qed

end
