(* ===== verification/Xwayland.thy ===== *)
theory Xwayland
  imports Toplevel
begin

text \<open>
  X11 windows: \<open>src/xwayland.c\<close> (but for the start of the X server) and
  \<open>kum_rules_apply_xwayland\<close> of \<open>src/rules.c\<close>. An X11 window has a Wayland surface only
  between its \<open>associate\<close> and \<open>dissociate\<close> events (\<open>xw_surface\<close>).
\<close>

section \<open>Operations\<close>

definition output_of_xws :: "kum_server \<Rightarrow> xid \<Rightarrow> oid option" where
  "output_of_xws s x = List.find (\<lambda>i. active_ws s i = xws_of s x) (outputs s)"

text \<open>
  The common shape of maximizing and going full screen: save the geometry and fill
  \<open>area\<close>, the box of the output that shows the window, or go back to what was saved.
\<close>

definition fill_or_restore :: "env \<Rightarrow> xid \<Rightarrow> bool \<Rightarrow> (oid \<Rightarrow> wlr_box) \<Rightarrow> kum_server \<Rightarrow> kum_server" where
  "fill_or_restore E x want area s =
     (if want then
        (case output_of_xws s x of None \<Rightarrow> s
         | Some i \<Rightarrow>
             let a = area i
             in emits [Shell (XwConfigure x (box_x a) (box_y a) (box_w a) (box_h a)),
                       Scene (SetPosition (NXwayland x) (box_x a) (box_y a))]
                  (upd_xs x (\<lambda>r. r\<lparr>xs_saved_geom := xw_box E (trace s) x\<rparr>) s))
      else
        let g = xs_saved_geom (xsurface_at s x)
        in if 0 < box_w g then
             emits [Shell (XwConfigure x (box_x g) (box_y g) (box_w g) (box_h g)),
                    Scene (SetPosition (NXwayland x) (box_x g) (box_y g))] s
           else s)"

definition xwayland_set_maximized :: "env \<Rightarrow> xid \<Rightarrow> bool \<Rightarrow> kum_server \<Rightarrow> kum_server" where
  "xwayland_set_maximized E x want s =
     emit (Shell (XwSetMaximized x want)) (fill_or_restore E x want (\<lambda>i. usable_area (output_at s i)) s)"

definition xwayland_request_maximize :: "env \<Rightarrow> xid \<Rightarrow> kum_server \<Rightarrow> kum_server" where
  "xwayland_request_maximize E x s = xwayland_set_maximized E x (xw_maximized E x) s"

definition kum_xwayland_set_fullscreen :: "env \<Rightarrow> xid \<Rightarrow> bool \<Rightarrow> kum_server \<Rightarrow> kum_server" where
  "kum_xwayland_set_fullscreen E x fs s =
     emit (Shell (XwSetFullscreen x fs)) (fill_or_restore E x fs (layout_box E (trace s)) s)"

definition kum_xwayland_toggle_fullscreen :: "env \<Rightarrow> xid \<Rightarrow> kum_server \<Rightarrow> kum_server" where
  "kum_xwayland_toggle_fullscreen E x s = kum_xwayland_set_fullscreen E x (\<not> xw_fullscreen E x) s"

definition xwayland_request_fullscreen :: "env \<Rightarrow> xid \<Rightarrow> kum_server \<Rightarrow> kum_server" where
  "xwayland_request_fullscreen E x s = kum_xwayland_set_fullscreen E x (xw_fullscreen E x) s"

text \<open>The geometry a rule gives an X11 window.\<close>

definition rule_box :: "kum_rule \<Rightarrow> wlr_box \<Rightarrow> wlr_box" where
  "rule_box r b =
     \<lparr>box_x = (if r_x r \<noteq> 0 then r_x r else box_x b), box_y = (if r_y r \<noteq> 0 then r_y r else box_y b),
      box_w = (if 0 < r_w r then r_w r else box_w b), box_h = (if 0 < r_h r then r_h r else box_h b)\<rparr>"

definition kum_rules_apply_xwayland :: "env \<Rightarrow> xid \<Rightarrow> kum_server \<Rightarrow> kum_server" where
  "kum_rules_apply_xwayland E x s =
     (case matching_rule (env_fnmatch E) (xw_class E x) (xw_title E x) (rules s) of
        None \<Rightarrow> s
      | Some r \<Rightarrow>
          let s1 = (if 0 \<le> r_workspace r \<and> r_workspace r < KUM_WORKSPACE_COUNT \<and> r_workspace r \<noteq> xws_of s x
                    then kum_workspace_move_xwayland_surface E x (r_workspace r) s else s);
              b = rule_box r (xw_box E (trace s1) x);
              s2 = (if 0 < r_w r \<or> 0 < r_h r \<or> r_x r \<noteq> 0 \<or> r_y r \<noteq> 0
                    then emits [Shell (XwConfigure x (box_x b) (box_y b) (box_w b) (box_h b)),
                                Scene (SetPosition (NXwayland x) (box_x b) (box_y b))] s1
                    else s1)
          in if r_fullscreen r then kum_xwayland_set_fullscreen E x True s2 else s2)"

definition xw_start_anim :: "env \<Rightarrow> xid \<Rightarrow> kum_anim_type \<Rightarrow> rat \<Rightarrow> rat \<Rightarrow> rat \<Rightarrow> kum_server \<Rightarrow> kum_server" where
  "xw_start_anim E x ty from to ms s =
     upd_xs x (\<lambda>r. r\<lparr>xs_anim := kum_anim_start (clock_now E) ty from to ms (xs_anim r)\<rparr>) s"

text \<open>The window is centred on the first output of the list, whichever workspace it is on.\<close>

definition center_on_first :: "env \<Rightarrow> xid \<Rightarrow> kum_server \<Rightarrow> kum_server" where
  "center_on_first E x s =
     (case outputs s of [] \<Rightarrow> s
      | i # _ \<Rightarrow>
          let obox = layout_box E (trace s) i; b = xw_box E (trace s) x
          in emit (Scene (SetPosition (NXwayland x)
               (box_x obox + (box_w obox - box_w b) sdiv 2) (box_y obox + (box_h obox - box_h b) sdiv 2))) s)"

definition xwayland_surface_map :: "env \<Rightarrow> xid \<Rightarrow> kum_server \<Rightarrow> kum_server option" where
  "xwayland_surface_map E x s =
     (let s1 = center_on_first E x s;
          s2 = kum_rules_apply_xwayland E x s1
      in do {
        s3 \<leftarrow> kum_xwayland_border_update E x False (kum_xwayland_border_create x s2);
        let c = xw_box E (trace s3) x;
        let s4 = upd_xs x (\<lambda>r. r\<lparr>xs_last_width := box_w c, xs_last_height := box_h c\<rparr>) s3;
        let s5 = kum_xwayland_corners_apply E x (kum_xwayland_shadow_create E x s4);
        let s6 = xw_start_anim E x ANIM_OPENING 0 1 (cfg_anim_open_ms (cfg s5)) s5;
        Some (kum_ipc_broadcast_occupancy E (emit (Scene (SetEnabled (NXwayland x) True)) s6)) })"

definition xwayland_surface_unmap :: "env \<Rightarrow> xid \<Rightarrow> kum_server \<Rightarrow> kum_server" where
  "xwayland_surface_unmap E x s =
     (let s1 = (if focused_xwayland s = Some x then s\<lparr>focused_xwayland := None\<rparr> else s);
          s2 = xw_start_anim E x ANIM_CLOSING 1 0 (cfg_anim_close_ms (cfg s1)) s1;
          s3 = kum_ipc_broadcast_occupancy E s2
      in kum_xwayland_corners_destroy x (kum_xwayland_shadow_destroy x (kum_xwayland_border_destroy x s3)))"

definition xwayland_surface_commit :: "env \<Rightarrow> xid \<Rightarrow> kum_server \<Rightarrow> kum_server option" where
  "xwayland_surface_commit E x s =
     (if xw_surface E x = None then None
      else if \<not> xw_mapped E x then Some s
      else do {
        s1 \<leftarrow> kum_xwayland_border_update E x (focused_xwayland s = Some x) s;
        let w = box_w (xw_box E (trace s1) x);
        let h = box_h (xw_box E (trace s1) x);
        Some (if w \<noteq> xs_last_width (xsurface_at s1 x) \<or> h \<noteq> xs_last_height (xsurface_at s1 x)
              then kum_xwayland_corners_apply E x (kum_xwayland_shadow_create E x
                     (upd_xs x (\<lambda>r. r\<lparr>xs_last_width := w, xs_last_height := h\<rparr>) s1))
              else s1) })"

definition xwayland_surface_destroy :: "xid \<Rightarrow> kum_server \<Rightarrow> kum_server" where
  "xwayland_surface_destroy x s =
     (let s1 = (if focused_xwayland s = Some x then s\<lparr>focused_xwayland := None\<rparr> else s);
          s2 = kum_xwayland_corners_destroy x (kum_xwayland_shadow_destroy x (kum_xwayland_border_destroy x s1))
      in s2\<lparr>xwayland_surfaces := wl_remove x (xwayland_surfaces s2)\<rparr>)"

definition kum_xwayland_begin_interactive :: "env \<Rightarrow> xid \<Rightarrow> edges \<Rightarrow> kum_server \<Rightarrow> kum_server" where
  "kum_xwayland_begin_interactive E x edges s =
     (let (cx, cy) = cursor_pos E (trace s); (nx, ny) = node_coords E (trace s) (NXwayland x); b = xw_box E (trace s) x
      in upd_xs x (\<lambda>r. r\<lparr>xs_grabbed := True, xs_resize_edges := edges, xs_grab_x := trunc cx, xs_grab_y := trunc cy,
           xs_grab_geobox := \<lparr>box_x = nx, box_y = ny, box_w = box_w b, box_h = box_h b\<rparr>\<rparr>) s)"

definition xwayland_request_move :: "env \<Rightarrow> xid \<Rightarrow> kum_server \<Rightarrow> kum_server" where
  "xwayland_request_move E x s = kum_xwayland_begin_interactive E x {} s"

definition xwayland_request_resize :: "env \<Rightarrow> xid \<Rightarrow> edges \<Rightarrow> kum_server \<Rightarrow> kum_server" where
  "xwayland_request_resize E x edges s = kum_xwayland_begin_interactive E x edges s"

definition xwayland_surface_associate :: "env \<Rightarrow> xid \<Rightarrow> kum_server \<Rightarrow> kum_server option" where
  "xwayland_surface_associate E x s =
     (case xw_surface E x of None \<Rightarrow> None
      | Some sf \<Rightarrow> Some (upd_xs x (\<lambda>r. r\<lparr>xs_associated := True\<rparr>)
                     (emit (Scene (SurfaceCreate (NXwayland x) (NXSurface x) sf)) s)))"

definition xwayland_surface_dissociate :: "xid \<Rightarrow> kum_server \<Rightarrow> kum_server" where
  "xwayland_surface_dissociate x s =
     (if \<not> xs_associated (xsurface_at s x) then s else upd_xs x (\<lambda>r. r\<lparr>xs_associated := False\<rparr>) s)"

definition new_xsurface :: "int \<Rightarrow> kum_xwayland_surface" where
  "new_xsurface w =
     \<lparr>xs_focus_serial = 0, xs_border = [], xs_shadow_buf = None, xs_corner_mask_buf = None, xs_anim = no_anim,
      xs_workspace = w, xs_grabbed = False, xs_resize_edges = {}, xs_grab_x = 0, xs_grab_y = 0,
      xs_grab_geobox = no_box, xs_saved_geom = no_box, xs_last_width = 0, xs_last_height = 0, xs_associated = False\<rparr>"

definition handle_new_xwayland_surface :: "env \<Rightarrow> xid \<Rightarrow> kum_server \<Rightarrow> kum_server" where
  "handle_new_xwayland_surface E x s =
     (let w = (case kum_output_focused E s of None \<Rightarrow> 0 | Some i \<Rightarrow> active_ws s i);
          s1 = emit (Scene (TreeCreate (NWorkspace w) (NXwayland x))) (upd_xs x (\<lambda>_. new_xsurface w) s)
      in s1\<lparr>xwayland_surfaces := wl_insert x (xwayland_surfaces s1)\<rparr>)"

section \<open>The handlers keep the state consistent\<close>

lemma fill_or_restore_gentle [gentle]: "gentle s (fill_or_restore E x want area s)"
  by (auto simp: fill_or_restore_def Let_def
      intro!: gentle_emits gentle_trans [OF gentle_upd_xs gentle_emits] split: option.split)

lemma xw_fullscreen_gentle [gentle]: "gentle s (kum_xwayland_set_fullscreen E x fs s)"
  unfolding kum_xwayland_set_fullscreen_def by (rule gentle_trans [OF fill_or_restore_gentle gentle_emit]) simp

lemma xw_maximized_gentle [gentle]: "gentle s (xwayland_set_maximized E x want s)"
  unfolding xwayland_set_maximized_def by (rule gentle_trans [OF fill_or_restore_gentle gentle_emit]) simp

lemma center_on_first_gentle [gentle]: "gentle s (center_on_first E x s)"
  by (auto simp: center_on_first_def Let_def intro: gentle_emit split: list.split)

lemma xw_start_anim_gentle [gentle]: "gentle s (xw_start_anim E x ty a b ms s)"
  unfolding xw_start_anim_def by (rule gentle_upd_xs) simp

lemma xw_interactive_gentle [gentle]: "gentle s (kum_xwayland_begin_interactive E x edges s)"
  by (auto simp: kum_xwayland_begin_interactive_def Let_def intro: gentle_upd_xs split: prod.split)

lemma dissociate_gentle [gentle]: "gentle s (xwayland_surface_dissociate x s)"
  by (auto simp: xwayland_surface_dissociate_def intro: gentle_upd_xs)

lemma associate_gentle [gentle]: "xwayland_surface_associate E x s = Some s' \<Longrightarrow> gentle s s'"
  by (auto simp: xwayland_surface_associate_def intro!: gentle_trans [OF gentle_emit gentle_upd_xs] split: option.splits)

lemma move_xwayland_effect:
  assumes "shown_ok s" and "x \<in> set (xwayland_surfaces s)"
  shows "xws_of (kum_workspace_move_xwayland_surface E x index s) x = (if ws_ok index then index else xws_of s x) \<and>
     xwayland_surfaces (kum_workspace_move_xwayland_surface E x index s) = xwayland_surfaces s"
  by (auto simp: kum_workspace_move_xwayland_surface_def ws_ok_def Let_def xws_of_def)

lemma xw_rules_apply_effect:
  assumes "shown_ok s" and "x \<in> set (xwayland_surfaces s)"
  shows "shown_ok (kum_rules_apply_xwayland E x s) \<and>
     xwayland_surfaces (kum_rules_apply_xwayland E x s) = xwayland_surfaces s \<and>
     xws_of (kum_rules_apply_xwayland E x s) x =
       rule_target (matching_rule (env_fnmatch E) (xw_class E x) (xw_title E x) (rules s)) (xws_of s x)"
proof (cases "matching_rule (env_fnmatch E) (xw_class E x) (xw_title E x) (rules s)")
  case None
  then show ?thesis using assms by (simp add: kum_rules_apply_xwayland_def rule_target_def)
next
  case (Some r)
  define s1 where "s1 = (if ws_ok (r_workspace r) \<and> r_workspace r \<noteq> xws_of s x
      then kum_workspace_move_xwayland_surface E x (r_workspace r) s else s)"
  have 1: "shown_ok s1 \<and> xwayland_surfaces s1 = xwayland_surfaces s \<and> xws_of s1 x = rule_target (Some r) (xws_of s x)"
    using move_xwayland_shown [OF assms] move_xwayland_effect [OF assms, of E "r_workspace r"] assms(1)
    by (auto simp: s1_def rule_target_def)
  let ?b = "rule_box r (xw_box E (trace s1) x)"
  let ?s2 = "if 0 < r_w r \<or> 0 < r_h r \<or> r_x r \<noteq> 0 \<or> r_y r \<noteq> 0
      then emits [Shell (XwConfigure x (box_x ?b) (box_y ?b) (box_w ?b) (box_h ?b)),
                  Scene (SetPosition (NXwayland x) (box_x ?b) (box_y ?b))] s1 else s1"
  have a: "kum_rules_apply_xwayland E x s = (if r_fullscreen r then kum_xwayland_set_fullscreen E x True ?s2 else ?s2)"
    by (simp add: kum_rules_apply_xwayland_def Some Let_def s1_def ws_ok_def)
  have g2: "gentle s1 ?s2" by (auto intro: gentle_emits)
  have "gentle s1 (kum_rules_apply_xwayland E x s)"
    unfolding a using g2 gentle_trans [OF g2 xw_fullscreen_gentle] by (simp only: split: if_split) blast
  then show ?thesis using 1 gentle_shown by (simp add: gentle_fields Some)
qed

lemma xwayland_map_effect:
  assumes "xwayland_surface_map E x s = Some s'" and "shown_ok s" and "x \<in> set (xwayland_surfaces s)"
  shows "shown_ok s' \<and> xwayland_surfaces s' = xwayland_surfaces s \<and>
     xws_of s' x = rule_target (matching_rule (env_fnmatch E) (xw_class E x) (xw_title E x) (rules s)) (xws_of s x) \<and>
     node_enabled (NXwayland x) (trace s')"
proof -
  define s1 where "s1 = center_on_first E x s"
  have g1: "gentle s s1" unfolding s1_def by (rule center_on_first_gentle)
  obtain s3 where 3: "kum_xwayland_border_update E x False (kum_xwayland_border_create x (kum_rules_apply_xwayland E x s1)) = Some s3"
    and s': "s' = kum_ipc_broadcast_occupancy E (emit (Scene (SetEnabled (NXwayland x) True))
         (let s4 = upd_xs x (\<lambda>r. r\<lparr>xs_last_width := box_w (xw_box E (trace s3) x), xs_last_height := box_h (xw_box E (trace s3) x)\<rparr>) s3;
              s5 = kum_xwayland_corners_apply E x (kum_xwayland_shadow_create E x s4)
          in xw_start_anim E x ANIM_OPENING 0 1 (cfg_anim_open_ms (cfg s5)) s5))"
    using assms(1) by (auto simp: xwayland_surface_map_def Let_def s1_def elim!: bind_SomeE)
  let ?r = "kum_rules_apply_xwayland E x s1"
  have ok1: "shown_ok s1" "x \<in> set (xwayland_surfaces s1)" using gentle_shown [OF g1 assms(2)] assms(3) by (simp_all add: gentle_fields [OF g1])
  note e = xw_rules_apply_effect [OF ok1, of E]
  have g: "gentle ?r s3" using gentle_trans [OF gentle_border_create(2) gentle_border_update(2) [OF 3]] .
  let ?s4 = "upd_xs x (\<lambda>r. r\<lparr>xs_last_width := box_w (xw_box E (trace s3) x), xs_last_height := box_h (xw_box E (trace s3) x)\<rparr>) s3"
  note g
  also have "gentle s3 ?s4" by (rule gentle_upd_xs) simp
  also have "gentle ?s4 (kum_xwayland_shadow_create E x ?s4)" by (rule gentle_shadow)
  also have "gentle \<dots> (kum_xwayland_corners_apply E x (kum_xwayland_shadow_create E x ?s4))" by (rule gentle_corners_apply)
  finally have "gentle ?r (kum_xwayland_corners_apply E x (kum_xwayland_shadow_create E x ?s4))" .
  then have g6: "gentle ?r s'" unfolding s' Let_def
    by (intro gentle_trans [OF _ gentle_occupancy] gentle_trans [OF _ gentle_emit] gentle_trans [OF _ xw_start_anim_gentle]) auto
  have "quiet (emit (Scene (SetEnabled (NXwayland x) True)) u) (kum_ipc_broadcast_occupancy E (emit (Scene (SetEnabled (NXwayland x) True)) u))" for u
    by simp
  then have "node_enabled (NXwayland x) (trace s')"
    using node_enabled_says [OF quiet_says] unfolding s' by fastforce
  then show ?thesis using e gentle_shown [OF g6] by (simp add: gentle_fields [OF g6] gentle_fields [OF g1])
qed

lemma drop_xfocus_shown: "shown_ok s \<Longrightarrow> shown_ok (if b then s\<lparr>focused_xwayland := None\<rparr> else s)"
  by (auto simp: shown_ok_def server_ok_def windows_ok_def focus_ok_def outputs_ok_def visible_ok_def
      ws_of_def xws_of_def active_ws_def [abs_def])

lemma xwayland_unmap_shown:
  assumes "shown_ok s"
  shows "shown_ok (xwayland_surface_unmap E x s) \<and> focused_xwayland (xwayland_surface_unmap E x s) \<noteq> Some x"
proof -
  define u where "u = (if focused_xwayland s = Some x then s\<lparr>focused_xwayland := None\<rparr> else s)"
  have ok: "shown_ok u" unfolding u_def by (rule drop_xfocus_shown [OF assms])
  let ?a = "xw_start_anim E x ANIM_CLOSING 1 0 (cfg_anim_close_ms (cfg u)) u"
  have "gentle u ?a" by (rule xw_start_anim_gentle)
  also have "gentle ?a (kum_ipc_broadcast_occupancy E ?a)" by (rule gentle_occupancy)
  also have "gentle \<dots> (kum_xwayland_border_destroy x \<dots>)" by (rule gentle_border_destroy)
  also have "gentle \<dots> (kum_xwayland_shadow_destroy x \<dots>)" by (rule gentle_shadow)
  also have "gentle \<dots> (kum_xwayland_corners_destroy x \<dots>)" by (rule gentle_corners_destroy)
  finally have "gentle u (xwayland_surface_unmap E x s)" by (simp add: xwayland_surface_unmap_def Let_def u_def)
  then show ?thesis using gentle_shown ok by (auto simp: gentle_fields u_def)
qed

lemma xwayland_commit_gentle:
  assumes "xwayland_surface_commit E x s = Some s'"
  shows "gentle s s'"
proof (cases "xw_mapped E x")
  case False
  then show ?thesis using assms by (auto simp: xwayland_surface_commit_def split: if_splits)
next
  case True
  let ?f = "\<lambda>s1. (\<lambda>r. r\<lparr>xs_last_width := box_w (xw_box E (trace s1) x), xs_last_height := box_h (xw_box E (trace s1) x)\<rparr>)"
  obtain s1 where 1: "kum_xwayland_border_update E x (focused_xwayland s = Some x) s = Some s1"
    and s': "s' = s1 \<or> s' = kum_xwayland_corners_apply E x (kum_xwayland_shadow_create E x (upd_xs x (?f s1) s1))"
    using assms True unfolding xwayland_surface_commit_def Let_def
    by (simp split: if_splits) (erule bind_SomeE, simp split: if_splits)
  have "gentle s1 (upd_xs x (?f s1) s1)" by (rule gentle_upd_xs) simp
  also have "gentle \<dots> (kum_xwayland_shadow_create E x \<dots>)" by (rule gentle_shadow)
  also have "gentle \<dots> (kum_xwayland_corners_apply E x \<dots>)" by (rule gentle_corners_apply)
  finally show ?thesis using s' gentle_border_update(2) [OF 1] gentle_trans by blast
qed

lemma xwayland_destroy_shown:
  assumes "shown_ok s"
  shows "shown_ok (xwayland_surface_destroy x s) \<and>
     set (xwayland_surfaces (xwayland_surface_destroy x s)) = set (xwayland_surfaces s) - {x}"
proof -
  define u where "u = (if focused_xwayland s = Some x then s\<lparr>focused_xwayland := None\<rparr> else s)"
  have ok: "shown_ok u" "focused_xwayland u \<noteq> Some x" "xwayland_surfaces u = xwayland_surfaces s"
    using drop_xfocus_shown [OF assms] by (auto simp: u_def)
  define v where "v = kum_xwayland_corners_destroy x (kum_xwayland_shadow_destroy x (kum_xwayland_border_destroy x u))"
  have g: "gentle u v" unfolding v_def
    by (rule gentle_trans [OF gentle_trans [OF gentle_border_destroy(2) gentle_shadow(4)] gentle_corners_destroy(2)])
  have v: "shown_ok v" "focused_xwayland v \<noteq> Some x" "xwayland_surfaces v = xwayland_surfaces s"
    using gentle_shown [OF g ok(1)] ok by (simp_all add: gentle_fields [OF g])
  have d: "xwayland_surface_destroy x s = v\<lparr>xwayland_surfaces := wl_remove x (xwayland_surfaces v)\<rparr>"
    by (simp add: xwayland_surface_destroy_def Let_def v_def u_def)
  have [simp]: "ws_of (y\<lparr>xwayland_surfaces := l\<rparr>) = ws_of y" "xws_of (y\<lparr>xwayland_surfaces := l\<rparr>) = xws_of y"
    "active_ws (y\<lparr>xwayland_surfaces := l\<rparr>) = active_ws y" for y l
    by (simp_all add: ws_of_def xws_of_def active_ws_def fun_eq_iff)
  show ?thesis
    using v by (auto simp: d shown_ok_def server_ok_def windows_ok_def focus_ok_def outputs_ok_def visible_ok_def)
qed

lemma new_xwayland_shown:
  assumes "shown_ok s" and "x \<notin> set (xwayland_surfaces s)"
  shows "shown_ok (handle_new_xwayland_surface E x s) \<and>
     xwayland_surfaces (handle_new_xwayland_surface E x s) = x # xwayland_surfaces s"
proof -
  let ?w = "case kum_output_focused E s of None \<Rightarrow> 0 | Some i \<Rightarrow> active_ws s i" and ?t = "handle_new_xwayland_surface E x s"
  have w: "ws_ok ?w"
    using assms(1) output_focused_mem [of E s]
    by (auto simp: shown_ok_def server_ok_def outputs_ok_def ws_ok_def KUM_WORKSPACE_COUNT_def split: option.split)
  have f: "toplevels ?t = toplevels s" "xwayland_surfaces ?t = x # xwayland_surfaces s" "outputs ?t = outputs s"
    "output_at ?t = output_at s" "focused ?t = focused s" "focused_xwayland ?t = focused_xwayland s"
    "scratchpad_ws ?t = scratchpad_ws s" "ws_of ?t = ws_of s" "active_ws ?t = active_ws s" "workspaces ?t = workspaces s"
    "xws_of ?t k = (if k = x then ?w else xws_of s k)" "ws_enabled v (trace ?t) = ws_enabled v (trace s)" for k v
    by (simp_all add: handle_new_xwayland_surface_def Let_def wl_insert_def ws_of_def xws_of_def active_ws_def fun_eq_iff
        new_xsurface_def)
  have "windows_ok ?t" using shown_parts(2) [OF assms(1)] assms(2) w by (auto simp: windows_ok_def f)
  then show ?thesis
    using assms(1) by (auto simp: f shown_ok_def server_ok_def focus_ok_def outputs_ok_def visible_ok_def)
qed

section \<open>Properties\<close>

definition ex_xenv :: env where
  "ex_xenv = ex_env\<lparr>xw_surface := \<lambda>x. Some 300, xw_mapped := \<lambda>x. True, xw_class := \<lambda>x. Some ''foot'',
     xw_box := \<lambda>tr x. \<lparr>box_x = 10, box_y = 20, box_w = 300, box_h = 200\<rparr>\<rparr>"

definition ex_xserver :: kum_server where
  "ex_xserver = ex_ruled\<lparr>xwayland_surfaces := [9], xsurface_at := \<lambda>x. blank_xsurface\<rparr>"

lemma ex_xserver_shown: "shown_ok ex_xserver"
  using ex_ruled_shown ws_ok_numerals
  by (simp add: ex_xserver_def shown_ok_def server_ok_def windows_ok_def focus_ok_def outputs_ok_def visible_ok_def
      ws_of_def xws_of_def active_ws_def [abs_def] blank_xsurface_def) (simp add: ex_ruled_def)

text \<open>
  Mapping an X11 window puts it on the workspace the first matching rule asks for,
  shows its own node even when the rule's move hid it, and keeps the state consistent.
\<close>

theorem xwayland_map_correct:
  assumes "xwayland_surface_map E x s = Some s'" and "shown_ok s" and "x \<in> set (xwayland_surfaces s)"
  shows "shown_ok s' \<and> node_enabled (NXwayland x) (trace s') \<and>
     xws_of s' x = rule_target (matching_rule (env_fnmatch E) (xw_class E x) (xw_title E x) (rules s)) (xws_of s x)"
  using xwayland_map_effect [OF assms] by blast

lemma ex_xmap_defined: "\<exists>s'. xwayland_surface_map ex_xenv 9 ex_xserver = Some s'"
  by (rule some_of_not_none) code_simp

lemma xwayland_map_correct_witness:
  "\<exists>s'. xwayland_surface_map ex_xenv 9 ex_xserver = Some s' \<and> shown_ok s' \<and> node_enabled (NXwayland 9) (trace s') \<and>
     xws_of s' 9 = 5"
proof -
  obtain s' where s': "xwayland_surface_map ex_xenv 9 ex_xserver = Some s'" using ex_xmap_defined by blast
  have x: "9 \<in> set (xwayland_surfaces ex_xserver)" by (simp add: ex_xserver_def)
  have "matching_rule (env_fnmatch ex_xenv) (xw_class ex_xenv 9) (xw_title ex_xenv 9) (rules ex_xserver) = Some ex_rule"
    by (simp add: matching_rule_def rule_matches_def ex_xserver_def ex_ruled_def ex_rule_def ex_xenv_def ex_env_def)
  with xwayland_map_correct [OF s' ex_xserver_shown x] s' show ?thesis
    by (auto simp: rule_target_def ws_ok_def KUM_WORKSPACE_COUNT_def ex_rule_def)
qed

text \<open>
  Switching to a workspace that holds no mapped toplevel and, as its first X11
  window, one that has no Wayland surface yet (or any more) dereferences the null
  surface.
\<close>

theorem unassociated_switch_null:
  assumes "shown_ok s" and "i \<in> set (outputs s)" and "ws_ok index" and "active_ws s i \<noteq> index"
    and "\<forall>t \<in> set (ws_toplevels (workspaces s index)). \<not> tl_mapped E t"
    and "xwayland_surfaces s = x # xs" and "xws_of s x = index" and "xw_surface E x = None"
  shows "kum_workspace_switch E (Some i) index s = None"
proof -
  define u where "u = before_focus E i index s"
  note b = before_focus_effect [OF assms(1-4) u_def]
  have w: "workspaces u = workspaces s"
    using quiet_fields(7) [OF swap_or_hide_quiet [where i = i and s = s and index = index and prev = "active_ws s i" and E = E]]
    by (auto simp: u_def before_focus_def Let_def show_workspace_def split: option.splits)
  have "List.find (tl_mapped E) (ws_toplevels (workspaces u index)) = None" using assms(5) by (auto simp: w find_None_iff)
  moreover have "first_mapped_xs E u index (xwayland_surfaces u) = None" using b assms(6-8) by simp
  ultimately have "focus_first E index u = None" by (simp add: focus_first_def)
  then show ?thesis using switch_unfold [OF assms(3,4)] by (simp add: u_def)
qed

definition ex_unassociated :: kum_server where
  "ex_unassociated = upd_xs 9 (\<lambda>r. r\<lparr>xs_workspace := 5\<rparr>) ex_xserver"

lemma unassociated_switch_null_witness: "kum_workspace_switch ex_env (Some 1) 5 ex_unassociated = None"
proof -
  have a: "active_ws ex_unassociated i = active_ws ex_server i" for i
    by (simp add: ex_unassociated_def ex_xserver_def ex_ruled_def active_ws_def)
  have "shown_ok ex_unassociated"
    using ex_xserver_shown ws_ok_numerals
    by (simp add: ex_unassociated_def shown_ok_def server_ok_def windows_ok_def focus_ok_def outputs_ok_def visible_ok_def
        ws_of_def xws_of_def active_ws_def [abs_def])
      (simp add: ex_xserver_def ws_ok_def KUM_WORKSPACE_COUNT_def)
  moreover have "1 \<in> set (outputs ex_unassociated)" "ws_ok 5" "active_ws ex_unassociated 1 \<noteq> 5"
    "xwayland_surfaces ex_unassociated = [9]" "xws_of ex_unassociated 9 = 5" "xw_surface ex_env 9 = None"
    "\<forall>t \<in> set (ws_toplevels (workspaces ex_unassociated 5)). \<not> tl_mapped ex_env t"
    by (simp_all add: a ex_active ws_ok_def KUM_WORKSPACE_COUNT_def)
      (simp_all add: ex_unassociated_def ex_xserver_def ex_ruled_def xws_of_def ex_env_def, simp_all add: ex_server_def)
  ultimately show ?thesis by (intro unassociated_switch_null)
qed

text \<open>
  Leaving full screen gives an X11 window back exactly the position and the size it
  had when it entered it.
\<close>

theorem xwayland_fullscreen_roundtrip:
  assumes "output_of_xws s x = Some i" and "b = xw_box E (trace s) x" and "0 < box_w b"
    and "s1 = kum_xwayland_set_fullscreen E x True s" and "s2 = kum_xwayland_set_fullscreen E' x False s1"
  shows "trace s2 = Shell (XwSetFullscreen x False) # Scene (SetPosition (NXwayland x) (box_x b) (box_y b)) #
     Shell (XwConfigure x (box_x b) (box_y b) (box_w b) (box_h b)) # trace s1 \<and>
     xws_of s2 = xws_of s \<and> focused_xwayland s2 = focused_xwayland s"
proof -
  have g: "gentle s s2" unfolding assms(4,5) by (rule gentle_trans [OF xw_fullscreen_gentle xw_fullscreen_gentle])
  have "xs_saved_geom (xsurface_at s1 x) = b"
    using assms(1-3) by (simp add: assms(4) kum_xwayland_set_fullscreen_def fill_or_restore_def Let_def)
  then show ?thesis using assms(3) gentle_fields(5,7) [OF g]
    by (simp add: assms(5) kum_xwayland_set_fullscreen_def fill_or_restore_def Let_def)
qed

lemma xwayland_fullscreen_roundtrip_witness:
  "trace (kum_xwayland_set_fullscreen ex_xenv 9 False (kum_xwayland_set_fullscreen ex_xenv 9 True ex_xserver)) =
     Shell (XwSetFullscreen 9 False) # Scene (SetPosition (NXwayland 9) 10 20) # Shell (XwConfigure 9 10 20 300 200) #
     trace (kum_xwayland_set_fullscreen ex_xenv 9 True ex_xserver)"
proof -
  have "active_ws ex_xserver i = active_ws ex_server i" for i by (simp add: ex_xserver_def ex_ruled_def active_ws_def)
  then have o: "output_of_xws ex_xserver 9 = Some 1"
    by (simp add: output_of_xws_def ex_active) (simp add: ex_xserver_def ex_ruled_def xws_of_def blank_xsurface_def)
  have b: "0 < box_w (xw_box ex_xenv (trace ex_xserver) 9)" by (simp add: ex_xenv_def)
  from xwayland_fullscreen_roundtrip [OF o refl b refl refl, of ex_xenv] show ?thesis by (simp add: ex_xenv_def)
qed

lemma border_position_keeps: "border_position rs w h b = Some cs \<Longrightarrow> Scene (NodeDestroy m) \<notin> set cs"
  by (induction rs w h b rule: border_position.induct) auto

lemma border_update_keeps_shadow:
  assumes "kum_xwayland_border_update E x foc s = Some s1"
  shows "xsurface_at s1 = xsurface_at s \<and> next_node s1 = next_node s \<and> cfg s1 = cfg s \<and>
    (\<exists>cs. trace s1 = cs @ trace s \<and> Scene (NodeDestroy (NBuffer n)) \<notin> set cs)"
proof -
  obtain cs where p: "border_position (xs_border (xsurface_at s x)) (box_w (xw_box E (trace s) x)) (box_h (xw_box E (trace s) x))
      (cfg_border_width (cfg s)) = Some cs"
    and s1: "\<exists>t. s1 = emits (cs @ border_color (xs_border (xsurface_at s x)) (cfg s) foc t) s"
    using assms by (auto simp: kum_xwayland_border_update_def border_paint_def Let_def split: option.splits)
  have "Scene (NodeDestroy (NBuffer n)) \<notin> set cs" using p by (rule border_position_keeps)
  then show ?thesis using s1 by (auto simp: border_color_def)
qed

text \<open>
  When an X11 window changes its size, the commit handler builds a new shadow and
  forgets the old one without destroying it: the stale shadow stays in the scene.
\<close>

theorem xwayland_commit_leaks_shadow:
  assumes "xwayland_surface_commit E x s = Some s'" and "xw_mapped E x" and "cfg_shadows (cfg s)"
    and "xs_shadow_buf (xsurface_at s x) = Some n" and "n < next_node s"
    and "xs_corner_mask_buf (xsurface_at s x) \<noteq> Some n"
    and "\<forall>tr. box_w (xw_box E tr x) \<noteq> xs_last_width (xsurface_at s x)"
  shows "xs_shadow_buf (xsurface_at s' x) \<noteq> Some n \<and>
     (\<exists>cs. trace s' = cs @ trace s \<and> Scene (NodeDestroy (NBuffer n)) \<notin> set cs)"
proof -
  obtain s1 where 1: "kum_xwayland_border_update E x (focused_xwayland s = Some x) s = Some s1"
    using assms(1,2) by (auto simp: xwayland_surface_commit_def elim!: bind_SomeE split: if_splits)
  obtain cs where k: "xsurface_at s1 = xsurface_at s" "next_node s1 = next_node s" "cfg s1 = cfg s"
    "trace s1 = cs @ trace s" "Scene (NodeDestroy (NBuffer n)) \<notin> set cs"
    using border_update_keeps_shadow [OF 1, of n] by blast
  let ?u = "upd_xs x (\<lambda>r. r\<lparr>xs_last_width := box_w (xw_box E (trace s1) x), xs_last_height := box_h (xw_box E (trace s1) x)\<rparr>) s1"
  have s': "s' = kum_xwayland_corners_apply E x (kum_xwayland_shadow_create E x ?u)"
    using assms(1,2,7) by (auto simp: xwayland_surface_commit_def Let_def 1 k(1) split: if_splits)
  define v where "v = kum_xwayland_shadow_create E x ?u"
  have v: "xs_shadow_buf (xsurface_at v x) \<noteq> Some n" "xs_corner_mask_buf (xsurface_at v x) \<noteq> Some n"
    "\<exists>ds. trace v = ds @ trace s \<and> Scene (NodeDestroy (NBuffer n)) \<notin> set ds"
    using assms(3,5,6) k by (auto simp: v_def kum_xwayland_shadow_create_def shadow_build_def Let_def fresh_node_def)
  have "xs_shadow_buf (xsurface_at s' x) = xs_shadow_buf (xsurface_at v x)"
    by (simp add: s' v_def [symmetric] kum_xwayland_corners_apply_def kum_xwayland_corners_destroy_def Let_def split_beta)
      (auto simp: corners_build_def fresh_node_def Let_def)
  moreover have "\<exists>es. trace s' = es @ trace v \<and> Scene (NodeDestroy (NBuffer n)) \<notin> set es"
    using v(2) by (auto simp: s' v_def [symmetric] kum_xwayland_corners_apply_def kum_xwayland_corners_destroy_def Let_def
        split_beta corners_build_def fresh_node_def destroy_buf_def split: option.split)
  ultimately show ?thesis using v(1,3) by auto
qed

definition ex_shadowed :: kum_server where
  "ex_shadowed = upd_xs 9 (\<lambda>r. r\<lparr>xs_border := [1, 2, 3, 4], xs_shadow_buf := Some 5\<rparr>)
     (ex_xserver\<lparr>cfg := kum_config_defaults\<lparr>cfg_shadows := True\<rparr>\<rparr>)"

lemma xwayland_commit_leaks_shadow_witness:
  "\<exists>s'. xwayland_surface_commit ex_xenv 9 ex_shadowed = Some s' \<and> xs_shadow_buf (xsurface_at s' 9) \<noteq> Some 5 \<and>
     (\<exists>cs. trace s' = cs @ trace ex_shadowed \<and> Scene (NodeDestroy (NBuffer 5)) \<notin> set cs)"
proof -
  have x: "xs_border (xsurface_at ex_shadowed 9) = [1, 2, 3, 4]" "xw_mapped ex_xenv 9" "cfg_shadows (cfg ex_shadowed)"
    "xs_shadow_buf (xsurface_at ex_shadowed 9) = Some 5" "5 < next_node ex_shadowed"
    "xs_corner_mask_buf (xsurface_at ex_shadowed 9) \<noteq> Some 5"
    "\<forall>tr. box_w (xw_box ex_xenv tr 9) \<noteq> xs_last_width (xsurface_at ex_shadowed 9)" "xw_surface ex_xenv 9 = Some 300"
    by (simp_all add: ex_shadowed_def ex_xenv_def) (simp_all add: ex_xserver_def ex_ruled_def ex_server_def blank_xsurface_def)
  obtain s1 where "kum_xwayland_border_update ex_xenv 9 (focused_xwayland ex_shadowed = Some 9) ex_shadowed = Some s1"
    using xborder_update_defined [of ex_shadowed 9] x(1) by fastforce
  then obtain s' where s': "xwayland_surface_commit ex_xenv 9 ex_shadowed = Some s'"
    using x by (simp add: xwayland_surface_commit_def Let_def)
  from xwayland_commit_leaks_shadow [OF this x(2-7)] s' show ?thesis by blast
qed

end
