(* ===== verification/Layer.thy ===== *)
theory Layer
  imports Xwayland "HOL-Library.Multiset"
begin

text \<open>
  Layer-shell surfaces (bars, wallpapers, launchers): \<open>src/layer.c\<close>. What a configure
  leaves of the usable area is computed by wlroots (\<open>ly_configure\<close>).
\<close>

section \<open>Operations\<close>

text \<open>The output of a surface is the one the client asked for or the one the compositor chose.\<close>

definition layer_output :: "env \<Rightarrow> kum_server \<Rightarrow> lid \<Rightarrow> oid option" where
  "layer_output E s l =
     (case layer_assigned s l of Some i \<Rightarrow> Some i | None \<Rightarrow> ly_output (layer_q E) l)"

definition output_from_wlr :: "kum_server \<Rightarrow> oid option \<Rightarrow> oid option" where
  "output_from_wlr s wo = output_of_wlr wo s"

definition layer_takes_part :: "env \<Rightarrow> kum_server \<Rightarrow> oid \<Rightarrow> lid \<Rightarrow> bool" where
  "layer_takes_part E s i l \<longleftrightarrow>
     layer_output E s l = Some i \<and> (ly_mapped (layer_q E) l \<or> ly_initial_commit (layer_q E) l)"

text \<open>The surfaces of an output in the order the two nested loops visit them.\<close>

definition layer_order :: "env \<Rightarrow> kum_server \<Rightarrow> oid \<Rightarrow> lid list" where
  "layer_order E s i =
     concat (map (\<lambda>layer. filter (\<lambda>l. layer_takes_part E s i l \<and> ly_layer (layer_q E) l = layer) (layer_surfaces s))
       [0, 1, 2, 3])"

fun layer_configure :: "env \<Rightarrow> wlr_box \<Rightarrow> lid list \<Rightarrow> wlr_box \<Rightarrow> kum_server \<Rightarrow> wlr_box \<times> kum_server" where
  "layer_configure E full [] usable s = (usable, s)"
| "layer_configure E full (l # ls) usable s =
     layer_configure E full ls (ly_configure (layer_q E) (trace s) l full usable) (emit (Shell (LayerConfigure l full usable)) s)"

definition recalculate_usable_area :: "env \<Rightarrow> oid \<Rightarrow> kum_server \<Rightarrow> kum_server option" where
  "recalculate_usable_area E i s =
     (let full = layout_box E (trace s) i;
          (usable, s1) = layer_configure E full (layer_order E s i) full s;
          s2 = upd_output i (\<lambda>r. r\<lparr>usable_area := usable\<rparr>) s1
      in if layout_of s2 (active_ws s2 i) \<noteq> LAYOUT_FLOATING
         then kum_workspace_arrange E (Some i) (active_ws s2 i) s2 else Some s2)"

definition recalculate_opt :: "env \<Rightarrow> oid option \<Rightarrow> kum_server \<Rightarrow> kum_server option" where
  "recalculate_opt E out s = (case out of None \<Rightarrow> Some s | Some i \<Rightarrow> recalculate_usable_area E i s)"

definition layer_map :: "env \<Rightarrow> lid \<Rightarrow> kum_server \<Rightarrow> kum_server option" where
  "layer_map E l s = do {
     s1 \<leftarrow> recalculate_opt E (output_from_wlr s (layer_output E s l)) s;
     Some (if ly_keyboard (layer_q E) l \<and> kb_focus E (trace s1) \<noteq> Some (ly_surface (layer_q E) l)
           then emit (Seat (KeyboardEnter (ly_surface (layer_q E) l))) s1 else s1) }"

definition layer_unmap :: "env \<Rightarrow> lid \<Rightarrow> kum_server \<Rightarrow> kum_server option" where
  "layer_unmap E l s = do {
     s1 \<leftarrow> recalculate_opt E (output_from_wlr s (layer_output E s l)) s;
     Some (if kb_focus E (trace s1) = Some (ly_surface (layer_q E) l) then emit (Seat KeyboardClear) s1 else s1) }"

definition LAYOUT_BITS :: "layer_state_bit set" where
  "LAYOUT_BITS = {STATE_DESIRED_SIZE, STATE_ANCHOR, STATE_EXCLUSIVE_ZONE, STATE_MARGIN, STATE_LAYER, STATE_EXCLUSIVE_EDGE}"

definition layer_commit :: "env \<Rightarrow> lid \<Rightarrow> kum_server \<Rightarrow> kum_server option" where
  "layer_commit E l s =
     (case layer_output E s l of None \<Rightarrow> Some s
      | Some wo \<Rightarrow>
          if \<not> ly_initial_commit (layer_q E) l \<and> ly_committed (layer_q E) l \<inter> LAYOUT_BITS = {} then Some s
          else recalculate_opt E (output_from_wlr s (Some wo)) s)"

definition layer_destroy :: "env \<Rightarrow> lid \<Rightarrow> kum_server \<Rightarrow> kum_server option" where
  "layer_destroy E l s =
     (let out = output_from_wlr s (layer_output E s l)
      in recalculate_opt E out (s\<lparr>layer_surfaces := wl_remove l (layer_surfaces s)\<rparr>))"

definition layer_tree_of :: "nat \<Rightarrow> node" where
  "layer_tree_of layer =
     (if layer = 0 then NLayerBg else if layer = 1 then NLayerBottom else if layer = 2 then NLayerTop
      else if layer = 3 then NLayerOverlay else NLayerTop)"

definition kum_new_layer_surface :: "env \<Rightarrow> lid \<Rightarrow> kum_server \<Rightarrow> kum_server option" where
  "kum_new_layer_surface E l s =
     (let s1 = (if ly_output (layer_q E) l = None \<and> outputs s \<noteq> []
                then s\<lparr>layer_assigned := (layer_assigned s)(l := Some (hd (outputs s)))\<rparr> else s);
          s2 = emit (Scene (TreeCreate (layer_tree_of (ly_pending_layer (layer_q E) l)) (NLayerSurface l))) s1;
          s3 = s2\<lparr>layer_surfaces := wl_insert l (layer_surfaces s2)\<rparr>
      in recalculate_opt E (output_from_wlr s3 (layer_output E s3 l)) s3)"

definition layer_box :: "env \<Rightarrow> kum_server \<Rightarrow> oid \<Rightarrow> wlr_box" where
  \<comment> \<open>the whole box of an output\<close>
  "layer_box E s i = layout_box E (trace s) i"

section \<open>Lemmas\<close>

lemma layer_configure_quiet: "quiet s (snd (layer_configure E full ls u s))"
proof (induction E full ls u s rule: layer_configure.induct)
  case (2 E full l ls usable s)
  show ?case unfolding layer_configure.simps by (rule quiet_after_emit [OF "2.IH"]) simp
qed simp

text \<open>The usable area changes nothing the invariant reads.\<close>

lemma usable_shown: "shown_ok s \<Longrightarrow> shown_ok (upd_output i (\<lambda>r. r\<lparr>usable_area := u\<rparr>) s)"
proof -
  assume s: "shown_ok s"
  let ?t = "upd_output i (\<lambda>r. r\<lparr>usable_area := u\<rparr>) s"
  have "active_ws ?t = active_ws s" by (simp add: active_ws_def fun_eq_iff)
  moreover have "previous_workspace (output_at ?t k) = previous_workspace (output_at s k)" for k by simp
  ultimately show ?thesis
    using s by (simp add: shown_ok_def server_ok_def windows_ok_def focus_ok_def outputs_ok_def visible_ok_def)
qed

lemma recalculate_steps:
  assumes "recalculate_usable_area E i s = Some s'"
  obtains u s1 where "layer_configure E (layout_box E (trace s) i) (layer_order E s i) (layout_box E (trace s) i) s = (u, s1)"
    and "quiet s s1" and "quiet (upd_output i (\<lambda>r. r\<lparr>usable_area := u\<rparr>) s1) s'"
proof -
  let ?full = "layout_box E (trace s) i"
  obtain u s1 where c: "layer_configure E ?full (layer_order E s i) ?full s = (u, s1)" by fastforce
  have 1: "quiet s s1" using layer_configure_quiet [of s E ?full "layer_order E s i" ?full] c by simp
  have 2: "quiet (upd_output i (\<lambda>r. r\<lparr>usable_area := u\<rparr>) s1) s'"
    using assms c arrange_quiet by (auto simp: recalculate_usable_area_def Let_def split: if_splits)
  show ?thesis by (rule that [OF c 1 2])
qed

lemma recalculate_effect:
  assumes "recalculate_usable_area E i s = Some s'" and "shown_ok s"
  shows "shown_ok s' \<and> focused s' = focused s \<and> locked s' = locked s \<and> outputs s' = outputs s \<and>
     (\<forall>k. active_ws s' k = active_ws s k)"
proof -
  obtain u s1 where 1: "quiet s s1" and 2: "quiet (upd_output i (\<lambda>r. r\<lparr>usable_area := u\<rparr>) s1) s'"
    using assms(1) by (rule recalculate_steps)
  have "shown_ok s'" using quiet_shown [OF 2 usable_shown] quiet_shown [OF 1 assms(2)] by blast
  then show ?thesis using quiet_fields(1,2,14,19) [OF 1] quiet_fields(1,2,14,19) [OF 2] by (simp add: active_ws_def)
qed

lemma recalculate_opt_effect:
  "recalculate_opt E out s = Some s' \<Longrightarrow> shown_ok s \<Longrightarrow>
     shown_ok s' \<and> focused s' = focused s \<and> locked s' = locked s \<and> outputs s' = outputs s"
  using recalculate_effect by (fastforce simp: recalculate_opt_def split: option.splits)

lemma keyboard_call_shown: "c = KeyboardEnter sf \<or> c = KeyboardClear \<Longrightarrow> shown_ok s \<Longrightarrow> shown_ok (emit (Seat c) s)"
  by (rule gentle_shown [OF gentle_emit]) auto

lemma recalculate_opt_shown: "recalculate_opt E out s = Some s' \<Longrightarrow> shown_ok s \<Longrightarrow> shown_ok s'"
  using recalculate_opt_effect by blast

lemma layer_shown:
  "layer_map E l s = Some s' \<Longrightarrow> shown_ok s \<Longrightarrow> shown_ok s'"
  "layer_unmap E l s = Some s' \<Longrightarrow> shown_ok s \<Longrightarrow> shown_ok s'"
  "layer_commit E l s = Some s' \<Longrightarrow> shown_ok s \<Longrightarrow> shown_ok s'"
proof -
  assume s: "shown_ok s"
  note r = recalculate_opt_shown [OF _ s]
  show "shown_ok s'" if m: "layer_map E l s = Some s'"
  proof -
    obtain s1 where "recalculate_opt E (output_from_wlr s (layer_output E s l)) s = Some s1"
      and "s' = s1 \<or> s' = emit (Seat (KeyboardEnter (ly_surface (layer_q E) l))) s1"
      using m by (auto simp: layer_map_def elim!: bind_SomeE split: if_splits)
    then show ?thesis using r [of E _ s1] keyboard_call_shown [of "KeyboardEnter (ly_surface (layer_q E) l)" _ s1] by blast
  qed
  show "shown_ok s'" if m: "layer_unmap E l s = Some s'"
  proof -
    obtain s1 where "recalculate_opt E (output_from_wlr s (layer_output E s l)) s = Some s1"
      and "s' = s1 \<or> s' = emit (Seat KeyboardClear) s1"
      using m by (auto simp: layer_unmap_def elim!: bind_SomeE split: if_splits)
    then show ?thesis using r [of E _ s1] keyboard_call_shown [of KeyboardClear _ s1] by blast
  qed
  show "shown_ok s'" if "layer_commit E l s = Some s'"
    using that r s by (auto simp: layer_commit_def split: option.splits if_splits)
qed

lemma layer_list_shown: "shown_ok s \<Longrightarrow> shown_ok (s\<lparr>layer_surfaces := ls\<rparr>)" "shown_ok s \<Longrightarrow> shown_ok (s\<lparr>layer_assigned := f\<rparr>)"
  by (auto simp: shown_ok_def server_ok_def windows_ok_def focus_ok_def outputs_ok_def visible_ok_def
      ws_of_def xws_of_def active_ws_def [abs_def])

lemma layer_destroy_shown: "layer_destroy E l s = Some s' \<Longrightarrow> shown_ok s \<Longrightarrow> shown_ok s'"
  unfolding layer_destroy_def Let_def using recalculate_opt_effect layer_list_shown(1) by blast

lemma new_layer_shown:
  assumes "kum_new_layer_surface E l s = Some s'" and "shown_ok s"
  shows "shown_ok s'"
proof -
  define s1 where "s1 = (if ly_output (layer_q E) l = None \<and> outputs s \<noteq> []
      then s\<lparr>layer_assigned := (layer_assigned s)(l := Some (hd (outputs s)))\<rparr> else s)"
  have "shown_ok s1" using assms(2) layer_list_shown(2) by (simp add: s1_def)
  then have "shown_ok (emit (Scene (TreeCreate (layer_tree_of (ly_pending_layer (layer_q E) l)) (NLayerSurface l))) s1)"
    by (rule gentle_shown [OF gentle_emit, rotated]) simp
  then show ?thesis
    using assms(1) recalculate_opt_effect layer_list_shown(1)
    unfolding kum_new_layer_surface_def Let_def s1_def [symmetric] by blast
qed

section \<open>Properties\<close>

definition by_layer :: "('a \<Rightarrow> nat) \<Rightarrow> 'a list \<Rightarrow> 'a list" where
  "by_layer f xs = concat (map (\<lambda>k. filter (\<lambda>x. f x = k) xs) [0, 1, 2, 3])"

lemma by_layer_filter: "filter (\<lambda>x. f x = k) (by_layer f xs) = (if k \<le> 3 then filter (\<lambda>x. f x = k) xs else [])"
proof -
  have f: "filter (\<lambda>x. f x = k) (filter (\<lambda>x. f x = j) xs) = (if j = k then filter (\<lambda>x. f x = k) xs else [])" for j
    by (auto simp: filter_empty_conv intro: filter_cong)
  have "k \<le> 3 \<longleftrightarrow> k = 0 \<or> k = 1 \<or> k = 2 \<or> k = 3" by arith
  then show ?thesis by (auto simp: by_layer_def f simp del: filter_filter)
qed

lemma by_layer_sort:
  assumes "\<forall>x \<in> set xs. f x \<le> 3"
  shows "by_layer f xs = sort_key f xs"
proof (rule properties_for_sort_key [symmetric])
  show "filter (\<lambda>x. f k = f x) (by_layer f xs) = filter (\<lambda>x. f k = f x) xs" if "k \<in> set (by_layer f xs)" for k
  proof -
    have "f k \<le> 3" using that assms by (auto simp: by_layer_def)
    moreover have "(\<lambda>x. f k = f x) = (\<lambda>x. f x = f k)" by auto
    ultimately show ?thesis using by_layer_filter [of f "f k" xs] by simp
  qed
  have "sorted (map f (filter (\<lambda>x. f x = k) xs))" for k by (induction xs) auto
  then show "sorted (map f (by_layer f xs))" by (auto simp: by_layer_def sorted_append)
  have "mset xs = mset (filter (\<lambda>x. f x = 0) xs) + mset (filter (\<lambda>x. f x = 1) xs) + mset (filter (\<lambda>x. f x = 2) xs) +
      mset (filter (\<lambda>x. f x = 3) xs)"
    using assms by (induction xs) (auto simp: le_Suc_eq numeral_eq_Suc)
  then show "mset (by_layer f xs) = mset xs" by (simp add: by_layer_def ac_simps)
qed

lemma layer_order_by_layer:
  "layer_order E s i = by_layer (ly_layer (layer_q E)) (filter (layer_takes_part E s i) (layer_surfaces s))"
  by (simp add: layer_order_def by_layer_def conj_commute)

text \<open>
  C39. The usable area of an output is what is left after configuring the surfaces on
  it that take part, in the order of a stable sort by layer: the background first,
  and surfaces of one layer in the order of the list, the newest first.
\<close>

theorem usable_area_by_layer:
  assumes "recalculate_usable_area E i s = Some s'"
    and "\<forall>l \<in> set (layer_surfaces s). ly_layer (layer_q E) l \<le> 3"
  shows "usable_area (output_at s' i) =
    fst (layer_configure E (layer_box E s i)
      (sort_key (ly_layer (layer_q E)) (filter (layer_takes_part E s i) (layer_surfaces s))) (layer_box E s i) s)"
proof -
  obtain u s1 where c: "layer_configure E (layout_box E (trace s) i) (layer_order E s i) (layout_box E (trace s) i) s = (u, s1)"
    and 2: "quiet (upd_output i (\<lambda>r. r\<lparr>usable_area := u\<rparr>) s1) s'"
    using assms(1) by (rule recalculate_steps)
  have "layer_order E s i = sort_key (ly_layer (layer_q E)) (filter (layer_takes_part E s i) (layer_surfaces s))"
    using assms(2) by (simp add: layer_order_by_layer by_layer_sort)
  then show ?thesis using c quiet_fields(2) [OF 2] by (simp add: layer_box_def)
qed

definition ex_layer_env :: env where
  "ex_layer_env = ex_env\<lparr>layer_q := (layer_q ex_env)\<lparr>ly_configure := \<lambda>tr l full usable.
     \<lparr>box_x = box_x usable, box_y = box_y usable + 30, box_w = box_w usable, box_h = box_h usable - 30\<rparr>\<rparr>\<rparr>"

definition ex_layers :: kum_server where
  "ex_layers = upd_ws 0 (\<lambda>r. r\<lparr>ws_layout := LAYOUT_FLOATING\<rparr>) (ex_server\<lparr>layer_surfaces := [5, 6]\<rparr>)"

lemma usable_area_by_layer_witness:
  "\<exists>s'. recalculate_usable_area ex_layer_env 1 ex_layers = Some s' \<and>
     usable_area (output_at s' 1) = \<lparr>box_x = 0, box_y = 60, box_w = 1920, box_h = 1020\<rparr>"
proof -
  have "\<not> Option.is_none (recalculate_usable_area ex_layer_env 1 ex_layers)" by code_simp
  then obtain s' where s': "recalculate_usable_area ex_layer_env 1 ex_layers = Some s'" by (auto dest: some_of_not_none)
  have "\<forall>l \<in> set (layer_surfaces ex_layers). ly_layer (layer_q ex_layer_env) l \<le> 3"
    by (simp add: ex_layer_env_def ex_env_def)
  from usable_area_by_layer [OF s' this]
  have "usable_area (output_at s' 1) = fst (layer_configure ex_layer_env (layer_box ex_layer_env ex_layers 1)
      (sort_key (ly_layer (layer_q ex_layer_env)) (filter (layer_takes_part ex_layer_env ex_layers 1) (layer_surfaces ex_layers)))
      (layer_box ex_layer_env ex_layers 1) ex_layers)" .
  also have "\<dots> = \<lparr>box_x = 0, box_y = 60, box_w = 1920, box_h = 1020\<rparr>"
    by (simp add: ex_layers_def layer_takes_part_def layer_output_def layer_box_def ex_layer_env_def ex_env_def ex_server_def
        upd_ws_def)
  finally show ?thesis using s' by blast
qed

text \<open>
  The session lock does not hold against layer surfaces: a surface that asks for
  the keyboard and maps while the session is locked gets the keyboard focus.
\<close>

theorem layer_map_breaks_lock:
  assumes "layer_map E l s = Some s'" and "shown_ok s" and "locked s" and "ly_keyboard (layer_q E) l"
    and "\<forall>tr. kb_focus E tr \<noteq> Some (ly_surface (layer_q E) l)"
  shows "locked s' \<and> hd (trace s') = Seat (KeyboardEnter (ly_surface (layer_q E) l))"
proof -
  obtain s1 where 1: "recalculate_opt E (output_from_wlr s (layer_output E s l)) s = Some s1"
    and s': "s' = emit (Seat (KeyboardEnter (ly_surface (layer_q E) l))) s1"
    using assms(1,4,5) by (auto simp: layer_map_def elim!: bind_SomeE)
  then show ?thesis using recalculate_opt_effect [OF 1 assms(2)] assms(3) by simp
qed

lemma layer_map_breaks_lock_witness:
  "\<exists>s'. layer_map ex_layer_env 5 (ex_layers\<lparr>locked := True\<rparr>) = Some s' \<and> locked s' \<and> hd (trace s') = Seat (KeyboardEnter 55)"
proof -
  let ?s = "ex_layers\<lparr>locked := True\<rparr>"
  have "\<not> Option.is_none (layer_map ex_layer_env 5 ?s)" by code_simp
  then obtain s' where s': "layer_map ex_layer_env 5 ?s = Some s'" by (auto dest: some_of_not_none)
  have "shown_ok (ex_server\<lparr>layer_surfaces := [5, 6]\<rparr>)" by (rule layer_list_shown(1) [OF ex_shown])
  then have "shown_ok ex_layers" unfolding ex_layers_def by (rule set_layout_shown)
  then have "shown_ok ?s"
    by (simp add: shown_ok_def server_ok_def windows_ok_def focus_ok_def outputs_ok_def visible_ok_def
      ws_of_def xws_of_def active_ws_def [abs_def])
  moreover have "locked ?s" "ly_keyboard (layer_q ex_layer_env) 5"
    "\<forall>tr. kb_focus ex_layer_env tr \<noteq> Some (ly_surface (layer_q ex_layer_env) 5)"
    by (simp_all add: ex_layer_env_def ex_env_def)
  ultimately have "locked s' \<and> hd (trace s') = Seat (KeyboardEnter (ly_surface (layer_q ex_layer_env) 5))"
    using layer_map_breaks_lock [OF s'] by blast
  then show ?thesis using s' by (simp add: ex_layer_env_def ex_env_def)
qed

text \<open>
  Reloading the configuration gives a configured output its whole box back as
  usable area: the space reserved by a bar is lost until a layer surface changes.
\<close>

theorem configure_drops_exclusive_zone:
  assumes "outputs s = [i]" and "find_config s (out_name E i) = Some c" and "oc_enabled c" and "0 \<le> oc_x c"
  shows "\<exists>tr. usable_area (output_at (kum_output_configure_all E s) i) = layout_box E tr i"
  using assms by (auto simp: kum_output_configure_all_def configure_output_def Let_def)

definition ex_configured :: kum_server where
  "ex_configured = ex_server\<lparr>outputs := [1], cfg := kum_config_defaults\<lparr>cfg_output_configs := [blank_output\<lparr>oc_name := ''DP-1'', oc_enabled := True\<rparr>]\<rparr>\<rparr>"

lemma configure_drops_exclusive_zone_witness:
  "box_y (usable_area (output_at ex_configured 1)) = 30 \<and>
   box_y (usable_area (output_at (kum_output_configure_all ex_env ex_configured) 1)) = 0"
proof -
  have "outputs ex_configured = [1]" by (simp add: ex_configured_def)
  moreover have "find_config ex_configured (out_name ex_env 1) = Some (blank_output\<lparr>oc_name := ''DP-1'', oc_enabled := True\<rparr>)"
    by (simp add: ex_configured_def find_config_def ex_env_def)
  moreover have "oc_enabled (blank_output\<lparr>oc_name := ''DP-1'', oc_enabled := True\<rparr>)"
    "0 \<le> oc_x (blank_output\<lparr>oc_name := ''DP-1'', oc_enabled := True\<rparr>)"
    by (simp_all add: blank_output_def)
  ultimately obtain tr where "usable_area (output_at (kum_output_configure_all ex_env ex_configured) 1) = layout_box ex_env tr 1"
    using configure_drops_exclusive_zone [of ex_configured 1 ex_env] by blast
  then show ?thesis by (simp add: ex_env_def ex_configured_def) (simp add: ex_server_def screen_at_def)
qed

end
