(* ===== verification/Lock.thy ===== *)
theory Lock
  imports Layer
begin

text \<open>
  The session lock: \<open>src/sessionlock.c\<close>. The children of the lock tree are listed, since
  unlocking destroys them all; destroying one that is gone is a use after free (\<open>None\<close>).
\<close>

section \<open>Operations\<close>

definition kum_session_lock_raise :: "kum_server \<Rightarrow> kum_server" where
  "kum_session_lock_raise s = emit (Scene (RaiseToTop NLockTree)) s"

definition lock_surface_destroy :: "nat \<Rightarrow> kum_server \<Rightarrow> kum_server option" where
  "lock_surface_destroy l s =
     (if NLockSurface l \<in> set (lock_children s)
      then Some (emit (Scene (NodeDestroy (NLockSurface l))) (s\<lparr>lock_children := wl_remove (NLockSurface l) (lock_children s)\<rparr>))
      else None)"

definition active_lock_new_surface :: "env \<Rightarrow> nat \<Rightarrow> kum_server \<Rightarrow> kum_server" where
  "active_lock_new_surface E l s =
     (case output_of_wlr (oq_lock_output (output_q E) l) s of None \<Rightarrow> s
      | Some i \<Rightarrow>
          let sf = oq_lock_surface (output_q E) l;
              (n, s1) = fresh_node s;
              s2 = emits [Scene (TreeCreate NLockTree (NLockSurface l)), Scene (SurfaceCreate (NLockSurface l) (NBuffer n) sf)]
                     (s1\<lparr>lock_children := lock_children s1 @ [NLockSurface l]\<rparr>);
              obox = layout_box E (trace s2) i;
              s3 = emits [Scene (SetPosition (NLockSurface l) (box_x obox) (box_y obox)),
                          System (LockSurfaceConfigure l (box_w obox) (box_h obox))] s2
          in if kb_focus E (trace s3) \<noteq> Some sf then emit (Seat (KeyboardEnter sf)) s3 else s3)"

definition active_lock_unlock :: "kum_server \<Rightarrow> kum_server" where
  "active_lock_unlock s =
     emits (map (\<lambda>n. Scene (NodeDestroy n)) (lock_children s) @ [Seat KeyboardClear])
       (s\<lparr>locked := False, lock_children := []\<rparr>)"

definition active_lock_destroy :: "kum_server \<Rightarrow> kum_server" where
  "active_lock_destroy s = s\<lparr>active_lock := None\<rparr>"

text \<open>A black rectangle over every output.\<close>

fun blank_outputs :: "env \<Rightarrow> oid list \<Rightarrow> kum_server \<Rightarrow> kum_server" where
  "blank_outputs E [] s = s"
| "blank_outputs E (i # is) s =
     (let obox = layout_box E (trace s) i; (n, s1) = fresh_node s
      in blank_outputs E is
           (emits [Scene (RectCreate NLockTree n (box_w obox) (box_h obox) [0, 0, 0, 1]),
                   Scene (SetPosition (NRect n) (box_x obox) (box_y obox))]
              (s1\<lparr>lock_children := lock_children s1 @ [NRect n]\<rparr>)))"

definition new_session_lock :: "env \<Rightarrow> nat \<Rightarrow> kum_server \<Rightarrow> kum_server" where
  "new_session_lock E l s =
     (if active_lock s \<noteq> None \<or> locked s then emit (System (LockDestroy l)) s
      else
        let s1 = s\<lparr>active_lock := Some l, locked := True\<rparr>;
            s2 = blank_outputs E (outputs s1) s1
        in emits [Seat KeyboardClear, System (LockSendLocked l)] (kum_session_lock_raise s2))"

section \<open>Who has the keyboard\<close>

text \<open>The last word on the keyboard focus.\<close>

fun keyboard_on :: "trace \<Rightarrow> surf option" where
  "keyboard_on [] = None"
| "keyboard_on (Seat (KeyboardEnter sf) # cs) = Some sf"
| "keyboard_on (Seat KeyboardClear # cs) = None"
| "keyboard_on (c # cs) = keyboard_on cs"

lemma keyboard_on_plain: "plain c \<Longrightarrow> keyboard_on (c # cs) = keyboard_on cs"
  by (cases "c # cs" rule: keyboard_on.cases) auto

lemma keyboard_on_plains: "list_all plain cs \<Longrightarrow> keyboard_on (cs @ ds) = keyboard_on ds"
  by (induction cs) (simp_all add: keyboard_on_plain)

lemma keyboard_on_quiet: "quiet s t \<Longrightarrow> keyboard_on (trace t) = keyboard_on (trace s)"
  by (auto simp: quiet_def keyboard_on_plains)

definition lock_surfaces :: "env \<Rightarrow> surf option set" where
  "lock_surfaces E = insert None (Some ` range (oq_lock_surface (output_q E)))"

text \<open>A locked session: only lock surfaces can have the keyboard.\<close>

definition held :: "env \<Rightarrow> kum_server \<Rightarrow> bool" where
  "held E s \<longleftrightarrow> locked s \<and> shown_ok s \<and> keyboard_on (trace s) \<in> lock_surfaces E"

lemma None_lock_surface [simp]: "None \<in> lock_surfaces E"
  by (simp add: lock_surfaces_def)

lemma held_quiet: "quiet s t \<Longrightarrow> held E s \<Longrightarrow> held E t"
  by (simp add: held_def quiet_shown quiet_fields keyboard_on_quiet)

lemma lock_fields_shown: "shown_ok s \<Longrightarrow> shown_ok (s\<lparr>lock_children := c\<rparr>)" "shown_ok s \<Longrightarrow> shown_ok (s\<lparr>active_lock := l\<rparr>)"
  "shown_ok s \<Longrightarrow> shown_ok (s\<lparr>locked := b\<rparr>)" "shown_ok s \<Longrightarrow> shown_ok (s\<lparr>next_node := n\<rparr>)"
  by (auto simp: shown_ok_def server_ok_def windows_ok_def focus_ok_def outputs_ok_def visible_ok_def
      ws_of_def xws_of_def active_ws_def [abs_def])

lemma emits_shown: "list_all off_screen cs \<Longrightarrow> shown_ok s \<Longrightarrow> shown_ok (emits cs s)"
  by (rule gentle_shown [OF gentle_emits])

lemma blank_outputs_effect:
  "shown_ok s \<Longrightarrow> shown_ok (blank_outputs E is s) \<and> locked (blank_outputs E is s) = locked s \<and>
     outputs (blank_outputs E is s) = outputs s \<and> keyboard_on (trace (blank_outputs E is s)) = keyboard_on (trace s) \<and>
     length (lock_children (blank_outputs E is s)) = length (lock_children s) + length is"
proof (induction "is" arbitrary: s)
  case Nil
  then show ?case by simp
next
  case (Cons i "is")
  let ?b = "layout_box E (trace s) i" and ?n = "next_node s"
  let ?u = "emits [Scene (RectCreate NLockTree ?n (box_w ?b) (box_h ?b) [0, 0, 0, 1]), Scene (SetPosition (NRect ?n) (box_x ?b) (box_y ?b))]
      (s\<lparr>next_node := Suc ?n, lock_children := lock_children s @ [NRect ?n]\<rparr>)"
  have "shown_ok (s\<lparr>next_node := Suc ?n, lock_children := lock_children s @ [NRect ?n]\<rparr>)"
    using lock_fields_shown(1) [OF lock_fields_shown(4) [OF Cons.prems]] .
  then have "shown_ok ?u" by (rule emits_shown [rotated]) simp
  from Cons.IH [OF this] show ?case by (simp add: fresh_node_def Let_def)
qed

lemma new_lock_held:
  assumes "shown_ok s" and "\<not> locked s" and "active_lock s = None"
  shows "held E (new_session_lock E l s) \<and> active_lock (new_session_lock E l s) = Some l"
proof -
  let ?s1 = "s\<lparr>active_lock := Some l, locked := True\<rparr>"
  let ?s2 = "blank_outputs E (outputs s) ?s1"
  have "shown_ok ?s1" using lock_fields_shown(2,3) [OF assms(1)] lock_fields_shown(3) [OF lock_fields_shown(2) [OF assms(1)]] by blast
  note e = blank_outputs_effect [OF this, of E "outputs s"]
  have "active_lock (blank_outputs E is t) = active_lock t" for "is" t
    by (induction E "is" t rule: blank_outputs.induct) (simp_all add: fresh_node_def Let_def)
  moreover have "shown_ok (emits [Seat KeyboardClear, System (LockSendLocked l)] (emit (Scene (RaiseToTop NLockTree)) ?s2))"
    using e by (simp add: emit_emits del: emits_emits) (intro emits_shown, auto)
  ultimately show ?thesis
    using assms(2,3) e by (simp add: new_session_lock_def kum_session_lock_raise_def Let_def held_def)
qed

section \<open>What may happen while the session is locked\<close>

text \<open>
  The events of the lock protocol itself, windows that ask for the focus, and
  workspaces that are switched (by an IPC client): the compositor stays in control.
\<close>

datatype lock_event =
    LNew nat | LSurface nat | LSurfaceGone nat | LGone
  | LFocus tid surf | LFocusX xid | LSwitch oid int

fun held_step :: "env \<Rightarrow> lock_event \<Rightarrow> kum_server \<Rightarrow> kum_server option" where
  "held_step E (LNew l) s = Some (new_session_lock E l s)"
| "held_step E (LSurface l) s = Some (active_lock_new_surface E l s)"
| "held_step E (LSurfaceGone l) s = lock_surface_destroy l s"
| "held_step E LGone s = Some (active_lock_destroy s)"
| "held_step E (LFocus t sf) s = kum_focus_toplevel E t sf s"
| "held_step E (LFocusX x) s = kum_focus_xwayland_surface E x s"
| "held_step E (LSwitch i w) s = (if i \<in> set (outputs s) then kum_workspace_switch E (Some i) w s else Some s)"

lemma new_surface_shown: "shown_ok s \<Longrightarrow> shown_ok (active_lock_new_surface E l s)"
proof (cases "output_of_wlr (oq_lock_output (output_q E) l) s")
  case None
  assume "shown_ok s"
  then show ?thesis using None by (simp add: active_lock_new_surface_def)
next
  case (Some i)
  assume h: "shown_ok s"
  let ?sf = "oq_lock_surface (output_q E) l" and ?n = "next_node s"
  let ?u = "emits [Scene (TreeCreate NLockTree (NLockSurface l)), Scene (SurfaceCreate (NLockSurface l) (NBuffer ?n) ?sf)]
      (s\<lparr>next_node := Suc ?n, lock_children := lock_children s @ [NLockSurface l]\<rparr>)"
  let ?b = "layout_box E (trace ?u) i"
  let ?v = "emits [Scene (SetPosition (NLockSurface l) (box_x ?b) (box_y ?b)), System (LockSurfaceConfigure l (box_w ?b) (box_h ?b))] ?u"
  have s: "shown_ok (s\<lparr>next_node := Suc ?n, lock_children := lock_children s @ [NLockSurface l]\<rparr>)"
    using h lock_fields_shown(1) [OF lock_fields_shown(4)] by simp
  have u: "shown_ok ?u" by (rule emits_shown [OF _ s]) simp
  have v: "shown_ok ?v" by (rule emits_shown [OF _ u]) simp
  have w: "shown_ok (emit (Seat (KeyboardEnter ?sf)) ?v)" by (rule keyboard_call_shown [OF _ v]) simp
  have "active_lock_new_surface E l s = (if kb_focus E (trace ?v) \<noteq> Some ?sf then emit (Seat (KeyboardEnter ?sf)) ?v else ?v)"
    using Some by (simp only: active_lock_new_surface_def fresh_node_def Let_def option.case prod.case) simp
  then show ?thesis using v w by simp
qed

lemma new_surface_held: "held E s \<Longrightarrow> held E (active_lock_new_surface E l s)"
  using new_surface_shown [of s E l]
  by (auto simp: held_def active_lock_new_surface_def fresh_node_def Let_def lock_surfaces_def split: option.split)

lemma focus_first_locked: "locked s \<Longrightarrow> focus_first E w s = Some s' \<Longrightarrow> s' = s"
  by (auto simp: focus_first_def focus_toplevel_noop focus_xwayland_noop elim!: bind_SomeE split: option.splits)

lemma before_focus_keyboard: "keyboard_on (trace (before_focus E i index s)) \<in> {None, keyboard_on (trace s)}"
proof -
  have "keyboard_on (trace (swap_or_hide E i (active_ws s i) index s)) = keyboard_on (trace s)"
    using keyboard_on_quiet [OF swap_or_hide_quiet [where i = i and s = s and index = index and prev = "active_ws s i" and E = E]]
    by (simp split: option.split)
  then show ?thesis
    by (auto simp: before_focus_def Let_def show_workspace_def unfocus_toplevel_on_def unfocus_xwayland_on_def
        split: option.split)
qed

lemma switch_held:
  assumes "held E s" and "i \<in> set (outputs s)" and "kum_workspace_switch E (Some i) w s = Some s'"
  shows "held E s'"
proof (cases "\<not> ws_ok w \<or> active_ws s i = w")
  case True
  then have "s' = s" using assms(3) switch_noop [of w "Some i" s E] by auto
  then show ?thesis using assms(1) by simp
next
  case False
  then have ok: "ws_ok w" "active_ws s i \<noteq> w" by auto
  define u where "u = before_focus E i w s"
  have s: "shown_ok s" "locked s" using assms(1) by (simp_all add: held_def)
  note b = before_focus_effect [OF s(1) assms(2) ok u_def]
  obtain s3 where 3: "focus_first E w u = Some s3" and s': "s' = ipc_broadcast_workspace E i w s3"
    using assms(3) switch_unfold [OF ok] by (auto simp: u_def elim!: bind_SomeE)
  have "s3 = u" using focus_first_locked [OF _ 3] b s(2) by simp
  moreover have "held E u"
    using b assms(1) before_focus_keyboard [of E i w s] by (auto simp: held_def u_def [symmetric])
  ultimately show ?thesis unfolding s' by (intro held_quiet [OF broadcast_workspace_quiet]) simp
qed

lemma held_step_inv:
  assumes "held E s" and "held_step E e s = Some t"
  shows "held E t"
proof (cases e)
  case (LNew l)
  have "quiet s (emit (System (LockDestroy l)) s)" by (rule quiet_emit) simp
  then have "held E (emit (System (LockDestroy l)) s)" by (rule held_quiet [OF _ assms(1)])
  moreover have "locked s" using assms(1) by (simp add: held_def)
  ultimately show ?thesis using assms(2) LNew by (simp add: new_session_lock_def)
next
  case (LSurfaceGone l)
  have "shown_ok (emit (Scene (NodeDestroy (NLockSurface l))) (s\<lparr>lock_children := wl_remove (NLockSurface l) (lock_children s)\<rparr>))"
    using assms(1) by (intro gentle_shown [OF gentle_emit lock_fields_shown(1)]) (auto simp: held_def)
  then show ?thesis using assms LSurfaceGone by (auto simp: lock_surface_destroy_def held_def split: if_splits)
next
  case LGone
  then show ?thesis using assms lock_fields_shown(2) by (auto simp: active_lock_destroy_def held_def)
next
  case (LSurface l)
  then show ?thesis using assms(2) new_surface_held [OF assms(1), of l] by auto
next
  case (LFocus t' sf)
  then show ?thesis using assms focus_toplevel_noop [of s E sf t'] by (simp add: held_def)
next
  case (LFocusX x)
  then show ?thesis using assms focus_xwayland_noop [of s E x] by (simp add: held_def)
next
  case (LSwitch i w)
  then show ?thesis using assms switch_held [OF assms(1)] by (simp split: if_splits)
qed

interpretation held: event_machine "held_step E" "held E" for E
  by unfold_locales (rule held_step_inv)



text \<open>
  Once the lock client has died without unlocking, no other client can take over:
  every new lock is refused at once and the session stays locked for good.
\<close>

theorem dead_lock_refuses_locks:
  assumes "locked s"
  shows "active_lock (active_lock_destroy s) = None \<and>
     new_session_lock E l (active_lock_destroy s) = emit (System (LockDestroy l)) (active_lock_destroy s)"
  using assms by (simp add: active_lock_destroy_def new_session_lock_def)

lemma dead_lock_refuses_locks_witness:
  "new_session_lock ex_env 9 (active_lock_destroy (ex_server\<lparr>locked := True, active_lock := Some 3\<rparr>)) =
     emit (System (LockDestroy 9)) (active_lock_destroy (ex_server\<lparr>locked := True, active_lock := Some 3\<rparr>))"
  using dead_lock_refuses_locks [of "ex_server\<lparr>locked := True, active_lock := Some 3\<rparr>" ex_env 9] by simp

text \<open>
  Unlocking destroys every node of the lock tree, the trees of the lock surfaces
  included, but leaves the destroy listeners of those surfaces in place: when the
  client's surfaces go away after the unlock, the handler destroys a freed node.
\<close>

theorem unlock_then_surface_destroy:
  "lock_surface_destroy l (active_lock_unlock s) = None"
  by (simp add: lock_surface_destroy_def active_lock_unlock_def)

text \<open>
  An output plugged in while the session is locked is not covered: the lock tree
  gets no rectangle for it, and a workspace is shown on it.
\<close>

theorem new_output_uncovered:
  assumes "shown_ok s" and "i \<notin> set (outputs s)" and "length (outputs s) < 9" and "locked s"
  shows "locked (kum_new_output E i s) \<and> lock_children (kum_new_output E i s) = lock_children s \<and>
     ws_enabled (active_ws (kum_new_output E i s) i) (trace (kum_new_output E i s))"
proof -
  have c: "lock_children (configure_output E k u) = lock_children u" for k u
    by (simp add: configure_output_def Let_def split: option.split)
  have "lock_children (fold (configure_output E) ks u) = lock_children u" for ks u
    by (induction ks arbitrary: u) (simp_all add: c)
  then have "lock_children (kum_new_output E i s) = lock_children s"
    by (simp add: kum_new_output_def kum_output_configure_all_def Let_def)
  moreover have "locked (kum_new_output E i s)" using assms(4) by (simp add: kum_new_output_def Let_def)
  moreover have "shown_ok (kum_new_output E i s) \<and> i \<in> set (outputs (kum_new_output E i s))"
    using new_output_effect [OF assms(1-3)] by simp
  ultimately show ?thesis by (auto simp: shown_ok_def visible_ok_def server_ok_def outputs_ok_def)
qed

lemma new_output_uncovered_witness:
  "lock_children (kum_new_output ex_env 3 (ex_server\<lparr>locked := True\<rparr>)) = [] \<and>
   ws_enabled (active_ws (kum_new_output ex_env 3 (ex_server\<lparr>locked := True\<rparr>)) 3) (trace (kum_new_output ex_env 3 (ex_server\<lparr>locked := True\<rparr>)))"
  using new_output_uncovered [OF lock_fields_shown(3) [OF ex_shown, of True], of 3 ex_env] by simp

end
