(* ===== verification/Devices.thy ===== *)
theory Devices
  imports Lock
begin

text \<open>
  What the compositor does to its input devices: the keyboard layouts
  (\<open>src/kblayout.c\<close>), the libinput settings of the pointers (\<open>src/inputcfg.c\<close>) and
  the programs started with the session (\<open>src/autostart.c\<close>). The static variables of
  \<open>kblayout.c\<close> are the fields \<open>split_layouts\<close> (its length is \<open>layout_count\<close>) and
  \<open>layout_current\<close> of the server.
\<close>

section \<open>Keyboard layouts\<close>

definition parse_layouts :: "string \<Rightarrow> string list" where
  "parse_layouts str = take 16 (map (dropWhile (\<lambda>c. c = CHR '' '')) (strtok_all (CHR '','') (strncpy 511 str)))"

definition or_null :: "string \<Rightarrow> string option" where
  "or_null s = (if s = [] then None else Some s)"

definition apply_layout_to :: "env \<Rightarrow> nat \<Rightarrow> nat \<Rightarrow> kum_server \<Rightarrow> kum_server" where
  "apply_layout_to E idx kb s =
     (let model = or_null (cfg_kb_model (cfg s));
          layout = Some (if split_layouts s \<noteq> [] then split_layouts s ! idx else cfg_kb_layout (cfg s));
          variant = or_null (cfg_kb_variant (cfg s));
          options = or_null (cfg_kb_options (cfg s))
      in if in_keymap_ok (input_q E) model layout variant options
         then emit (Device (KeyboardKeymap kb model layout variant options)) s else s)"

definition apply_layout :: "env \<Rightarrow> nat \<Rightarrow> kum_server \<Rightarrow> kum_server" where
  "apply_layout E idx s = fold (apply_layout_to E idx) (keyboards s) s"

definition kum_kb_layout_init :: "kum_server \<Rightarrow> kum_server" where
  "kum_kb_layout_init s =
     (let s1 = (if cfg_kb_layout (cfg s) \<noteq> [] then s\<lparr>split_layouts := parse_layouts (cfg_kb_layout (cfg s))\<rparr> else s)
      in s1\<lparr>layout_current := 0\<rparr>)"

definition kb_layout_msg :: "string \<Rightarrow> string" where
  "kb_layout_msg l =
     ''{'' @ jstr ''event'' @ '':'' @ jstr ''kb_layout'' @ '','' @ jstr ''layout'' @ '':'' @ jstr l @ ''}'' @ [NL]"

definition kum_kb_layout_next :: "env \<Rightarrow> kum_server \<Rightarrow> kum_server" where
  "kum_kb_layout_next E s =
     (let n = length (split_layouts s) in
      if n < 2 then s
      else
        let cur = (layout_current s + 1) mod n;
            s1 = apply_layout E cur (s\<lparr>layout_current := cur\<rparr>)
        in kum_ipc_broadcast E (snprintf 64 (kb_layout_msg (split_layouts s1 ! cur))) s1)"

section \<open>Pointers\<close>

definition configure_libinput_device :: "env \<Rightarrow> nat \<Rightarrow> kum_server \<Rightarrow> kum_server" where
  "configure_libinput_device E d s =
     (let c = cfg s; q = input_q E;
          s1 = (if 0 < in_tap_fingers q d then emit (Device (LibinputTap d (cfg_tap_to_click c))) s else s);
          s2 = (if in_natural_scroll q d then emit (Device (LibinputNaturalScroll d (cfg_natural_scroll c))) s1 else s1);
          s3 = (if in_dwt q d then emit (Device (LibinputDwt d (cfg_disable_while_typing c))) s2 else s2);
          s4 = (if in_accel q d then emit (Device (LibinputAccel d (cfg_pointer_accel c))) s3 else s3)
      in if in_external_mouse q d then emit (Device (LibinputSendEvents d)) s4 else s4)"

definition kum_input_configure_device :: "env \<Rightarrow> nat \<Rightarrow> kum_server \<Rightarrow> kum_server" where
  "kum_input_configure_device E d s =
     (if in_device_type (input_q E) d \<noteq> DevicePointer then s
      else if \<not> in_libinput (input_q E) d then s
      else configure_libinput_device E d s)"

definition kum_input_configure :: "env \<Rightarrow> kum_server \<Rightarrow> kum_server" where
  "kum_input_configure E s = fold (kum_input_configure_device E) (pointers s) s"

section \<open>Programs\<close>

text \<open>\<open>fork\<close>, \<open>setsid\<close> and the \<open>exec\<close> of the child.\<close>

definition kum_autostart_run :: "kum_server \<Rightarrow> kum_server" where
  "kum_autostart_run s =
     fold (\<lambda>cmd t. if cmd = [] then t else emit (System (Spawn [''sh'', ''-c'', cmd])) t) (cfg_autostart (cfg s)) s"

section \<open>Frames\<close>

lemma apply_layout_step_quiet: "quiet s (apply_layout_to E idx kb s)"
  by (simp add: apply_layout_to_def Let_def)

lemma fold_quiet: "(\<And>x t. quiet t (f x t)) \<Longrightarrow> quiet s (fold f xs s)"
  by (induction xs arbitrary: s) (auto intro: quiet_trans)

lemma apply_layout_quiet: "quiet s (apply_layout E idx s)"
  unfolding apply_layout_def by (rule fold_quiet) (rule apply_layout_step_quiet)

lemma quiet_emit_if: "quiet s t \<Longrightarrow> plain c \<Longrightarrow> quiet s (if b then emit c t else t)"
  by (simp add: quiet_trans [OF _ quiet_emit])

lemma configure_device_quiet: "quiet s (kum_input_configure_device E d s)"
proof -
  have "quiet s (configure_libinput_device E d s)"
    unfolding configure_libinput_device_def Let_def by (intro quiet_emit_if quiet_refl) simp_all
  then show ?thesis by (simp add: kum_input_configure_device_def)
qed

lemma input_configure_quiet [kum_frame]: "quiet s (kum_input_configure E s)"
  unfolding kum_input_configure_def by (rule fold_quiet) (rule configure_device_quiet)

lemma autostart_quiet [kum_frame]: "quiet s (kum_autostart_run s)"
  unfolding kum_autostart_run_def by (rule fold_quiet) simp

lemma layout_fields_gentle [gentle]:
  "gentle s (s\<lparr>layout_current := n\<rparr>)" "gentle s (s\<lparr>split_layouts := ls\<rparr>)"
  by (auto simp: gentle_def same_view_def ws_of_def xws_of_def fun_eq_iff)

lemma kb_layout_next_gentle [gentle]: "gentle s (kum_kb_layout_next E s)"
proof -
  have "gentle s (kum_ipc_broadcast E m (apply_layout E n (s\<lparr>layout_current := n\<rparr>)))" for n m
    by (rule gentle_trans [OF layout_fields_gentle(1) quiet_gentle [OF quiet_trans [OF apply_layout_quiet broadcast_quiet]]])
  then show ?thesis by (simp add: kum_kb_layout_next_def Let_def)
qed

lemma kb_layout_init_gentle [gentle]: "gentle s (kum_kb_layout_init s)"
  using layout_fields_gentle(1) [of s 0] gentle_trans [OF layout_fields_gentle(2) layout_fields_gentle(1)]
  by (simp add: kum_kb_layout_init_def Let_def)

section \<open>The layout in use\<close>

text \<open>The static index always names a parsed layout, when there is one.\<close>

definition layout_ok :: "kum_server \<Rightarrow> bool" where
  "layout_ok s \<longleftrightarrow> (split_layouts s = [] \<or> layout_current s < length (split_layouts s)) \<and> length (split_layouts s) \<le> 16"

lemma kb_next_fields:
  assumes "2 \<le> length (split_layouts s)"
  shows "layout_current (kum_kb_layout_next E s) = (layout_current s + 1) mod length (split_layouts s)"
    and "split_layouts (kum_kb_layout_next E s) = split_layouts s"
proof -
  let ?t = "apply_layout E ((layout_current s + 1) mod length (split_layouts s))
    (s\<lparr>layout_current := (layout_current s + 1) mod length (split_layouts s)\<rparr>)"
  note q = quiet_fields [OF quiet_trans [OF apply_layout_quiet broadcast_quiet]]
  show "layout_current (kum_kb_layout_next E s) = (layout_current s + 1) mod length (split_layouts s)"
    "split_layouts (kum_kb_layout_next E s) = split_layouts s"
    using assms by (simp_all add: kum_kb_layout_next_def Let_def q)
qed

lemma kb_next_power:
  assumes "2 \<le> length (split_layouts s)"
  shows "layout_current ((kum_kb_layout_next E ^^ k) s) = (if k = 0 then layout_current s else (layout_current s + k) mod length (split_layouts s)) \<and>
    split_layouts ((kum_kb_layout_next E ^^ k) s) = split_layouts s"
proof (induction k)
  case 0
  then show ?case by simp
next
  case (Suc k)
  then have "2 \<le> length (split_layouts ((kum_kb_layout_next E ^^ k) s))" using assms by simp
  from kb_next_fields [OF this] Suc show ?case by (simp add: mod_Suc_eq)
qed



lemma parse_layouts_bound: "length (parse_layouts l) \<le> 16"
  by (simp add: parse_layouts_def)

lemma kb_layout_init_ok: "layout_ok s \<Longrightarrow> layout_ok (kum_kb_layout_init s)"
  by (auto simp: layout_ok_def kum_kb_layout_init_def Let_def parse_layouts_bound)

text \<open>
  A layout name of more than 29 characters loses the end of its message: what the
  clients get has no newline, so they read it together with the next event.
\<close>

lemma kb_layout_msg_length: "length (kb_layout_msg l) = length l + 34"
  by (simp add: kb_layout_msg_def jstr_def)

lemma long_layout_unterminated:
  assumes "29 < length l" and "NL \<notin> set l"
  shows "NL \<notin> set (snprintf 64 (kb_layout_msg l))"
proof -
  define pre where "pre = ''{'' @ jstr ''event'' @ '':'' @ jstr ''kb_layout'' @ '','' @ jstr ''layout'' @ '':'' @ jstr l @ ''}''"
  have msg: "kb_layout_msg l = pre @ [NL]" by (simp add: kb_layout_msg_def pre_def)
  have "length pre = length l + 33" by (simp add: pre_def jstr_def)
  then have "snprintf 64 (kb_layout_msg l) = take 63 pre" using assms(1) by (simp add: snprintf_def msg)
  moreover have "NL \<notin> set pre" using assms(2) by (simp add: pre_def jstr_def QUOTE_def NL_def)
  ultimately show ?thesis using in_set_takeD by metis
qed

end
