(* ===== verification/Keybind.thy ===== *)
theory Keybind
  imports Devices
begin

text \<open>
  The key bindings (\<open>src/keybind.c\<close>): their actions, the list they are registered in,
  the lookup and the three tables of default bindings. A key symbol is its XKB name
  without \<open>XKB_KEY_\<close>.
\<close>

section \<open>Actions on windows\<close>

text \<open>The search for the mapped window that had the focus the longest time ago.\<close>

fun oldest_toplevel :: "env \<Rightarrow> kum_server \<Rightarrow> tid list \<Rightarrow> 64 word \<times> tid option \<Rightarrow> 64 word \<times> tid option" where
  "oldest_toplevel E s [] b = b"
| "oldest_toplevel E s (t # ts) b =
     oldest_toplevel E s ts
       (if \<not> tl_mapped E t then b
        else if tl_focus_serial (toplevel_at s t) < fst b then (tl_focus_serial (toplevel_at s t), Some t) else b)"

text \<open>The X11 windows, among them one without a surface (\<open>None\<close>: its \<open>mapped\<close> is read).\<close>

fun oldest_xwayland :: "env \<Rightarrow> kum_server \<Rightarrow> xid list \<Rightarrow> 64 word \<times> xid option \<Rightarrow> (64 word \<times> xid option) option" where
  "oldest_xwayland E s [] b = Some b"
| "oldest_xwayland E s (x # xs) b =
     (if xw_surface E x = None then None
      else oldest_xwayland E s xs
        (if \<not> xw_mapped E x then b
         else if xs_focus_serial (xsurface_at s x) < fst b then (xs_focus_serial (xsurface_at s x), Some x) else b))"

definition UINT64_MAX :: "64 word" where "UINT64_MAX = - 1"

definition action_cycle_focus :: "env \<Rightarrow> kum_server \<Rightarrow> kum_server option" where
  "action_cycle_focus E s =
     (let (serial, tl) = oldest_toplevel E s (toplevels s) (UINT64_MAX, None) in
      case oldest_xwayland E s (xwayland_surfaces s) (serial, None) of
        None \<Rightarrow> None
      | Some (_, Some x) \<Rightarrow> kum_focus_xwayland_surface E x s
      | Some (_, None) \<Rightarrow> (case tl of None \<Rightarrow> Some s | Some t \<Rightarrow> kum_focus_toplevel E t (tl_surface E t) s))"

definition action_close_focused :: "kum_server \<Rightarrow> kum_server" where
  "action_close_focused s =
     (case focused s of
        Some t \<Rightarrow> emit (Shell (XdgSendClose t)) s
      | None \<Rightarrow> (case focused_xwayland s of Some x \<Rightarrow> emit (Shell (XwClose x)) s | None \<Rightarrow> s))"

definition action_toggle_floating :: "env \<Rightarrow> kum_server \<Rightarrow> kum_server option" where
  "action_toggle_floating E s =
     (case focused s of
        None \<Rightarrow> Some s
      | Some t \<Rightarrow>
          if layout_of s (ws_of s t) \<noteq> LAYOUT_TILE then Some s
          else
            let s1 = upd_tl t (\<lambda>r. r\<lparr>tl_floating := \<not> tl_floating r\<rparr>) s
            in kum_workspace_arrange E (kum_output_focused E s1) (ws_of s t) s1)"

definition action_toggle_layout :: "env \<Rightarrow> kum_server \<Rightarrow> kum_server option" where
  "action_toggle_layout E s = kum_workspace_toggle_layout E (kum_output_focused E s) s"

definition action_switch_workspace :: "env \<Rightarrow> int \<Rightarrow> kum_server \<Rightarrow> kum_server option" where
  "action_switch_workspace E index s =
     (case kum_output_focused E s of
        None \<Rightarrow> Some s
      | Some i \<Rightarrow>
          let k = (if active_ws s i = index then previous_workspace (output_at s i) else index)
          in kum_workspace_switch E (Some i) k s)"

definition action_move_to_workspace :: "env \<Rightarrow> int \<Rightarrow> kum_server \<Rightarrow> kum_server option" where
  "action_move_to_workspace E index s =
     (case focused s of
        Some t \<Rightarrow> kum_workspace_move_toplevel E t index s
      | None \<Rightarrow>
          (case focused_xwayland s of
             Some x \<Rightarrow> Some (kum_workspace_move_xwayland_surface E x index s)
           | None \<Rightarrow> Some s))"

definition action_layout_monocle :: "env \<Rightarrow> kum_server \<Rightarrow> kum_server option" where
  "action_layout_monocle E s =
     (case kum_output_focused E s of
        None \<Rightarrow> Some s
      | Some i \<Rightarrow>
          let w = active_ws s i
          in kum_workspace_arrange E (Some i) w (upd_ws w (\<lambda>r. r\<lparr>ws_layout := LAYOUT_MONOCLE\<rparr>) s))"

definition action_toggle_fullscreen :: "env \<Rightarrow> kum_server \<Rightarrow> kum_server" where
  "action_toggle_fullscreen E s =
     (case focused s of
        Some t \<Rightarrow> kum_toplevel_toggle_fullscreen E t s
      | None \<Rightarrow> (case focused_xwayland s of Some x \<Rightarrow> kum_xwayland_toggle_fullscreen E x s | None \<Rightarrow> s))"

section \<open>Actions that start programs\<close>

definition spawn_shell :: "string \<Rightarrow> kum_server \<Rightarrow> kum_server" where
  "spawn_shell cmd = emit (System (Spawn [''sh'', ''-c'', cmd]))"

definition action_shutdown :: "kum_server \<Rightarrow> kum_server" where
  "action_shutdown s = emit (System (Spawn [''systemctl'', ''poweroff''])) (emit (System DisplayTerminate) s)"

section \<open>Dispatch\<close>

fun run_action :: "env \<Rightarrow> action \<Rightarrow> kum_server \<Rightarrow> kum_server option" where
  "run_action E AQuit s = Some (emit (System DisplayTerminate) s)"
| "run_action E ACycleFocus s = action_cycle_focus E s"
| "run_action E ACloseFocused s = Some (action_close_focused s)"
| "run_action E AToggleLayout s = action_toggle_layout E s"
| "run_action E AToggleFloating s = action_toggle_floating E s"
| "run_action E (ASwitchWorkspace i) s = action_switch_workspace E i s"
| "run_action E (AMoveToWorkspace i) s = action_move_to_workspace E i s"
| "run_action E (AFocus dx dy) s = kum_output_focus_adjacent E dx dy s"
| "run_action E AToggleFullscreen s = Some (action_toggle_fullscreen E s)"
| "run_action E AScratchpad s = kum_workspace_scratchpad_toggle E s"
| "run_action E ALayoutMonocle s = action_layout_monocle E s"
| "run_action E AKbLayoutNext s = Some (kum_kb_layout_next E s)"
| "run_action E ASwapMaster s = kum_tiling_swap_master E s"
| "run_action E (AResize dx dy) s = kum_tiling_resize E dx dy s"
| "run_action E (AExec argv) s = Some (emit (System (Spawn argv)) s)"
| "run_action E (AShell cmd) s = Some (spawn_shell cmd s)"
| "run_action E AShutdown s = Some (action_shutdown s)"

definition kum_keybind_register :: "modifiers \<Rightarrow> keysym \<Rightarrow> action \<Rightarrow> kum_server \<Rightarrow> kum_server" where
  "kum_keybind_register m ks a s =
     s\<lparr>keybinds := wl_insert \<lparr>kb_modifiers = m, kb_sym = ks, kb_action = a\<rparr> (keybinds s)\<rparr>"

text \<open>Whether a binding matched, with the state after its action.\<close>

definition kum_keybind_handle :: "env \<Rightarrow> modifiers \<Rightarrow> keysym \<Rightarrow> kum_server \<Rightarrow> (bool \<times> kum_server) option" where
  "kum_keybind_handle E m ks s =
     (case List.find (\<lambda>k. kb_modifiers k = m \<and> kb_sym k = ks) (keybinds s) of
        None \<Rightarrow> Some (False, s)
      | Some k \<Rightarrow> map_option (Pair True) (run_action E (kb_action k) s))"

section \<open>The default bindings\<close>

type_synonym bind_row = "modifiers \<times> keysym \<times> action"

definition mod_s :: modifiers where "mod_s = insert WLR_MODIFIER_SHIFT KUM_MOD_KEY"

definition ws_keys :: "keysym list" where
  "ws_keys = [''1'', ''2'', ''3'', ''4'', ''5'', ''6'', ''7'', ''8'', ''9'']"

definition default_rows :: "bind_row list" where
  "default_rows =
     [(KUM_MOD_KEY, ''q'', AQuit), (KUM_MOD_KEY, ''Tab'', ACycleFocus), (mod_s, ''c'', ACloseFocused),
      (KUM_MOD_KEY, ''t'', AToggleLayout), (KUM_MOD_KEY, ''space'', AToggleFloating)] @
     concat (map (\<lambda>i. [(KUM_MOD_KEY, ws_keys ! nat i, ASwitchWorkspace i), (mod_s, ws_keys ! nat i, AMoveToWorkspace i)])
       [0..KUM_WORKSPACE_COUNT - 1])"

definition extended_rows :: "bind_row list" where
  "extended_rows =
     [(KUM_MOD_KEY, ''Left'', AFocus (-1) 0), (KUM_MOD_KEY, ''Right'', AFocus 1 0),
      (KUM_MOD_KEY, ''Up'', AFocus 0 (-1)), (KUM_MOD_KEY, ''Down'', AFocus 0 1),
      (mod_s, ''f'', AToggleFullscreen), (KUM_MOD_KEY, ''grave'', AScratchpad),
      (KUM_MOD_KEY, ''m'', ALayoutMonocle)]"

definition session_rows :: "bind_row list" where
  "session_rows =
     [(KUM_MOD_KEY, ''k'', AKbLayoutNext), (KUM_MOD_KEY, ''Return'', ASwapMaster),
      (mod_s, ''Right'', AResize 40 0), (mod_s, ''Left'', AResize (-40) 0),
      (mod_s, ''Down'', AResize 0 40), (mod_s, ''Up'', AResize 0 (-40)),
      (KUM_MOD_KEY, ''Print'', AExec [''kumshot'']), (mod_s, ''Print'', AExec [''kumshot'', ''-r'']),
      (mod_s, ''q'', AShutdown), (mod_s, ''l'', AExec [''kumlock'']),
      ({}, ''XF86AudioRaiseVolume'', AShell ''wpctl set-volume -l 1.0 @DEFAULT_AUDIO_SINK@ 5%+''),
      ({}, ''XF86AudioLowerVolume'', AShell ''wpctl set-volume @DEFAULT_AUDIO_SINK@ 5%-''),
      ({}, ''XF86AudioMute'', AShell ''wpctl set-mute @DEFAULT_AUDIO_SINK@ toggle''),
      ({}, ''XF86MonBrightnessUp'', AShell ''brightnessctl set 5%+''),
      ({}, ''XF86MonBrightnessDown'', AShell ''brightnessctl set 5%-'')]"

definition register_rows :: "bind_row list \<Rightarrow> kum_server \<Rightarrow> kum_server" where
  "register_rows rows s = fold (\<lambda>(m, ks, a). kum_keybind_register m ks a) rows s"

definition kum_keybind_setup_defaults :: "kum_server \<Rightarrow> kum_server" where
  "kum_keybind_setup_defaults = register_rows default_rows"

definition kum_keybind_setup_extended :: "kum_server \<Rightarrow> kum_server" where
  "kum_keybind_setup_extended = register_rows extended_rows"

definition kum_keybind_setup_session :: "kum_server \<Rightarrow> kum_server" where
  "kum_keybind_setup_session = register_rows session_rows"

section \<open>Actions keep the state consistent\<close>

lemma oldest_xwayland_mem:
  "oldest_xwayland E s xs b = Some (n, Some x) \<Longrightarrow> snd b = Some x \<or> x \<in> set xs"
proof (induction xs arbitrary: b)
  case (Cons y ys)
  let ?c = "if \<not> xw_mapped E y then b
    else if xs_focus_serial (xsurface_at s y) < fst b then (xs_focus_serial (xsurface_at s y), Some y) else b"
  have "oldest_xwayland E s ys ?c = Some (n, Some x)" using Cons.prems by (simp split: if_split_asm)
  from Cons.IH [OF this] show ?case by (auto split: if_split_asm)
qed simp

lemma oldest_toplevel_mem:
  "snd (oldest_toplevel E s ts b) = Some t \<Longrightarrow> snd b = Some t \<or> t \<in> set ts"
proof (induction ts arbitrary: b)
  case (Cons y ys)
  let ?c = "if \<not> tl_mapped E y then b
    else if tl_focus_serial (toplevel_at s y) < fst b then (tl_focus_serial (toplevel_at s y), Some y) else b"
  have "snd (oldest_toplevel E s ys ?c) = Some t" using Cons.prems by simp
  from Cons.IH [OF this] show ?case by (auto split: if_split_asm)
qed simp

lemma cycle_focus_shown [kum_inv]:
  assumes "action_cycle_focus E s = Some s'" and "shown_ok s"
  shows "shown_ok s'"
proof -
  obtain serial tl where o: "oldest_toplevel E s (toplevels s) (UINT64_MAX, None) = (serial, tl)" by fastforce
  then have t: "t \<in> set (toplevels s)" if "tl = Some t" for t
    using oldest_toplevel_mem [of E s "toplevels s" "(UINT64_MAX, None)" t] that by simp
  have x: "x \<in> set (xwayland_surfaces s)" if "oldest_xwayland E s (xwayland_surfaces s) (serial, None) = Some (n, Some x)" for x n
    using oldest_xwayland_mem [OF that] by simp
  show ?thesis
    using assms t x focus_toplevel_shown focus_xwayland_shown
    by (fastforce simp: action_cycle_focus_def o split: option.splits prod.splits)
qed

lemma move_toplevel_shown:
  assumes "kum_workspace_move_toplevel E t i s = Some s'" and "shown_ok s" and "t \<in> set (toplevels s)"
  shows "shown_ok s'"
proof (cases "ws_ok i")
  case True
  from move_toplevel_effect [OF assms True] show ?thesis by blast
next
  case False
  with assms(1,2) show ?thesis using move_toplevel_noop by simp
qed

lemma focus_listed:
  assumes "shown_ok s"
  shows "focused s = Some t \<Longrightarrow> t \<in> set (toplevels s)"
    and "focused_xwayland s = Some x \<Longrightarrow> x \<in> set (xwayland_surfaces s)"
  using assms by (simp_all add: shown_ok_def server_ok_def focus_ok_def)

lemma run_action_shown [kum_inv]:
  assumes "run_action E a s = Some s'" and "shown_ok s"
  shows "shown_ok s'"
proof (cases a)
  case ACycleFocus
  with assms show ?thesis using cycle_focus_shown by simp
next
  case ACloseFocused
  with assms show ?thesis
    by (auto simp: action_close_focused_def split: option.splits intro: gentle_shown [OF gentle_emit])
next
  case AToggleFloating
  have "gentle s (upd_tl t (\<lambda>r. r\<lparr>tl_floating := \<not> tl_floating r\<rparr>) s)" for t by (rule gentle_upd_tl) simp
  with assms AToggleFloating show ?thesis
    by (auto simp: action_toggle_floating_def Let_def split: option.splits if_splits
        intro: gentle_shown [OF gentle_trans [OF _ gentle_arrange]])
next
  case (ASwitchWorkspace i)
  with assms show ?thesis
    using switch_shown output_focused_mem
    by (auto simp: action_switch_workspace_def Let_def split: option.splits)
next
  case (AMoveToWorkspace i)
  with assms have m: "action_move_to_workspace E i s = Some s'" by simp
  show ?thesis
  proof (cases "focused s")
    case (Some t)
    with m have "kum_workspace_move_toplevel E t i s = Some s'" by (simp add: action_move_to_workspace_def)
    then show ?thesis using move_toplevel_shown assms(2) focus_listed(1) [OF assms(2) Some] by blast
  next
    case None
    with m assms(2) focus_listed(2) [OF assms(2)] show ?thesis
      by (cases "focused_xwayland s") (auto simp: action_move_to_workspace_def intro: move_xwayland_shown)
  qed
next
  case ALayoutMonocle
  with assms show ?thesis
    using gentle_shown [OF gentle_arrange set_layout_shown]
    by (auto simp: action_layout_monocle_def Let_def split: option.splits)
next
  case AToggleFullscreen
  with assms show ?thesis
    by (auto simp: action_toggle_fullscreen_def kum_toplevel_toggle_fullscreen_def kum_xwayland_toggle_fullscreen_def
        split: option.splits intro: gentle_shown [OF set_fullscreen_gentle] gentle_shown [OF xw_fullscreen_gentle])
next
  case AShutdown
  with assms show ?thesis by (auto simp: action_shutdown_def intro!: gentle_shown [OF gentle_emit])
next
  case AKbLayoutNext
  with assms show ?thesis using gentle_shown [OF kb_layout_next_gentle] by auto
next
  case (AExec argv)
  with assms show ?thesis by (auto intro!: gentle_shown [OF gentle_emit])
next
  case (AShell cmd)
  with assms show ?thesis by (auto simp: spawn_shell_def intro!: gentle_shown [OF gentle_emit])
next
  case AQuit
  with assms show ?thesis by (auto intro!: gentle_shown [OF gentle_emit])
next
  case AToggleLayout
  with assms show ?thesis by (simp add: action_toggle_layout_def toggle_layout_shown)
qed (use assms scratchpad_shown swap_master_shown tiling_resize_shown focus_adjacent_shown in simp_all)

section \<open>The tables bind every combination once\<close>

definition bind_of :: "bind_row \<Rightarrow> kum_keybind" where
  "bind_of r = \<lparr>kb_modifiers = fst r, kb_sym = fst (snd r), kb_action = snd (snd r)\<rparr>"

lemma register_rows_eq: "register_rows rows s = s\<lparr>keybinds := rev (map bind_of rows) @ keybinds s\<rparr>"
proof (induction rows arbitrary: s)
  case (Cons r rows)
  have "register_rows (r # rows) s = register_rows rows (s\<lparr>keybinds := bind_of r # keybinds s\<rparr>)"
    by (cases r) (simp add: register_rows_def kum_keybind_register_def bind_of_def wl_insert_def)
  then show ?case by (simp add: Cons.IH)
qed (simp add: register_rows_def)

definition all_rows :: "bind_row list" where
  "all_rows = default_rows @ extended_rows @ session_rows"

text \<open>The tables only use three combinations of modifiers, told apart by two of them.\<close>

definition mods_code :: "modifiers \<Rightarrow> nat" where
  "mods_code m = (if WLR_MODIFIER_LOGO \<notin> m then 0 else if WLR_MODIFIER_SHIFT \<notin> m then 1 else 2)"

lemma workspace_indices: "[0..KUM_WORKSPACE_COUNT - 1] = [0, 1, 2, 3, 4, 5, 6, 7, 8]"
  unfolding KUM_WORKSPACE_COUNT_def by code_simp

lemma mods_codes: "mods_code KUM_MOD_KEY = 1" "mods_code mod_s = 2" "mods_code {} = 0"
  by (simp_all add: mods_code_def KUM_MOD_KEY_def mod_s_def)

lemmas rows_defs = default_rows_def extended_rows_def session_rows_def ws_keys_def workspace_indices

lemma all_rows_codes: "distinct (map (\<lambda>r. (mods_code (fst r), fst (snd r))) all_rows)"
  by (simp add: all_rows_def rows_defs mods_codes)

lemma all_rows_distinct: "distinct (map (\<lambda>r. (fst r, fst (snd r))) all_rows)"
proof -
  have "map (\<lambda>r. (mods_code (fst r), fst (snd r))) all_rows = map (\<lambda>(m, k). (mods_code m, k)) (map (\<lambda>r. (fst r, fst (snd r))) all_rows)"
    by simp
  then have "distinct (map (\<lambda>(m, k). (mods_code m, k)) (map (\<lambda>r. (fst r, fst (snd r))) all_rows))"
    using all_rows_codes by metis
  then show ?thesis unfolding distinct_map [of _ "map (\<lambda>r. (fst r, fst (snd r))) all_rows"] by (rule conjunct1)
qed

lemma setup_keybinds:
  "keybinds (kum_keybind_setup_session (kum_keybind_setup_extended (kum_keybind_setup_defaults (s\<lparr>keybinds := []\<rparr>)))) =
     rev (map bind_of all_rows)"
  by (simp add: kum_keybind_setup_session_def kum_keybind_setup_extended_def kum_keybind_setup_defaults_def
      register_rows_eq all_rows_def)

lemma handle_row:
  assumes "keybinds s = rev (map bind_of rows)" and "distinct (map (\<lambda>r. (fst r, fst (snd r))) rows)"
    and "(m, k, a) \<in> set rows"
  shows "kum_keybind_handle E m k s = map_option (Pair True) (run_action E a s)"
proof -
  have "List.find (\<lambda>b. kb_modifiers b = m \<and> kb_sym b = k) (keybinds s) = Some (bind_of (m, k, a))"
  proof (rule find_unique)
    show "bind_of (m, k, a) \<in> set (keybinds s)" using assms(1,3) by auto
    fix b assume b: "b \<in> set (keybinds s)" "kb_modifiers b = m \<and> kb_sym b = k"
    then obtain r where r: "r \<in> set rows" "b = bind_of r" using assms(1) by auto
    then have "(fst r, fst (snd r)) = (m, k)" using b(2) by (simp add: bind_of_def)
    then have eq: "(fst r, fst (snd r)) = (fst (m, k, a), fst (snd (m, k, a)))" by simp
    have inj: "inj_on (\<lambda>r. (fst r, fst (snd r))) (set rows)" using assms(2) by (simp add: distinct_map)
    have "r = (m, k, a)" by (rule inj_onD [OF inj eq r(1) assms(3)])
    then show "b = bind_of (m, k, a)" using r(2) by simp
  qed (simp add: bind_of_def)
  then show ?thesis by (simp add: kum_keybind_handle_def bind_of_def)
qed

lemma handle_unbound:
  assumes "keybinds s = rev (map bind_of rows)" and "\<forall>a. (m, k, a) \<notin> set rows"
  shows "kum_keybind_handle E m k s = Some (False, s)"
proof -
  have "List.find (\<lambda>b. kb_modifiers b = m \<and> kb_sym b = k) (keybinds s) = None"
    using assms by (auto simp: find_None_iff bind_of_def)
  then show ?thesis by (simp add: kum_keybind_handle_def)
qed

text \<open>
  C3. The three default tables bind every combination of modifiers and key at most once,
  so none shadows another: pressing a bound combination runs exactly the action of its row,
  any other combination runs nothing and is left to the focused window.
\<close>

theorem default_binds_dispatch:
  assumes "s = kum_keybind_setup_session (kum_keybind_setup_extended (kum_keybind_setup_defaults (s0\<lparr>keybinds := []\<rparr>)))"
  shows "((m, k, a) \<in> set (default_rows @ extended_rows @ session_rows) \<longrightarrow>
            kum_keybind_handle E m k s = map_option (Pair True) (run_action E a s)) \<and>
         ((\<forall>b. (m, k, b) \<notin> set (default_rows @ extended_rows @ session_rows)) \<longrightarrow>
            kum_keybind_handle E m k s = Some (False, s))"
  using handle_row [OF setup_keybinds all_rows_distinct] handle_unbound [OF setup_keybinds]
  unfolding assms all_rows_def [symmetric] by blast

definition ex_bound :: kum_server where
  "ex_bound = kum_keybind_setup_session (kum_keybind_setup_extended (kum_keybind_setup_defaults (ex_server\<lparr>keybinds := []\<rparr>)))"

lemma default_binds_dispatch_witness:
  "kum_keybind_handle ex_env {WLR_MODIFIER_LOGO} ''q'' ex_bound = Some (True, emit (System DisplayTerminate) ex_bound) \<and>
   kum_keybind_handle ex_env {WLR_MODIFIER_LOGO} ''z'' ex_bound = Some (False, ex_bound)"
proof -
  have "({WLR_MODIFIER_LOGO}, ''q'', AQuit) \<in> set (default_rows @ extended_rows @ session_rows)"
    by (simp add: default_rows_def KUM_MOD_KEY_def)
  moreover have "list_all (\<lambda>r. fst (snd r) \<noteq> ''z'') (default_rows @ extended_rows @ session_rows)"
    by (simp add: rows_defs)
  then have "\<forall>b. ({WLR_MODIFIER_LOGO}, ''z'', b) \<notin> set (default_rows @ extended_rows @ session_rows)"
    unfolding list_all_iff by (metis fst_conv snd_conv)
  ultimately show ?thesis
    using default_binds_dispatch [OF ex_bound_def, of "{WLR_MODIFIER_LOGO}" "''q''" AQuit ex_env]
      default_binds_dispatch [OF ex_bound_def, of "{WLR_MODIFIER_LOGO}" "''z''" AQuit ex_env] by simp
qed

section \<open>Switching back and forth\<close>

text \<open>
  C6. The key of a workspace pressed twice returns to where the user was: the first press
  shows the workspace on the output with the pointer, the second press (the workspace is
  now the active one) goes back to the previous workspace, and every screen shows what it
  showed before.
\<close>

theorem switch_back_and_forth:
  assumes "shown_ok s" and "kum_output_focused E s = Some i" and "ws_ok k" and "active_ws s i \<noteq> k"
    and "action_switch_workspace E k s = Some s1" and "kum_output_focused E s1 = Some i"
    and "action_switch_workspace E k s1 = Some s2"
  shows "active_ws s1 i = k \<and> (\<forall>j \<in> set (outputs s). active_ws s2 j = active_ws s j) \<and> shown_ok s2"
proof -
  have i: "i \<in> set (outputs s)" using assms(2) by (rule output_focused_mem)
  have 1: "kum_workspace_switch E (Some i) k s = Some s1"
    using assms(2,4,5) by (simp add: action_switch_workspace_def)
  note e1 = switch_effect [OF assms(1) i assms(3,4) 1]
  have a1: "active_ws s1 i = k" using e1 i by (simp add: switched_def)
  have 2: "kum_workspace_switch E (Some i) (active_ws s i) s1 = Some s2"
    using assms(6,7) a1 e1 by (simp add: action_switch_workspace_def)
  have w: "ws_ok (active_ws s i)" using assms(1) i by (simp add: shown_ok_def server_ok_def outputs_ok_def)
  have "active_ws s1 i \<noteq> active_ws s i" using a1 assms(4) by simp
  note e2 = switch_effect [OF _ _ w this 2]
  have inj: "inj_on (active_ws s) (set (outputs s))" using assms(1) by (simp add: shown_ok_def server_ok_def outputs_ok_def)
  have "active_ws s2 j = active_ws s j" if j: "j \<in> set (outputs s)" for j
  proof -
    have "active_ws s2 j = switched s1 i (active_ws s i) j" using e1 e2 i j by simp
    then show ?thesis
      using e1 i j a1 inj assms(4) by (auto simp: switched_def inj_on_def split: if_splits)
  qed
  then show ?thesis using a1 e1 e2 i by simp
qed

lemma switch_back_and_forth_witness:
  "\<exists>s1 s2. action_switch_workspace ex_env 5 ex_server = Some s1 \<and> action_switch_workspace ex_env 5 s1 = Some s2 \<and>
     active_ws s1 1 = 5 \<and> active_ws s2 1 = 0"
proof -
  have "\<not> Option.is_none (Option.bind (action_switch_workspace ex_env 5 ex_server) (action_switch_workspace ex_env 5))"
    by code_simp
  then obtain s2 where "Option.bind (action_switch_workspace ex_env 5 ex_server) (action_switch_workspace ex_env 5) = Some s2"
    by (auto dest: some_of_not_none)
  then obtain s1 where s: "action_switch_workspace ex_env 5 ex_server = Some s1" "action_switch_workspace ex_env 5 s1 = Some s2"
    by (auto elim!: bind_SomeE)
  have f: "kum_output_focused ex_env t = (if 1 \<in> set (outputs t) then Some 1 else None)" for t
    by (auto simp: kum_output_focused_def ex_env_def output_of_wlr_def find_None_iff intro!: find_unique)
  have "ws_ok 5" by (simp add: ws_ok_def KUM_WORKSPACE_COUNT_def)
  moreover have "kum_workspace_switch ex_env (Some 1) 5 ex_server = Some s1"
    using s(1) f by (simp add: action_switch_workspace_def ex_active)
  then have "outputs s1 = [2, 1]"
    using switch_effect [OF ex_shown _ \<open>ws_ok 5\<close>, of 1 ex_env s1] by (simp add: ex_active)
  ultimately show ?thesis
    using switch_back_and_forth [OF ex_shown _ _ _ s(1) _ s(2), of 1] f s by (simp add: ex_active)
qed

end
