(* ===== verification/Input.thy ===== *)
theory Input
  imports Keybind
begin

text \<open>
  The input events (\<open>src/input.c\<close>): keyboards and pointers coming and going, keys,
  pointer motion with the interactive move and resize of a grabbed window, buttons,
  and the search for the window under a point (\<open>kum_scene_node_at\<close> of
  \<open>src/toplevel.c\<close>). Time stamps are not modelled.
\<close>

section \<open>Keyboards\<close>

definition keyboard_modifiers :: "nat \<Rightarrow> kum_server \<Rightarrow> kum_server" where
  "keyboard_modifiers kb s = emits [Seat (SetKeyboard kb), Seat (NotifyModifiers kb)] s"

text \<open>The bindings of every symbol of the key run, in order (\<open>handled |= ...\<close>).\<close>

fun handle_syms :: "env \<Rightarrow> modifiers \<Rightarrow> keysym list \<Rightarrow> bool \<Rightarrow> kum_server \<Rightarrow> (bool \<times> kum_server) option" where
  "handle_syms E m [] handled s = Some (handled, s)"
| "handle_syms E m (ks # kss) handled s =
     (case kum_keybind_handle E m ks s of
        None \<Rightarrow> None
      | Some (h, s1) \<Rightarrow> handle_syms E m kss (handled \<or> h) s1)"

definition keyboard_key :: "env \<Rightarrow> nat \<Rightarrow> nat \<Rightarrow> bool \<Rightarrow> kum_server \<Rightarrow> kum_server option" where
  "keyboard_key E kb code pressed s = do {
     let s0 = emit (Seat NotifyActivity) s;
     let kss = in_key_syms (input_q E) kb (code + 8);
     let m = in_modifiers (input_q E) kb;
     (handled, s1) \<leftarrow> (if \<not> locked s0 \<and> pressed then handle_syms E m kss False s0 else Some (False, s0));
     Some (if \<not> handled then emits [Seat (SetKeyboard kb), Seat (NotifyKey kb code pressed)] s1 else s1) }"

definition keyboard_destroy :: "nat \<Rightarrow> kum_server \<Rightarrow> kum_server" where
  "keyboard_destroy kb s = s\<lparr>keyboards := wl_remove kb (keyboards s)\<rparr>"

definition new_keyboard :: "nat \<Rightarrow> kum_server \<Rightarrow> kum_server" where
  "new_keyboard d s =
     (let s1 = emits [Device (KeyboardKeymap d None None None None), Device (KeyboardRepeat d 25 600),
                Seat (SetKeyboard d)] s
      in s1\<lparr>keyboards := wl_insert d (keyboards s1)\<rparr>)"

section \<open>Pointers and new devices\<close>

definition pointer_destroy :: "nat \<Rightarrow> kum_server \<Rightarrow> kum_server" where
  "pointer_destroy d s = s\<lparr>pointers := wl_remove d (pointers s)\<rparr>"

definition new_pointer :: "env \<Rightarrow> nat \<Rightarrow> kum_server \<Rightarrow> kum_server" where
  "new_pointer E d s =
     (let s1 = emit (Device (CursorAttach d)) s
      in kum_input_configure_device E d (s1\<lparr>pointers := wl_insert d (pointers s1)\<rparr>))"

definition kum_new_input :: "env \<Rightarrow> nat \<Rightarrow> kum_server \<Rightarrow> kum_server" where
  "kum_new_input E d s =
     (let s1 = (case in_device_type (input_q E) d of
                  DeviceKeyboard \<Rightarrow> new_keyboard d s
                | DevicePointer \<Rightarrow> new_pointer E d s
                | DeviceOther \<Rightarrow> s);
          s2 = kum_input_configure E s1
      in emit (Seat (Capabilities (keyboards s2 \<noteq> []))) s2)"

section \<open>What is under a point\<close>

text \<open>
  \<open>node.data\<close> is set on the trees of windows only. The result is the surface with the
  point within it, and the tree of the window it belongs to.
\<close>

fun has_data :: "node \<Rightarrow> bool" where
  "has_data (NToplevel t) = True"
| "has_data (NXwayland x) = True"
| "has_data n = False"

definition kum_scene_node_at :: "env \<Rightarrow> kum_server \<Rightarrow> rat \<Rightarrow> rat \<Rightarrow> (surf \<times> rat \<times> rat) option \<times> node option" where
  "kum_scene_node_at E s lx ly =
     (case in_node_at (input_q E) (trace s) lx ly of
        Some (n, True, Some sf, sx, sy) \<Rightarrow>
          (Some (sf, sx, sy), List.find has_data (in_ancestors (input_q E) (trace s) n))
      | _ \<Rightarrow> (None, None))"

definition kum_toplevel_at :: "env \<Rightarrow> kum_server \<Rightarrow> rat \<Rightarrow> rat \<Rightarrow> tid option" where
  "kum_toplevel_at E s lx ly =
     (case snd (kum_scene_node_at E s lx ly) of Some (NToplevel t) \<Rightarrow> Some t | _ \<Rightarrow> None)"

definition edges_at_point_wh :: "env \<Rightarrow> node \<Rightarrow> rat \<Rightarrow> rat \<Rightarrow> int \<Rightarrow> int \<Rightarrow> kum_server \<Rightarrow> edges" where
  "edges_at_point_wh E n lx ly w h s =
     (let (nx, ny) = node_coords E (trace s) n; rx = trunc lx - nx; ry = trunc ly - ny
      in (if rx < 8 then {WLR_EDGE_LEFT} else if w - 8 < rx then {WLR_EDGE_RIGHT} else {}) \<union>
         (if ry < 8 then {WLR_EDGE_TOP} else if h - 8 < ry then {WLR_EDGE_BOTTOM} else {}))"

definition edges_at_point :: "env \<Rightarrow> tid \<Rightarrow> rat \<Rightarrow> rat \<Rightarrow> kum_server \<Rightarrow> edges" where
  "edges_at_point E t lx ly s =
     edges_at_point_wh E (NToplevel t) lx ly (box_w (tl_geometry E t)) (box_h (tl_geometry E t)) s"

definition edges_at_point_xwayland :: "env \<Rightarrow> xid \<Rightarrow> rat \<Rightarrow> rat \<Rightarrow> kum_server \<Rightarrow> edges" where
  "edges_at_point_xwayland E x lx ly s =
     edges_at_point_wh E (NXwayland x) lx ly (box_w (xw_box E (trace s) x)) (box_h (xw_box E (trace s) x)) s"

definition cursor_name_for_edges :: "edges \<Rightarrow> string" where
  "cursor_name_for_edges es =
     (if es = {WLR_EDGE_TOP} then ''n-resize''
      else if es = {WLR_EDGE_BOTTOM} then ''s-resize''
      else if es = {WLR_EDGE_LEFT} then ''w-resize''
      else if es = {WLR_EDGE_RIGHT} then ''e-resize''
      else if es = {WLR_EDGE_TOP, WLR_EDGE_LEFT} then ''nw-resize''
      else if es = {WLR_EDGE_TOP, WLR_EDGE_RIGHT} then ''ne-resize''
      else if es = {WLR_EDGE_BOTTOM, WLR_EDGE_LEFT} then ''sw-resize''
      else if es = {WLR_EDGE_BOTTOM, WLR_EDGE_RIGHT} then ''se-resize''
      else ''default'')"

section \<open>Moving and resizing a grabbed window\<close>

definition drag_delta :: "env \<Rightarrow> int \<Rightarrow> int \<Rightarrow> kum_server \<Rightarrow> int \<times> int" where
  "drag_delta E gx gy s =
     (let (cx, cy) = cursor_pos E (trace s) in (trunc (f64 (cx - of_int gx)), trunc (f64 (cy - of_int gy))))"

text \<open>The box a resize asks for, from the box at the start of the grab.\<close>

definition resize_box :: "edges \<Rightarrow> int \<Rightarrow> int \<Rightarrow> wlr_box \<Rightarrow> wlr_box" where
  "resize_box es dx dy g =
     (let x = (if WLR_EDGE_LEFT \<in> es then box_x g + dx else box_x g);
          w = (if WLR_EDGE_LEFT \<in> es then box_w g - dx
               else if WLR_EDGE_RIGHT \<in> es then box_w g + dx else box_w g);
          y = (if WLR_EDGE_TOP \<in> es then box_y g + dy else box_y g);
          h = (if WLR_EDGE_TOP \<in> es then box_h g - dy
               else if WLR_EDGE_BOTTOM \<in> es then box_h g + dy else box_h g)
      in \<lparr>box_x = x, box_y = y, box_w = (if w < KUM_RESIZE_MIN_W then KUM_RESIZE_MIN_W else w),
          box_h = (if h < KUM_RESIZE_MIN_H then KUM_RESIZE_MIN_H else h)\<rparr>)"

definition drag_toplevel :: "env \<Rightarrow> tid \<Rightarrow> kum_server \<Rightarrow> kum_server option" where
  "drag_toplevel E t s =
     (let r = toplevel_at s t; g = tl_grab_geobox r; es = tl_resize_edges r;
          (dx, dy) = drag_delta E (tl_grab_x r) (tl_grab_y r) s
      in if es = {} then
           Some (emits [Device (CursorImage ''grabbing''),
             Scene (SetPosition (NToplevel t) (box_x g + dx) (box_y g + dy))] s)
         else
           let b = resize_box es dx dy g;
               s1 = emits [Device (CursorImage (cursor_name_for_edges es)),
                 Scene (SetPosition (NToplevel t) (box_x b) (box_y b)),
                 Shell (XdgSetSize t (box_w b) (box_h b))] s
           in kum_border_update E t (focused s1 = Some t) s1)"

definition drag_xwayland :: "env \<Rightarrow> xid \<Rightarrow> kum_server \<Rightarrow> kum_server" where
  "drag_xwayland E x s =
     (let r = xsurface_at s x; g = xs_grab_geobox r; es = xs_resize_edges r;
          (dx, dy) = drag_delta E (xs_grab_x r) (xs_grab_y r) s
      in if es = {} then
           emits [Device (CursorImage ''grabbing''),
             Scene (SetPosition (NXwayland x) (box_x g + dx) (box_y g + dy))] s
         else
           let b = resize_box es dx dy g
           in emits [Device (CursorImage (cursor_name_for_edges es)),
                Scene (SetPosition (NXwayland x) (box_x b) (box_y b)),
                Shell (XwConfigure x (box_x b) (box_y b) (box_w b) (box_h b))] s)"

section \<open>Pointer motion\<close>

text \<open>The window under the pointer: its cursor image, and the focus when it follows the mouse.\<close>

definition hover_hit :: "env \<Rightarrow> rat \<Rightarrow> rat \<Rightarrow> (surf \<times> rat \<times> rat) option \<times> node option \<Rightarrow> kum_server \<Rightarrow> kum_server option" where
  "hover_hit E cx cy hit_at s =
     (case hit_at of
        (Some (sf, _), Some (NToplevel t)) \<Rightarrow>
          (let es = edges_at_point E t cx cy s;
               s1 = emit (Device (CursorImage (if es \<noteq> {} then cursor_name_for_edges es else ''default''))) s
           in if cfg_focus_follows_mouse (cfg s1) \<and> focused s1 \<noteq> Some t then kum_focus_toplevel E t sf s1 else Some s1)
      | (_, Some (NXwayland x)) \<Rightarrow>
          (let es = edges_at_point_xwayland E x cx cy s;
               s1 = emit (Device (CursorImage (if es \<noteq> {} then cursor_name_for_edges es else ''default''))) s
           in if cfg_focus_follows_mouse (cfg s1) \<and> focused_xwayland s1 \<noteq> Some x
              then kum_focus_xwayland_surface E x s1 else Some s1)
      | _ \<Rightarrow> Some (emit (Device (CursorImage ''default'')) s))"

definition hover :: "env \<Rightarrow> kum_server \<Rightarrow> kum_server option" where
  "hover E s = do {
     let (cx, cy) = cursor_pos E (trace s);
     let hit_at = kum_scene_node_at E s cx cy;
     s1 \<leftarrow> hover_hit E cx cy hit_at s;
     Some (case fst hit_at of
       Some (sf, sx, sy) \<Rightarrow> emits [Seat (PointerEnter sf sx sy), Seat (PointerMotion sx sy)] s1
     | None \<Rightarrow> emit (Seat PointerClear) s1) }"

definition process_cursor_motion :: "env \<Rightarrow> kum_server \<Rightarrow> kum_server option" where
  "process_cursor_motion E s =
     (let s0 = emit (Seat NotifyActivity) s in
      case List.find (\<lambda>t. tl_grabbed (toplevel_at s0 t)) (toplevels s0) of
        Some t \<Rightarrow> drag_toplevel E t s0
      | None \<Rightarrow>
          (case List.find (\<lambda>x. xs_grabbed (xsurface_at s0 x)) (xwayland_surfaces s0) of
             Some x \<Rightarrow> Some (drag_xwayland E x s0)
           | None \<Rightarrow> hover E s0))"

definition kum_cursor_motion :: "env \<Rightarrow> rat \<Rightarrow> rat \<Rightarrow> kum_server \<Rightarrow> kum_server option" where
  "kum_cursor_motion E dx dy s = process_cursor_motion E (emit (Device (CursorMove dx dy)) s)"

definition kum_cursor_motion_absolute :: "env \<Rightarrow> rat \<Rightarrow> rat \<Rightarrow> kum_server \<Rightarrow> kum_server option" where
  "kum_cursor_motion_absolute E x y s = process_cursor_motion E (emit (Device (CursorWarpAbsolute x y)) s)"

section \<open>Buttons\<close>

definition BTN_LEFT :: nat where "BTN_LEFT = 272"
definition BTN_RIGHT :: nat where "BTN_RIGHT = 273"

definition release_grabs :: "kum_server \<Rightarrow> kum_server" where
  "release_grabs s =
     (let s1 = fold (\<lambda>t. upd_tl t (\<lambda>r. r\<lparr>tl_grabbed := False\<rparr>)) (toplevels s) s
      in fold (\<lambda>x. upd_xs x (\<lambda>r. r\<lparr>xs_grabbed := False\<rparr>)) (xwayland_surfaces s1) s1)"

text \<open>The edges a press grabs the window by, if it grabs it.\<close>

definition press_edges :: "bool \<Rightarrow> nat \<Rightarrow> edges \<Rightarrow> edges option" where
  "press_edges mod_held button es =
     (if mod_held \<and> button = BTN_LEFT then Some {}
      else if mod_held \<and> button = BTN_RIGHT then Some {WLR_EDGE_BOTTOM, WLR_EDGE_RIGHT}
      else if button = BTN_LEFT \<and> es \<noteq> {} then Some es
      else None)"

definition focus_hit :: "env \<Rightarrow> (surf \<times> rat \<times> rat) option \<times> node option \<Rightarrow> kum_server \<Rightarrow> kum_server option" where
  "focus_hit E hit_at s =
     (case hit_at of
        (Some (sf, _), Some (NToplevel t)) \<Rightarrow> kum_focus_toplevel E t sf s
      | (_, Some (NXwayland x)) \<Rightarrow> kum_focus_xwayland_surface E x s
      | _ \<Rightarrow> Some s)"

definition grab_hit :: "env \<Rightarrow> nat \<Rightarrow> bool \<Rightarrow> node option \<Rightarrow> kum_server \<Rightarrow> kum_server option" where
  "grab_hit E button mod_held hit s =
     (let (cx, cy) = cursor_pos E (trace s) in
      case hit of
        Some (NToplevel t) \<Rightarrow>
          (case press_edges mod_held button (edges_at_point E t cx cy s) of
             Some es \<Rightarrow> kum_toplevel_begin_interactive E t es s
           | None \<Rightarrow> Some s)
      | Some (NXwayland x) \<Rightarrow>
          (case press_edges mod_held button (edges_at_point_xwayland E x cx cy s) of
             Some es \<Rightarrow> Some (kum_xwayland_begin_interactive E x es s)
           | None \<Rightarrow> Some s)
      | _ \<Rightarrow> Some s)"

definition kum_cursor_button :: "env \<Rightarrow> nat \<Rightarrow> bool \<Rightarrow> kum_server \<Rightarrow> kum_server option" where
  "kum_cursor_button E button pressed s =
     (let s1 = emits [Seat NotifyActivity, Seat (PointerButton button pressed)] s in
      if \<not> pressed then Some (release_grabs s1)
      else
        let (cx, cy) = cursor_pos E (trace s1); hit_at = kum_scene_node_at E s1 cx cy in
        do {
          s2 \<leftarrow> focus_hit E hit_at s1;
          if snd hit_at = None \<or> button \<noteq> BTN_LEFT \<and> button \<noteq> BTN_RIGHT then Some s2
          else
            let m = (case seat_keyboard E (trace s2) of Some kb \<Rightarrow> in_modifiers (input_q E) kb | None \<Rightarrow> {})
            in grab_hit E button (m = KUM_MOD_KEY) (snd hit_at) s2 })"

section \<open>Other pointer events\<close>

definition kum_cursor_axis :: "rat \<Rightarrow> kum_server \<Rightarrow> kum_server" where
  "kum_cursor_axis delta s = emits [Seat NotifyActivity, Seat (PointerAxis delta)] s"

definition kum_cursor_frame :: "kum_server \<Rightarrow> kum_server" where
  "kum_cursor_frame s = emit (Seat PointerFrame) s"

definition kum_request_cursor :: "bool \<Rightarrow> nat \<Rightarrow> kum_server \<Rightarrow> kum_server" where
  \<comment> \<open>whether the client asking has the pointer\<close>
  "kum_request_cursor has_pointer sf s = (if has_pointer then emit (Device (CursorSurface sf)) s else s)"

definition kum_request_set_selection :: "nat \<Rightarrow> kum_server \<Rightarrow> kum_server" where
  "kum_request_set_selection source s = emit (Seat (SetSelection source)) s"

section \<open>Input events keep the state consistent\<close>

text \<open>
  The scene only holds windows the compositor knows: the trees with a data pointer
  under the cursor belong to listed windows.
\<close>

definition scene_known :: "env \<Rightarrow> kum_server \<Rightarrow> bool" where
  "scene_known E s \<longleftrightarrow>
     (\<forall>tr n t. NToplevel t \<in> set (in_ancestors (input_q E) tr n) \<longrightarrow> t \<in> set (toplevels s)) \<and>
     (\<forall>tr n x. NXwayland x \<in> set (in_ancestors (input_q E) tr n) \<longrightarrow> x \<in> set (xwayland_surfaces s))"

lemma scene_known_gentle: "gentle s t \<Longrightarrow> scene_known E s \<Longrightarrow> scene_known E t"
  by (simp add: scene_known_def gentle_fields)

lemma hit_known:
  assumes "scene_known E s" and "kum_scene_node_at E s' lx ly = (sf, Some n)"
  shows "n = NToplevel t \<Longrightarrow> t \<in> set (toplevels s)" and "n = NXwayland x \<Longrightarrow> x \<in> set (xwayland_surfaces s)"
  using assms
  by (auto simp: kum_scene_node_at_def scene_known_def split: option.splits bool.splits dest!: find_Some_iff_mem)

lemma hit_has_data:
  "kum_scene_node_at E s lx ly = (sf, Some n) \<Longrightarrow> has_data n \<and> sf \<noteq> None"
  by (auto simp: kum_scene_node_at_def split: option.splits bool.splits dest!: find_Some_iff_mem)

lemma handle_shown [kum_inv]:
  "kum_keybind_handle E m ks s = Some (b, s') \<Longrightarrow> shown_ok s \<Longrightarrow> shown_ok s'"
  by (auto simp: kum_keybind_handle_def split: option.splits intro: run_action_shown)

lemma handle_syms_shown [kum_inv]:
  "handle_syms E m kss h s = Some (b, s') \<Longrightarrow> shown_ok s \<Longrightarrow> shown_ok s'"
proof (induction kss arbitrary: h s)
  case (Cons k ks)
  then obtain h1 s1 where "kum_keybind_handle E m k s = Some (h1, s1)" "handle_syms E m ks (h \<or> h1) s1 = Some (b, s')"
    by (auto split: option.splits)
  then show ?case using Cons.IH Cons.prems(2) handle_shown by blast
qed simp

lemma shown_emit: "off_screen c \<Longrightarrow> shown_ok s \<Longrightarrow> shown_ok (emit c s)"
  by (rule gentle_shown [OF gentle_emit])

lemma shown_emits: "list_all off_screen cs \<Longrightarrow> shown_ok s \<Longrightarrow> shown_ok (emits cs s)"
  by (rule gentle_shown [OF gentle_emits])

lemma keyboard_key_shown [kum_inv]:
  assumes "keyboard_key E kb code pressed s = Some s'" and "shown_ok s"
  shows "shown_ok s'"
proof -
  let ?s0 = "emit (Seat NotifyActivity) s"
  obtain h s1 where 1: "(if \<not> locked s \<and> pressed
      then handle_syms E (in_modifiers (input_q E) kb) (in_key_syms (input_q E) kb (code + 8)) False ?s0
      else Some (False, ?s0)) = Some (h, s1)"
    and s': "s' = (if \<not> h then emits [Seat (SetKeyboard kb), Seat (NotifyKey kb code pressed)] s1 else s1)"
    using assms(1) by (auto simp: keyboard_key_def Let_def elim!: bind_SomeE split: prod.splits)
  have "shown_ok ?s0" using assms(2) by (simp add: shown_emit)
  then have "shown_ok s1" using 1 handle_syms_shown by (auto split: if_splits)
  then show ?thesis by (simp add: s' shown_emits)
qed

lemma keyboards_gentle [gentle]: "gentle s (s\<lparr>keyboards := ks\<rparr>)" "gentle s (s\<lparr>pointers := ps\<rparr>)"
  by (auto simp: gentle_def same_view_def ws_of_def xws_of_def fun_eq_iff)

lemma new_input_gentle [gentle]: "gentle s (kum_new_input E d s)"
proof -
  have k: "gentle s (new_keyboard d s)"
    unfolding new_keyboard_def Let_def by (rule gentle_trans [OF gentle_emits keyboards_gentle(1)]) simp
  have p: "gentle s (new_pointer E d s)"
    unfolding new_pointer_def Let_def
    by (rule gentle_trans [OF gentle_trans [OF gentle_emit keyboards_gentle(2)] quiet_gentle [OF configure_device_quiet]]) simp
  have c: "gentle t (emit (Seat (Capabilities b)) (kum_input_configure E t))" for t b
    by (rule gentle_trans [OF quiet_gentle [OF input_configure_quiet] gentle_emit]) simp
  show ?thesis using k p gentle_refl [of s]
    by (auto simp: kum_new_input_def Let_def split: device_type.split intro: gentle_trans [OF _ c])
qed

lemma drag_toplevel_gentle [gentle]: "drag_toplevel E t s = Some s' \<Longrightarrow> gentle s s'"
  by (auto simp: drag_toplevel_def Let_def split: prod.splits if_splits
      intro!: gentle_emits gentle_trans [OF gentle_emits gentle_border_update(1)])

lemma drag_xwayland_gentle [gentle]: "gentle s (drag_xwayland E x s)"
  by (simp add: drag_xwayland_def Let_def split_beta gentle_emits)

lemma hover_shown:
  assumes "hover E s = Some s'" and "shown_ok s" and "scene_known E s"
  shows "shown_ok s'"
proof -
  obtain cx cy where c: "cursor_pos E (trace s) = (cx, cy)" by fastforce
  let ?u = "kum_scene_node_at E s cx cy"
  obtain s1 where 1: "hover_hit E cx cy ?u s = Some s1"
    and s': "s' = (case fst ?u of Some (sf, sx, sy) \<Rightarrow> emits [Seat (PointerEnter sf sx sy), Seat (PointerMotion sx sy)] s1
       | None \<Rightarrow> emit (Seat PointerClear) s1)"
    using assms(1) by (auto simp: hover_def c Let_def elim!: bind_SomeE)
  have i: "shown_ok (emit (Device (CursorImage n)) s)" for n using assms(2) by (simp add: shown_emit)
  have "shown_ok s1"
  proof (cases "snd ?u")
    case None
    then have "s1 = emit (Device (CursorImage ''default'')) s"
      using 1 by (cases ?u) (auto simp: hover_hit_def split: option.splits)
    then show ?thesis using i by simp
  next
    case (Some n)
    then obtain sf where u: "?u = (sf, Some n)" by (cases ?u) simp
    with hit_has_data [OF u] obtain f r where f: "sf = Some (f, r)" by fastforce
    note known = hit_known [OF assms(3) u]
    show ?thesis
    proof (cases n)
      case (NToplevel t)
      have t: "t \<in> set (toplevels (emit (Device (CursorImage m)) s))" for m using known(1) NToplevel by simp
      show ?thesis
        using 1 u f NToplevel i focus_toplevel_shown [OF _ t i] by (auto simp: hover_hit_def Let_def split: if_splits)
    next
      case (NXwayland x)
      have x: "x \<in> set (xwayland_surfaces (emit (Device (CursorImage m)) s))" for m using known(2) NXwayland by simp
      show ?thesis
        using 1 u f NXwayland i focus_xwayland_shown [OF _ x i] by (auto simp: hover_hit_def Let_def split: if_splits)
    qed (use hit_has_data [OF u] in simp_all)
  qed
  then show ?thesis by (auto simp: s' shown_emit shown_emits split: option.splits)
qed

lemma cursor_motion_shown [kum_inv]:
  assumes "process_cursor_motion E s = Some s'" and "shown_ok s" and "scene_known E s"
  shows "shown_ok s'"
proof -
  let ?s0 = "emit (Seat NotifyActivity) s"
  have 0: "shown_ok ?s0" "scene_known E ?s0" using assms(2,3) by (simp_all add: shown_emit scene_known_def)
  show ?thesis
    using assms(1) 0 gentle_shown [OF drag_toplevel_gentle, of E _ ?s0] gentle_shown [OF drag_xwayland_gentle, of ?s0 E]
      hover_shown [of E ?s0]
    by (auto simp: process_cursor_motion_def Let_def split: option.splits)
qed

lemma release_grabs_gentle [gentle]: "gentle s (release_grabs s)"
proof -
  have t: "gentle u (fold (\<lambda>t. upd_tl t (\<lambda>r. r\<lparr>tl_grabbed := False\<rparr>)) ts u)" for ts u
    by (induction ts arbitrary: u) (simp_all, blast intro: gentle_trans [OF gentle_upd_tl [of "\<lambda>r. r\<lparr>tl_grabbed := False\<rparr>", simplified]])
  have x: "gentle u (fold (\<lambda>x. upd_xs x (\<lambda>r. r\<lparr>xs_grabbed := False\<rparr>)) xs u)" for xs u
    by (induction xs arbitrary: u) (simp_all, blast intro: gentle_trans [OF gentle_upd_xs [of "\<lambda>r. r\<lparr>xs_grabbed := False\<rparr>", simplified]])
  show ?thesis unfolding release_grabs_def Let_def by (rule gentle_trans [OF t x])
qed

lemma focus_hit_shown:
  assumes "focus_hit E (kum_scene_node_at E s lx ly) s = Some s'" and "shown_ok s" and "scene_known E s"
  shows "shown_ok s'"
proof (cases "snd (kum_scene_node_at E s lx ly)")
  case None
  then show ?thesis using assms(1,2) by (cases "kum_scene_node_at E s lx ly") (auto simp: focus_hit_def split: option.splits)
next
  case (Some n)
  then obtain sf where u: "kum_scene_node_at E s lx ly = (sf, Some n)" by (cases "kum_scene_node_at E s lx ly") simp
  with hit_has_data [OF u] obtain f r where f: "sf = Some (f, r)" by fastforce
  note known = hit_known [OF assms(3) u]
  show ?thesis
    using assms(1,2) u f known hit_has_data [OF u] focus_toplevel_shown focus_xwayland_shown
    by (cases n) (auto simp: focus_hit_def)
qed

lemma grab_hit_gentle:
  assumes "grab_hit E button m hit s = Some s'"
  shows "gentle s s'"
  using assms begin_interactive_gentle xw_interactive_gentle
  by (auto simp: grab_hit_def split: prod.splits option.splits node.splits)

lemma cursor_button_shown [kum_inv]:
  assumes "kum_cursor_button E button pressed s = Some s'" and "shown_ok s" and "scene_known E s"
  shows "shown_ok s'"
proof (cases pressed)
  case False
  have "gentle s s'"
    using assms(1) False gentle_trans [OF gentle_emits release_grabs_gentle, of "[Seat NotifyActivity, Seat (PointerButton button False)]" s]
    by (simp add: kum_cursor_button_def)
  then show ?thesis using gentle_shown assms(2) by blast
next
  case True
  let ?s1 = "emits [Seat NotifyActivity, Seat (PointerButton button True)] s"
  obtain cx cy where c: "cursor_pos E (trace ?s1) = (cx, cy)" by fastforce
  let ?u = "kum_scene_node_at E ?s1 cx cy"
  have b: "Option.bind (focus_hit E ?u ?s1) (\<lambda>s2. if snd ?u = None \<or> button \<noteq> BTN_LEFT \<and> button \<noteq> BTN_RIGHT then Some s2
      else grab_hit E button ((case seat_keyboard E (trace s2) of Some kb \<Rightarrow> in_modifiers (input_q E) kb | None \<Rightarrow> {}) = KUM_MOD_KEY)
        (snd ?u) s2) = Some s'"
    using assms(1) c unfolding kum_cursor_button_def Let_def eqTrueI [OF True] by simp
  then obtain s2 where 2: "focus_hit E ?u ?s1 = Some s2" by (auto elim!: bind_SomeE)
  with b have s': "s' = s2 \<or> (\<exists>m. grab_hit E button m (snd ?u) s2 = Some s')" by (auto split: if_split_asm)
  have "shown_ok ?s1" "scene_known E ?s1" using assms(2,3) by (simp_all add: shown_emits scene_known_def)
  then have "shown_ok s2" using focus_hit_shown [OF 2] by blast
  then show ?thesis using s' gentle_shown [OF grab_hit_gentle] by blast
qed

end
