(* ===== verification/Reload.thy ===== *)
theory Reload
  imports Input
begin

text \<open>
  Reloading the configuration (\<open>kum_server_reload_config\<close> of \<open>src/server.c\<close>): the file
  is read into a fresh configuration, most fields are copied over, and the windows,
  layouts, devices, outputs and rules are brought in line.
\<close>

definition config_path :: "env \<Rightarrow> string" where
  "config_path E =
     (case os_getenv E ''XDG_CONFIG_HOME'' of
        Some xdg \<Rightarrow> snprintf 512 (xdg @ ''/kumde/kumde.conf'')
      | None \<Rightarrow> snprintf 512 ((case os_getenv E ''HOME'' of Some h \<Rightarrow> h | None \<Rightarrow> []) @ ''/.config/kumde/kumde.conf''))"

text \<open>The fields a reload takes over; the terminal, the cursor size, XWayland and the autostart commands stay.\<close>

definition merge_config :: "kum_runtime_config \<Rightarrow> kum_runtime_config \<Rightarrow> kum_runtime_config" where
  "merge_config fresh old = old\<lparr>
     cfg_border_width := cfg_border_width fresh, cfg_border_active := cfg_border_active fresh,
     cfg_border_inactive := cfg_border_inactive fresh, cfg_anim_open_ms := cfg_anim_open_ms fresh,
     cfg_anim_close_ms := cfg_anim_close_ms fresh, cfg_anim_focus_ms := cfg_anim_focus_ms fresh,
     cfg_animations := cfg_animations fresh, cfg_gap := cfg_gap fresh, cfg_master_ratio := cfg_master_ratio fresh,
     cfg_corner_radius := cfg_corner_radius fresh, cfg_shadow_radius := cfg_shadow_radius fresh,
     cfg_shadow_alpha := cfg_shadow_alpha fresh, cfg_shadow_offset_x := cfg_shadow_offset_x fresh,
     cfg_shadow_offset_y := cfg_shadow_offset_y fresh, cfg_shadows := cfg_shadows fresh,
     cfg_rounded_corners := cfg_rounded_corners fresh, cfg_focus_follows_mouse := cfg_focus_follows_mouse fresh,
     cfg_kb_layout := strncpy 63 (cfg_kb_layout fresh), cfg_kb_variant := strncpy 63 (cfg_kb_variant fresh),
     cfg_kb_model := strncpy 63 (cfg_kb_model fresh), cfg_kb_options := strncpy 127 (cfg_kb_options fresh),
     cfg_tap_to_click := cfg_tap_to_click fresh, cfg_natural_scroll := cfg_natural_scroll fresh,
     cfg_disable_while_typing := cfg_disable_while_typing fresh, cfg_pointer_accel := cfg_pointer_accel fresh,
     cfg_output_configs := cfg_output_configs fresh\<rparr>"

definition redecorate :: "env \<Rightarrow> tid \<Rightarrow> kum_server \<Rightarrow> kum_server option" where
  "redecorate E t s = do {
     s1 \<leftarrow> kum_border_update E t (focused s = Some t) s;
     let s2 = kum_corners_destroy t (kum_shadow_destroy t s1);
     Some (if tl_mapped E t then kum_corners_apply E t (kum_shadow_create E t s2) else s2) }"

definition retile :: "env \<Rightarrow> oid \<Rightarrow> kum_server \<Rightarrow> kum_server option" where
  "retile E i s =
     (if layout_of s (active_ws s i) = LAYOUT_TILE then kum_workspace_arrange E (Some i) (active_ws s i) s else Some s)"

definition kum_server_reload_config :: "env \<Rightarrow> kum_server \<Rightarrow> kum_server option" where
  "kum_server_reload_config E s =
     (let file = os_file E (config_path E);
          fresh = fst (kum_config_load file kum_config_defaults);
          s1 = s\<lparr>cfg := merge_config fresh (cfg s)\<rparr>
      in do {
        s2 \<leftarrow> run (redecorate E) (toplevels s1) s1;
        s3 \<leftarrow> run (retile E) (outputs s2) s2;
        let s4 = kum_output_configure_all E (kum_kb_layout_init (kum_input_configure E s3));
        Some (s4\<lparr>rules := kum_rules_load file (kum_rules_free (rules s4))\<rparr>) })"

section \<open>A reload keeps the state consistent\<close>

lemma redecorate_gentle [gentle]:
  assumes "redecorate E t s = Some s'"
  shows "gentle s s'"
proof -
  obtain s1 where 1: "kum_border_update E t (focused s = Some t) s = Some s1"
    and s': "s' = (let s2 = kum_corners_destroy t (kum_shadow_destroy t s1)
       in if tl_mapped E t then kum_corners_apply E t (kum_shadow_create E t s2) else s2)"
    using assms by (auto simp: redecorate_def Let_def elim!: bind_SomeE)
  have "gentle s (kum_corners_destroy t (kum_shadow_destroy t s1))"
    by (rule gentle_trans [OF gentle_trans [OF gentle_border_update(1) [OF 1] gentle_shadow(3)] gentle_corners_destroy(1)])
  moreover from this have "gentle s (kum_corners_apply E t (kum_shadow_create E t (kum_corners_destroy t (kum_shadow_destroy t s1))))"
    by (rule gentle_trans [OF gentle_trans [OF _ gentle_shadow(1)] gentle_corners_apply(1)])
  ultimately show ?thesis by (simp add: s' Let_def)
qed

lemma same_view_windows: "same_view s t \<Longrightarrow> windows_ok s \<Longrightarrow> windows_ok t"
  by (simp add: same_view_def windows_ok_def)

lemma run_gentle:
  assumes "\<And>x t t'. f x t = Some t' \<Longrightarrow> gentle t t'" and "run f xs s = Some s'"
  shows "gentle s s'"
  using assms(2)
proof (induction xs arbitrary: s)
  case (Cons x xs)
  then obtain s1 where 1: "f x s = Some s1" "run f xs s1 = Some s'" by (auto elim!: bind_SomeE)
  show ?case by (rule gentle_trans [OF assms(1) [OF 1(1)] Cons.IH [OF 1(2)]])
qed simp

lemma retile_gentle [gentle]: "retile E i s = Some s' \<Longrightarrow> gentle s s'"
  by (auto simp: retile_def split: if_splits intro: gentle_arrange)

lemma configure_all_shown: "shown_ok s \<Longrightarrow> shown_ok (kum_output_configure_all E s)"
  by (simp add: shown_ok_def visible_ok_def server_ok_def windows_ok_def focus_ok_def outputs_ok_def)

lemma set_rules_shown: "shown_ok s \<Longrightarrow> shown_ok (s\<lparr>rules := rs\<rparr>)"
  by (simp add: shown_ok_def server_ok_def windows_ok_def focus_ok_def outputs_ok_def visible_ok_def
      ws_of_def xws_of_def active_ws_def [abs_def])

lemma configure_all_cfg [simp]: "cfg (kum_output_configure_all E s) = cfg s"
proof -
  have one: "cfg (configure_output E i t) = cfg t" for i t
    by (simp add: configure_output_def Let_def split: option.split)
  have "cfg (fold (configure_output E) is t) = cfg t" for "is" t
    by (induction "is" arbitrary: t) (simp_all add: one)
  then show ?thesis by (simp add: kum_output_configure_all_def)
qed

text \<open>The steps of a reload: gentle ones up to the output configuration.\<close>

lemma reload_steps:
  assumes "kum_server_reload_config E s = Some s'"
  obtains s4 where
    "gentle (s\<lparr>cfg := merge_config (fst (kum_config_load (os_file E (config_path E)) kum_config_defaults)) (cfg s)\<rparr>) s4"
    and "s' = (kum_output_configure_all E s4)\<lparr>rules := kum_rules_load (os_file E (config_path E)) []\<rparr>"
proof -
  let ?s1 = "s\<lparr>cfg := merge_config (fst (kum_config_load (os_file E (config_path E)) kum_config_defaults)) (cfg s)\<rparr>"
  obtain s2 s3 where 2: "run (redecorate E) (toplevels ?s1) ?s1 = Some s2" and 3: "run (retile E) (outputs s2) s2 = Some s3"
    and s': "s' = (kum_output_configure_all E (kum_kb_layout_init (kum_input_configure E s3)))
        \<lparr>rules := kum_rules_load (os_file E (config_path E)) []\<rparr>"
    using assms by (auto simp: kum_server_reload_config_def Let_def kum_rules_free_empty elim!: bind_SomeE)
  have "gentle ?s1 s3"
    by (rule gentle_trans [OF run_gentle [where f = "redecorate E", OF redecorate_gentle 2]
          run_gentle [where f = "retile E", OF retile_gentle 3]])
  then have "gentle ?s1 (kum_kb_layout_init (kum_input_configure E s3))"
    by (rule gentle_trans [OF gentle_trans [OF _ quiet_gentle [OF input_configure_quiet]] kb_layout_init_gentle])
  then show thesis using s' that by blast
qed

lemma reload_shown [kum_inv]:
  assumes "kum_server_reload_config E s = Some s'" and "shown_ok s"
  shows "shown_ok s'"
proof -
  obtain s4 where "gentle (s\<lparr>cfg := merge_config (fst (kum_config_load (os_file E (config_path E)) kum_config_defaults)) (cfg s)\<rparr>) s4"
    and s': "s' = (kum_output_configure_all E s4)\<lparr>rules := kum_rules_load (os_file E (config_path E)) []\<rparr>"
    using reload_steps [OF assms(1)] .
  then have "shown_ok s4" using gentle_shown [OF _ set_cfg_shown [OF assms(2)]] by blast
  then show ?thesis by (simp add: s' set_rules_shown configure_all_shown)
qed

section \<open>A reload never fails on a decorated session\<close>

definition same_borders :: "kum_server \<Rightarrow> kum_server \<Rightarrow> bool" where
  "same_borders s t \<longleftrightarrow> (\<forall>k. tl_border (toplevel_at t k) = tl_border (toplevel_at s k)) \<and> xsurface_at t = xsurface_at s"

lemma same_borders_trans: "same_borders s t \<Longrightarrow> same_borders t u \<Longrightarrow> same_borders s u"
  by (simp add: same_borders_def)

lemma same_borders_quiet: "quiet s t \<Longrightarrow> same_borders s t"
  by (simp add: same_borders_def quiet_fields)

lemma same_borders_decor:
  "same_borders s (kum_shadow_create E t s)" "same_borders s (kum_shadow_destroy t s)"
  "same_borders s (kum_corners_apply E t s)" "same_borders s (kum_corners_destroy t s)"
  by (auto simp: same_borders_def kum_shadow_create_def kum_shadow_destroy_def kum_corners_apply_def
      kum_corners_destroy_def shadow_build_def corners_build_def fresh_node_def Let_def)

lemma decor_same: "gentle s t \<Longrightarrow> same_borders s t \<Longrightarrow> decor_ok E s \<Longrightarrow> decor_ok E t"
  by (simp add: decor_ok_def same_borders_def gentle_fields)

lemma redecorate_borders:
  assumes "redecorate E t s = Some s'"
  shows "same_borders s s'"
proof -
  obtain s1 where 1: "kum_border_update E t (focused s = Some t) s = Some s1"
    and s': "s' = (let s2 = kum_corners_destroy t (kum_shadow_destroy t s1)
       in if tl_mapped E t then kum_corners_apply E t (kum_shadow_create E t s2) else s2)"
    using assms by (auto simp: redecorate_def Let_def elim!: bind_SomeE)
  have "same_borders s s1" by (rule same_borders_quiet [OF border_update_quiet [OF 1]])
  then show ?thesis using same_borders_decor same_borders_trans unfolding s' Let_def by (smt (verit))
qed

lemma run_all_defined:
  assumes "\<And>x t. P t \<Longrightarrow> Q x \<Longrightarrow> \<exists>t'. f x t = Some t' \<and> P t'" and "P s" and "\<forall>x \<in> set xs. Q x"
  shows "\<exists>s'. run f xs s = Some s' \<and> P s'"
  using assms(2,3)
proof (induction xs arbitrary: s)
  case (Cons x xs)
  then obtain t where t: "f x s = Some t" "P t" using assms(1) [of s x] by auto
  with Cons show ?case by auto
qed simp

lemma reload_defined:
  assumes "shown_ok s" and "decor_ok E s"
  shows "\<exists>s'. kum_server_reload_config E s = Some s'"
proof -
  let ?s1 = "s\<lparr>cfg := merge_config (fst (kum_config_load (os_file E (config_path E)) kum_config_defaults)) (cfg s)\<rparr>"
  have 1: "shown_ok ?s1" "decor_ok E ?s1" using assms set_cfg_shown by (simp_all add: decor_ok_def)
  have red: "\<exists>t'. redecorate E x t = Some t' \<and> gentle ?s1 t' \<and> same_borders ?s1 t'"
    if "gentle ?s1 t \<and> same_borders ?s1 t" "x \<in> set (toplevels ?s1)" for x t
  proof -
    have "decor_ok E t" using that(1) decor_same 1(2) by blast
    then have "tl_mapped E x \<Longrightarrow> length (tl_border (toplevel_at t x)) = 4"
      using that gentle_fields(1) [of ?s1 t] by (simp add: decor_ok_def)
    then obtain t1 where "kum_border_update E x (focused t = Some x) t = Some t1" using border_update_defined by blast
    then obtain t' where r: "redecorate E x t = Some t'" by (simp add: redecorate_def Let_def)
    show ?thesis
      using r that(1) gentle_trans [OF _ redecorate_gentle [OF r], of ?s1]
        same_borders_trans [OF _ redecorate_borders [OF r], of ?s1] by blast
  qed
  obtain s2 where 2: "run (redecorate E) (toplevels ?s1) ?s1 = Some s2" "gentle ?s1 s2" "same_borders ?s1 s2"
    using run_all_defined [where f = "redecorate E" and P = "\<lambda>t. gentle ?s1 t \<and> same_borders ?s1 t"
        and Q = "\<lambda>x. x \<in> set (toplevels ?s1)" and s = ?s1 and xs = "toplevels ?s1"] red
    by (auto simp: same_borders_def)
  have 3: "decor_ok E s2 \<and> windows_ok s2"
    using decor_same [OF 2(2,3) 1(2)] gentle_shown [OF 2(2) 1(1)] by (simp add: shown_ok_def server_ok_def)
  have "\<exists>t'. retile E i t = Some t' \<and> decor_ok E t' \<and> windows_ok t'" if ok: "decor_ok E t \<and> windows_ok t" for i t
  proof (cases "layout_of t (active_ws t i) = LAYOUT_TILE")
    case True
    obtain t' where t': "kum_workspace_arrange E (Some i) (active_ws t i) t = Some t'"
      using arrange_defined [of E t i "active_ws t i"] ok by blast
    have "windows_ok t'"
      using arrange_quiet [OF t'] that quiet_same_view same_view_windows by blast
    then show ?thesis using True t' decor_quiet [OF arrange_quiet [OF t']] that by (simp add: retile_def)
  qed (use that in \<open>simp add: retile_def\<close>)
  then obtain s3 where "run (retile E) (outputs s2) s2 = Some s3"
    using run_all_defined [where f = "retile E" and P = "\<lambda>t. decor_ok E t \<and> windows_ok t" and Q = "\<lambda>_. True" and s = s2
        and xs = "outputs s2"] 3 by auto
  then show ?thesis using 2(1) by (simp add: kum_server_reload_config_def Let_def)
qed

lemma merge_idem: "merge_config fresh (merge_config fresh old) = merge_config fresh old"
  by (simp add: merge_config_def)



end
