(* ===== verification/Ipc.thy ===== *)
theory Ipc
  imports Reload
begin

text \<open>
  The receiving half of \<open>src/ipc.c\<close>: connections, the lines a client sends and the
  commands in them. A client that was freed while its own command ran (a broadcast
  found its socket broken) may not be used any more: \<open>None\<close>.
\<close>

section \<open>Replies\<close>

definition ipc_reply :: "nat \<Rightarrow> string \<Rightarrow> kum_server \<Rightarrow> kum_server option" where
  "ipc_reply c msg s = (if c \<in> set (ipc_clients s) then Some (emit (System (SocketSend c msg)) s) else None)"

definition reply_ok :: string where
  "reply_ok = ''{'' @ jstr ''ok'' @ '':true}'' @ [NL]"

definition reply_error :: "string \<Rightarrow> string" where
  "reply_error e = ''{'' @ jstr ''ok'' @ '':false,'' @ jstr ''error'' @ '':'' @ jstr e @ ''}'' @ [NL]"

fun reply_all :: "nat \<Rightarrow> string list \<Rightarrow> kum_server \<Rightarrow> kum_server option" where
  "reply_all c [] s = Some s"
| "reply_all c (m # ms) s = Option.bind (ipc_reply c m s) (reply_all c ms)"

definition ipc_send_initial_state :: "env \<Rightarrow> nat \<Rightarrow> kum_server \<Rightarrow> kum_server option" where
  "ipc_send_initial_state E c s =
     reply_all c (map (\<lambda>i. snprintf 128 (workspace_msg (out_name E i) (active_ws s i))) (outputs s) @
       [build_occupancy_msg s 256]) s"

section \<open>Commands\<close>

definition cmd_start :: "string \<Rightarrow> string" where
  \<comment> \<open>the opening of a command with arguments\<close>
  "cmd_start cmd = ''{'' @ jstr ''cmd'' @ '':'' @ jstr cmd @ '',''"

definition scan_cmd :: "string \<Rightarrow> string" where
  "scan_cmd msg = got_str (sscanf [CLit (''{'' @ jstr ''cmd'' @ '':'' @ [QUOTE]), CNot 63 QUOTE] msg) 0 []"

definition scan_index :: "string \<Rightarrow> string \<Rightarrow> int" where
  "scan_index cmd msg = got_int (sscanf [CLit (cmd_start cmd @ jstr ''index'' @ '':''), CInt, CLit ''}''] msg) 0 (-1)"

definition scan_arg :: "string \<Rightarrow> string \<Rightarrow> nat \<Rightarrow> string \<Rightarrow> string" where
  "scan_arg cmd key n msg = got_str (sscanf [CLit (cmd_start cmd @ jstr key @ '':'' @ [QUOTE]), CNot n QUOTE] msg) 0 []"

definition cmd_workspace :: "env \<Rightarrow> nat \<Rightarrow> string \<Rightarrow> kum_server \<Rightarrow> kum_server option" where
  "cmd_workspace E c msg s =
     (let index = scan_index ''workspace'' msg in
      if 0 \<le> index \<and> index < KUM_WORKSPACE_COUNT then
        do { s1 \<leftarrow> kum_workspace_switch E (kum_output_focused E s) index s; ipc_reply c reply_ok s1 }
      else ipc_reply c (reply_error ''bad index'') s)"

definition cmd_move_to :: "env \<Rightarrow> nat \<Rightarrow> string \<Rightarrow> kum_server \<Rightarrow> kum_server option" where
  "cmd_move_to E c msg s =
     (let index = scan_index ''move_to'' msg in
      if index < 0 \<or> KUM_WORKSPACE_COUNT \<le> index then ipc_reply c (reply_error ''bad index or no focus'') s
      else case focused s of
        Some t \<Rightarrow> do { s1 \<leftarrow> kum_workspace_move_toplevel E t index s; ipc_reply c reply_ok s1 }
      | None \<Rightarrow>
          (case focused_xwayland s of
             Some x \<Rightarrow> ipc_reply c reply_ok (kum_workspace_move_xwayland_surface E x index s)
           | None \<Rightarrow> ipc_reply c (reply_error ''bad index or no focus'') s))"

definition cmd_close :: "nat \<Rightarrow> kum_server \<Rightarrow> kum_server option" where
  "cmd_close c s =
     (case focused s of
        Some t \<Rightarrow> ipc_reply c reply_ok (emit (Shell (XdgSendClose t)) s)
      | None \<Rightarrow>
          (case focused_xwayland s of
             Some x \<Rightarrow> ipc_reply c reply_ok (emit (Shell (XwClose x)) s)
           | None \<Rightarrow> ipc_reply c (reply_error ''no focused window'') s))"

definition cmd_layout :: "env \<Rightarrow> nat \<Rightarrow> string \<Rightarrow> kum_server \<Rightarrow> kum_server option" where
  "cmd_layout E c msg s =
     (let mode = scan_arg ''layout'' ''mode'' 15 msg in
      case kum_output_focused E s of
        None \<Rightarrow> ipc_reply c (reply_error ''no output'') s
      | Some i \<Rightarrow>
          let w = active_ws s i; set_layout = (\<lambda>l. upd_ws w (\<lambda>r. r\<lparr>ws_layout := l\<rparr>) s) in
          do {
            s1 \<leftarrow> (if mode = ''tile'' then kum_workspace_arrange E (Some i) w (set_layout LAYOUT_TILE)
                   else if mode = ''monocle'' then kum_workspace_arrange E (Some i) w (set_layout LAYOUT_MONOCLE)
                   else Some (set_layout LAYOUT_FLOATING));
            ipc_reply c reply_ok s1 })"

definition cmd_launch :: "nat \<Rightarrow> string \<Rightarrow> kum_server \<Rightarrow> kum_server option" where
  "cmd_launch c msg s =
     (let prog = scan_arg ''launch'' ''exec'' 255 msg in
      if prog \<noteq> [] then ipc_reply c reply_ok (emit (System (Spawn [''sh'', ''-c'', prog])) s)
      else ipc_reply c (reply_error ''missing exec'') s)"

definition ipc_handle_command :: "env \<Rightarrow> nat \<Rightarrow> string \<Rightarrow> kum_server \<Rightarrow> kum_server option" where
  "ipc_handle_command E c msg s =
     (let cmd = scan_cmd msg in
      if c \<notin> set (ipc_clients s) then None
      else if cmd = ''workspace'' then cmd_workspace E c msg s
      else if cmd = ''move_to'' then cmd_move_to E c msg s
      else if cmd = ''close'' then cmd_close c s
      else if cmd = ''layout'' then cmd_layout E c msg s
      else if cmd = ''launch'' then cmd_launch c msg s
      else if cmd = ''quit'' then map_option (emit (System DisplayTerminate)) (ipc_reply c reply_ok s)
      else if cmd = ''reload'' then do { s1 \<leftarrow> kum_server_reload_config E s; ipc_reply c reply_ok s1 }
      else ipc_reply c (reply_error ''unknown command'') s)"

section \<open>Sockets\<close>

definition IPC_BUF :: nat where "IPC_BUF = 512"

text \<open>
  The lines of what one \<open>recv\<close> delivered: up to the first NUL, cut at the newlines, the
  last piece (which need not be complete) included, empty ones left out.
\<close>

definition command_lines :: "string \<Rightarrow> string list" where
  "command_lines data =
     filter (\<lambda>l. l \<noteq> []) (split_on NL (takeWhile (\<lambda>x. x \<noteq> CHR 0x00) (take (IPC_BUF - 1) data)))"

definition handle_client_readable :: "env \<Rightarrow> nat \<Rightarrow> string option \<Rightarrow> kum_server \<Rightarrow> kum_server option" where
  \<comment> \<open>\<open>None\<close> for a hangup, an error or a \<open>recv\<close> that returned nothing\<close>
  "handle_client_readable E c data s =
     (case data of
        None \<Rightarrow> Some (ipc_client_destroy c s)
      | Some d \<Rightarrow> run (ipc_handle_command E c) (command_lines d) s)"

definition handle_new_connection :: "env \<Rightarrow> nat option \<Rightarrow> kum_server \<Rightarrow> kum_server option" where
  \<comment> \<open>\<open>None\<close>: an error on the socket, or \<open>accept4\<close> failed\<close>
  "handle_new_connection E cfd s =
     (case cfd of
        None \<Rightarrow> Some s
      | Some c \<Rightarrow> ipc_send_initial_state E c (s\<lparr>ipc_clients := wl_insert c (ipc_clients s)\<rparr>))"

definition kum_ipc_finish :: "kum_server \<Rightarrow> kum_server" where
  "kum_ipc_finish s = fold ipc_client_destroy (ipc_clients s) s"

section \<open>Commands keep the state consistent\<close>

lemma ipc_reply_quiet: "ipc_reply c m s = Some s' \<Longrightarrow> quiet s s'"
  by (auto simp: ipc_reply_def split: if_splits)

lemma ipc_reply_shown: "ipc_reply c m s = Some s' \<Longrightarrow> shown_ok s \<Longrightarrow> shown_ok s'"
  using gentle_shown [OF quiet_gentle [OF ipc_reply_quiet]] by blast

lemma reply_all_quiet: "reply_all c ms s = Some s' \<Longrightarrow> quiet s s'"
  by (induction ms arbitrary: s) (auto elim!: bind_SomeE intro: quiet_trans [OF ipc_reply_quiet])

lemma cmd_workspace_shown: "cmd_workspace E c msg s = Some s' \<Longrightarrow> shown_ok s \<Longrightarrow> shown_ok s'"
  using switch_shown output_focused_mem ipc_reply_shown
  by (fastforce simp: cmd_workspace_def Let_def elim!: bind_SomeE split: if_split_asm)

lemma cmd_move_to_shown: "cmd_move_to E c msg s = Some s' \<Longrightarrow> shown_ok s \<Longrightarrow> shown_ok s'"
  using move_toplevel_shown focus_listed move_xwayland_shown ipc_reply_shown
  by (fastforce simp: cmd_move_to_def Let_def elim!: bind_SomeE split: if_split_asm option.splits)

lemma cmd_close_shown: "cmd_close c s = Some s' \<Longrightarrow> shown_ok s \<Longrightarrow> shown_ok s'"
  by (auto simp: cmd_close_def shown_emit split: option.splits elim!: ipc_reply_shown)

lemma cmd_layout_shown:
  assumes "cmd_layout E c msg s = Some s'" and "shown_ok s"
  shows "shown_ok s'"
proof (cases "kum_output_focused E s")
  case None
  with assms show ?thesis by (auto simp: cmd_layout_def elim: ipc_reply_shown)
next
  case (Some i)
  have l: "shown_ok (upd_ws w (\<lambda>r. r\<lparr>ws_layout := l\<rparr>) s)" for w l by (rule set_layout_shown [OF assms(2)])
  let ?set = "\<lambda>l. upd_ws (active_ws s i) (\<lambda>r. r\<lparr>ws_layout := l\<rparr>) s"
  let ?mode = "scan_arg ''layout'' ''mode'' 15 msg"
  obtain s1 where 1: "(if ?mode = ''tile'' then kum_workspace_arrange E (Some i) (active_ws s i) (?set LAYOUT_TILE)
      else if ?mode = ''monocle'' then kum_workspace_arrange E (Some i) (active_ws s i) (?set LAYOUT_MONOCLE)
      else Some (?set LAYOUT_FLOATING)) = Some s1" and r: "ipc_reply c reply_ok s1 = Some s'"
    using assms(1) Some by (auto simp: cmd_layout_def Let_def elim!: bind_SomeE)
  have "shown_ok s1"
    using 1 l gentle_shown [OF gentle_arrange l] by (auto split: if_split_asm)
  then show ?thesis by (rule ipc_reply_shown [OF r])
qed

lemma cmd_launch_shown: "cmd_launch c msg s = Some s' \<Longrightarrow> shown_ok s \<Longrightarrow> shown_ok s'"
  by (auto simp: cmd_launch_def Let_def shown_emit split: if_splits elim!: ipc_reply_shown)

lemma ipc_handle_command_shown [kum_inv]:
  assumes "ipc_handle_command E c msg s = Some s'" and "shown_ok s"
  shows "shown_ok s'"
proof -
  have q: "map_option (emit (System DisplayTerminate)) (ipc_reply c reply_ok s) = Some s' \<Longrightarrow> shown_ok s'"
    using ipc_reply_shown [OF _ assms(2)] by (auto simp: shown_emit)
  have r: "Option.bind (kum_server_reload_config E s) (ipc_reply c reply_ok) = Some s' \<Longrightarrow> shown_ok s'"
    using reload_shown [OF _ assms(2)] ipc_reply_shown by (auto elim!: bind_SomeE)
  show ?thesis
    using assms(1) cmd_workspace_shown [OF _ assms(2)] cmd_move_to_shown [OF _ assms(2)] cmd_close_shown [OF _ assms(2)]
      cmd_layout_shown [OF _ assms(2)] cmd_launch_shown [OF _ assms(2)] q r ipc_reply_shown [OF _ assms(2)]
    unfolding ipc_handle_command_def Let_def by (simp split: if_split_asm)
qed

lemma client_destroy_gentle [gentle]: "gentle s (ipc_client_destroy c s)"
  by (rule quiet_gentle, rule quietI [where cs = "[System (SocketClose c)]" and cl = "wl_remove c (ipc_clients s)"])
    (auto simp: ipc_client_destroy_def emit_def)

lemma client_readable_shown [kum_inv]:
  assumes "handle_client_readable E c data s = Some s'" and "shown_ok s"
  shows "shown_ok s'"
proof (cases data)
  case None
  with assms show ?thesis using gentle_shown [OF client_destroy_gentle] by (auto simp: handle_client_readable_def)
next
  case (Some d)
  have "run (ipc_handle_command E c) ls s = Some s' \<Longrightarrow> shown_ok s \<Longrightarrow> shown_ok s'" for ls s
    by (induction ls arbitrary: s) (auto elim!: bind_SomeE intro: ipc_handle_command_shown)
  with assms Some show ?thesis by (simp add: handle_client_readable_def)
qed

lemma clients_gentle [gentle]: "gentle s (s\<lparr>ipc_clients := cs\<rparr>)"
  by (auto simp: gentle_def same_view_def ws_of_def xws_of_def fun_eq_iff)

lemma new_connection_gentle [gentle]: "handle_new_connection E cfd s = Some s' \<Longrightarrow> gentle s s'"
  by (auto simp: handle_new_connection_def ipc_send_initial_state_def split: option.splits
      intro: gentle_trans [OF clients_gentle quiet_gentle [OF reply_all_quiet]])

lemma ipc_finish_clients [simp]: "ipc_clients (kum_ipc_finish s) = []"
proof -
  have "ipc_clients (fold ipc_client_destroy cs t) = filter (\<lambda>c. c \<notin> set cs) (ipc_clients t)" for cs t
    by (induction cs arbitrary: t) (auto simp: ipc_client_destroy_def wl_remove_def filter_filter intro: filter_cong)
  then show ?thesis by (simp add: kum_ipc_finish_def)
qed

end
