(* ===== verification/Server.thy ===== *)
theory Server
  imports Ipc
begin

text \<open>
  The life of the compositor (\<open>src/server.c\<close>): the state it starts in, what it runs
  once the backend is up, and the shutdown. The wlroots objects are taken to be
  created successfully (the program exits when one is not).
\<close>

section \<open>Start\<close>

definition zeroed_server :: kum_server where
  \<comment> \<open>\<open>memset(server, 0, sizeof(*server))\<close>, the lists initialised\<close>
  "zeroed_server =
     \<lparr>outputs = [], output_at = (\<lambda>_. \<lparr>usable_area = no_box, active_workspace = 0, previous_workspace = 0\<rparr>),
      toplevels = [], toplevel_at = (\<lambda>_. blank_toplevel 0), xwayland_surfaces = [], xsurface_at = (\<lambda>_. new_xsurface 0),
      workspaces = (\<lambda>_. \<lparr>ws_layout = LAYOUT_FLOATING, ws_toplevels = []\<rparr>), keyboards = [], pointers = [],
      keybinds = [], ipc_clients = [], layer_surfaces = [], layer_assigned = (\<lambda>_. None), cfg = kum_config_defaults,
      rules = [], focused = None, focused_xwayland = None, scratchpad_ws = 0, next_focus_serial = 0, active_lock = None,
      locked = False, lock_children = [], split_layouts = [], layout_current = 0, next_node = 0, trace = []\<rparr>"

definition server_setup_input :: "kum_server \<Rightarrow> kum_server" where
  "server_setup_input s =
     kum_keybind_setup_session (kum_keybind_setup_extended (kum_keybind_setup_defaults
       (s\<lparr>keyboards := [], pointers := [], keybinds := []\<rparr>)))"

definition kum_server_init :: "env \<Rightarrow> kum_server" where
  "kum_server_init E =
     (let file = os_file E (config_path E);
          s1 = zeroed_server\<lparr>cfg := fst (kum_config_load file kum_config_defaults), rules := kum_rules_load file []\<rparr>;
          s2 = emits [Scene (TreeCreate NRoot NLayerBg), Scene (TreeCreate NRoot NLayerBottom),
                 Scene (TreeCreate NRoot NNormal), Scene (TreeCreate NRoot NLayerTop), Scene (TreeCreate NRoot NLayerOverlay)] s1;
          s3 = (kum_workspace_init s2)\<lparr>scratchpad_ws := KUM_WORKSPACE_COUNT - 1\<rparr>;
          s4 = emit (Scene (TreeCreate NRoot NLockTree)) s3
      in kum_kb_layout_init (server_setup_input s4))"

section \<open>Running\<close>

text \<open>The first program of the list the child process can execute.\<close>

definition terminal_candidates :: "string \<Rightarrow> string list" where
  "terminal_candidates preferred =
     (if preferred \<noteq> [] then [preferred] else []) @ [''foot'', ''alacritty'', ''kitty'', ''weston-terminal'']"

definition spawn_terminal :: "env \<Rightarrow> string \<Rightarrow> kum_server \<Rightarrow> kum_server" where
  "spawn_terminal E preferred s =
     (case List.find (os_exec E) (terminal_candidates preferred) of
        None \<Rightarrow> s
      | Some p \<Rightarrow> emit (System (Spawn [p])) s)"

definition kum_server_run :: "env \<Rightarrow> kum_server \<Rightarrow> kum_server" where
  "kum_server_run E s = spawn_terminal E (cfg_terminal (cfg s)) (kum_autostart_run s)"

definition kum_server_finish :: "kum_server \<Rightarrow> kum_server" where
  "kum_server_finish s =
     emit (Scene (NodeDestroy NRoot)) (kum_ipc_finish (s\<lparr>rules := kum_rules_free (rules s)\<rparr>))"

section \<open>The initial state\<close>

lemma zeroed_shown: "shown_ok (zeroed_server\<lparr>cfg := c, rules := rs, scratchpad_ws := 8\<rparr>)"
  by (simp add: zeroed_server_def shown_ok_def server_ok_def windows_ok_def focus_ok_def outputs_ok_def visible_ok_def
      ws_ok_numerals)

lemma keybinds_gentle [gentle]: "gentle s (s\<lparr>keybinds := k\<rparr>)"
  by (auto simp: gentle_def same_view_def ws_of_def xws_of_def fun_eq_iff)

lemma setup_input_gentle [gentle]: "gentle s (server_setup_input s)"
proof -
  have r: "gentle t (register_rows rows t)" for rows t by (simp add: register_rows_eq keybinds_gentle)
  have "gentle s (s\<lparr>keyboards := [], pointers := [], keybinds := []\<rparr>)"
    by (rule gentle_trans [OF keyboards_gentle(1) gentle_trans [OF keyboards_gentle(2) keybinds_gentle]])
  then show ?thesis
    unfolding server_setup_input_def kum_keybind_setup_defaults_def kum_keybind_setup_extended_def kum_keybind_setup_session_def
    by (intro gentle_trans [OF _ r])
qed

lemma workspace_init_trace:
  assumes "workspaces s = (\<lambda>_. \<lparr>ws_layout = LAYOUT_FLOATING, ws_toplevels = []\<rparr>)" and "\<forall>w. \<not> ws_enabled w (trace s)"
  shows "\<exists>tr. kum_workspace_init s = s\<lparr>trace := tr\<rparr> \<and> (\<forall>w. \<not> ws_enabled w tr)"
proof -
  let ?f = "\<lambda>i st. emits [Scene (TreeCreate NNormal (NWorkspace i)), Scene (SetEnabled (NWorkspace i) False)]
      (upd_ws i (\<lambda>_. \<lparr>ws_layout = LAYOUT_FLOATING, ws_toplevels = []\<rparr>) st)"
  have step: "?f i (s\<lparr>trace := tr\<rparr>) = s\<lparr>trace := Scene (SetEnabled (NWorkspace i) False) # Scene (TreeCreate NNormal (NWorkspace i)) # tr\<rparr>"
    for i tr
    using assms(1) by (simp add: emits_def upd_ws_def fun_upd_idem)
  have "\<exists>tr'. fold ?f is (s\<lparr>trace := tr\<rparr>) = s\<lparr>trace := tr'\<rparr> \<and> (\<forall>w. \<not> ws_enabled w tr')"
    if "\<forall>w. \<not> ws_enabled w tr" for "is" tr
    using that
  proof (induction "is" arbitrary: tr)
    case (Cons i "is")
    show ?case using Cons.IH [of "Scene (SetEnabled (NWorkspace i) False) # Scene (TreeCreate NNormal (NWorkspace i)) # tr"]
        Cons.prems by (simp add: step del: emits_emits)
  qed auto
  from this [OF assms(2), of "[0..KUM_WORKSPACE_COUNT - 1]"] show ?thesis by (simp add: kum_workspace_init_def)
qed

lemma server_init_shown: "shown_ok (kum_server_init E)"
proof -
  let ?file = "os_file E (config_path E)"
  define s1 where "s1 = zeroed_server\<lparr>cfg := fst (kum_config_load ?file kum_config_defaults), rules := kum_rules_load ?file []\<rparr>"
  define s2 where "s2 = emits [Scene (TreeCreate NRoot NLayerBg), Scene (TreeCreate NRoot NLayerBottom),
    Scene (TreeCreate NRoot NNormal), Scene (TreeCreate NRoot NLayerTop), Scene (TreeCreate NRoot NLayerOverlay)] s1"
  have "\<exists>tr. kum_workspace_init s2 = s2\<lparr>trace := tr\<rparr> \<and> (\<forall>w. \<not> ws_enabled w tr)"
    by (rule workspace_init_trace) (simp_all add: s2_def s1_def zeroed_server_def)
  then obtain tr where 3: "kum_workspace_init s2 = s2\<lparr>trace := tr\<rparr>" "\<forall>w. \<not> ws_enabled w tr" by blast
  have "shown_ok ((kum_workspace_init s2)\<lparr>scratchpad_ws := KUM_WORKSPACE_COUNT - 1\<rparr>)"
    using 3(2) unfolding 3(1)
    by (simp add: s2_def s1_def zeroed_server_def emits_def shown_ok_def server_ok_def windows_ok_def focus_ok_def
        outputs_ok_def visible_ok_def ws_ok_def KUM_WORKSPACE_COUNT_def)
  then have "shown_ok (server_setup_input (emit (Scene (TreeCreate NRoot NLockTree))
      ((kum_workspace_init s2)\<lparr>scratchpad_ws := KUM_WORKSPACE_COUNT - 1\<rparr>)))"
    by (intro gentle_shown [OF setup_input_gentle] gentle_shown [OF gentle_emit]) simp_all
  then show ?thesis
    unfolding kum_server_init_def Let_def s1_def [symmetric] s2_def [symmetric]
    by (rule gentle_shown [OF kb_layout_init_gentle])
qed

lemma server_run_gentle [gentle]: "gentle s (kum_server_run E s)"
  by (auto simp: kum_server_run_def spawn_terminal_def split: option.split
      intro: gentle_trans [OF quiet_gentle [OF autostart_quiet] gentle_emit] quiet_gentle [OF autostart_quiet])

lemma server_started: "shown_ok (kum_server_run E (kum_server_init E))"
  by (rule gentle_shown [OF server_run_gentle server_init_shown])

lemma server_init_fields:
  "outputs (kum_server_init E) = []" "toplevels (kum_server_init E) = []" "xwayland_surfaces (kum_server_init E) = []"
  "locked (kum_server_init E) = False" "focused (kum_server_init E) = None"
  "keybinds (kum_server_init E) = rev (map bind_of all_rows)"
proof -
  let ?s1 = "zeroed_server\<lparr>cfg := c, rules := r\<rparr>"
  have w: "outputs (kum_workspace_init s) = outputs s \<and> toplevels (kum_workspace_init s) = toplevels s \<and>
      xwayland_surfaces (kum_workspace_init s) = xwayland_surfaces s \<and> locked (kum_workspace_init s) = locked s \<and>
      focused (kum_workspace_init s) = focused s" for s
  proof -
    let ?f = "\<lambda>i st. emits [Scene (TreeCreate NNormal (NWorkspace i)), Scene (SetEnabled (NWorkspace i) False)]
        (upd_ws i (\<lambda>_. \<lparr>ws_layout = LAYOUT_FLOATING, ws_toplevels = []\<rparr>) st)"
    have "outputs (fold ?f is s) = outputs s \<and> toplevels (fold ?f is s) = toplevels s \<and>
        xwayland_surfaces (fold ?f is s) = xwayland_surfaces s \<and> locked (fold ?f is s) = locked s \<and>
        focused (fold ?f is s) = focused s" for "is"
      by (induction "is" arbitrary: s) simp_all
    then show ?thesis by (simp add: kum_workspace_init_def)
  qed
  note g = gentle_fields [OF gentle_trans [OF setup_input_gentle kb_layout_init_gentle]]
  show "outputs (kum_server_init E) = []" "toplevels (kum_server_init E) = []" "xwayland_surfaces (kum_server_init E) = []"
    "locked (kum_server_init E) = False" "focused (kum_server_init E) = None"
    by (simp_all add: kum_server_init_def Let_def g w zeroed_server_def)
  have "keybinds (kum_kb_layout_init t) = keybinds t" for t by (simp add: kum_kb_layout_init_def Let_def)
  then show "keybinds (kum_server_init E) = rev (map bind_of all_rows)"
    by (simp add: kum_server_init_def Let_def server_setup_input_def register_rows_eq all_rows_def
        kum_keybind_setup_session_def kum_keybind_setup_extended_def kum_keybind_setup_defaults_def)
qed


end
