(* ===== verification/Session.thy ===== *)
theory Session
  imports Server
begin

text \<open>
  The compositor as a whole: every event it handles, as a step relation on its state, and
  the invariant of every state a session can reach.
\<close>

section \<open>Steps\<close>

text \<open>
  Each step is the handler of one event with its answers \<open>E\<close>. What wlroots guarantees is
  in the premises: an event of a window comes for a window it announced, a surface is
  unmapped before it is destroyed, a new object is not one the compositor knows. An event
  whose handler is undefined has no step.
\<close>

inductive window_step :: "env \<Rightarrow> kum_server \<Rightarrow> kum_server \<Rightarrow> bool" for E where
  w_new: "t \<notin> set (toplevels s) \<Longrightarrow> window_step E s (kum_new_xdg_toplevel E t s)"
| w_map: "t \<in> set (toplevels s) \<Longrightarrow> toplevel_map E t s = Some s' \<Longrightarrow> window_step E s s'"
| w_unmap: "t \<in> set (toplevels s) \<Longrightarrow> toplevel_unmap E t s = Some s' \<Longrightarrow> window_step E s s'"
| w_commit: "t \<in> set (toplevels s) \<Longrightarrow> toplevel_commit E t s = Some s' \<Longrightarrow> window_step E s s'"
| w_destroy: "t \<in> set (toplevels s) \<Longrightarrow> focused s \<noteq> Some t \<Longrightarrow> window_step E s (toplevel_destroy t s)"
| w_move: "request_move E t s = Some s' \<Longrightarrow> window_step E s s'"
| w_resize: "request_resize E t es s = Some s' \<Longrightarrow> window_step E s s'"
| w_maximize: "window_step E s (request_maximize E t s)"
| w_fullscreen: "window_step E s (request_fullscreen E t s)"
| w_popup: "kum_new_xdg_popup p parent s = Some s' \<Longrightarrow> window_step E s s'"
| w_popup_commit: "window_step E s (popup_commit p b s)"

inductive xwindow_step :: "env \<Rightarrow> kum_server \<Rightarrow> kum_server \<Rightarrow> bool" for E where
  x_new: "x \<notin> set (xwayland_surfaces s) \<Longrightarrow> xwindow_step E s (handle_new_xwayland_surface E x s)"
| x_associate: "xwayland_surface_associate E x s = Some s' \<Longrightarrow> xwindow_step E s s'"
| x_dissociate: "xwindow_step E s (xwayland_surface_dissociate x s)"
| x_map: "x \<in> set (xwayland_surfaces s) \<Longrightarrow> xwayland_surface_map E x s = Some s' \<Longrightarrow> xwindow_step E s s'"
| x_unmap: "xwindow_step E s (xwayland_surface_unmap E x s)"
| x_commit: "xwayland_surface_commit E x s = Some s' \<Longrightarrow> xwindow_step E s s'"
| x_destroy: "xwindow_step E s (xwayland_surface_destroy x s)"
| x_move: "xwindow_step E s (xwayland_request_move E x s)"
| x_resize: "xwindow_step E s (xwayland_request_resize E x es s)"
| x_maximize: "xwindow_step E s (xwayland_request_maximize E x s)"
| x_fullscreen: "xwindow_step E s (xwayland_request_fullscreen E x s)"

inductive input_step :: "env \<Rightarrow> kum_server \<Rightarrow> kum_server \<Rightarrow> bool" for E where
  i_new: "input_step E s (kum_new_input E d s)"
| i_keyboard_gone: "input_step E s (keyboard_destroy d s)"
| i_pointer_gone: "input_step E s (pointer_destroy d s)"
| i_modifiers: "input_step E s (keyboard_modifiers d s)"
| i_key: "keyboard_key E d code pressed s = Some s' \<Longrightarrow> input_step E s s'"
| i_motion: "scene_known E s \<Longrightarrow> kum_cursor_motion E dx dy s = Some s' \<Longrightarrow> input_step E s s'"
| i_absolute: "scene_known E s \<Longrightarrow> kum_cursor_motion_absolute E px py s = Some s' \<Longrightarrow> input_step E s s'"
| i_button: "scene_known E s \<Longrightarrow> kum_cursor_button E b pressed s = Some s' \<Longrightarrow> input_step E s s'"
| i_axis: "input_step E s (kum_cursor_axis d s)"
| i_frame: "input_step E s (kum_cursor_frame s)"
| i_cursor: "input_step E s (kum_request_cursor hp sf s)"
| i_selection: "input_step E s (kum_request_set_selection sel s)"

text \<open>Nine outputs are as many as there are workspaces; with more, two outputs would share one.\<close>

inductive output_step :: "env \<Rightarrow> kum_server \<Rightarrow> kum_server \<Rightarrow> bool" for E where
  o_new: "i \<notin> set (outputs s) \<Longrightarrow> length (outputs s) < 9 \<Longrightarrow> output_step E s (kum_new_output E i s)"
| o_frame: "output_frame E i s = Some s' \<Longrightarrow> output_step E s s'"
| o_request: "output_step E s (output_request_state i s)"
| o_destroy: "i \<in> set (outputs s) \<Longrightarrow> output_destroy E i s = Some s' \<Longrightarrow> output_step E s s'"

inductive layer_step :: "env \<Rightarrow> kum_server \<Rightarrow> kum_server \<Rightarrow> bool" for E where
  l_new: "kum_new_layer_surface E l s = Some s' \<Longrightarrow> layer_step E s s'"
| l_map: "layer_map E l s = Some s' \<Longrightarrow> layer_step E s s'"
| l_unmap: "layer_unmap E l s = Some s' \<Longrightarrow> layer_step E s s'"
| l_commit: "layer_commit E l s = Some s' \<Longrightarrow> layer_step E s s'"
| l_destroy: "layer_destroy E l s = Some s' \<Longrightarrow> layer_step E s s'"

inductive lock_step :: "env \<Rightarrow> kum_server \<Rightarrow> kum_server \<Rightarrow> bool" for E where
  k_new: "lock_step E s (new_session_lock E l s)"
| k_surface: "lock_step E s (active_lock_new_surface E l s)"
| k_unlock: "lock_step E s (active_lock_unlock s)"
| k_destroy: "lock_step E s (active_lock_destroy s)"
| k_surface_gone: "lock_surface_destroy l s = Some s' \<Longrightarrow> lock_step E s s'"

inductive control_step :: "env \<Rightarrow> kum_server \<Rightarrow> kum_server \<Rightarrow> bool" for E where
  c_connect: "handle_new_connection E cfd s = Some s' \<Longrightarrow> control_step E s s'"
| c_readable: "handle_client_readable E c data s = Some s' \<Longrightarrow> control_step E s s'"
| c_sighup: "kum_server_reload_config E s = Some s' \<Longrightarrow> control_step E s s'"

definition session_step :: "env \<Rightarrow> kum_server \<Rightarrow> kum_server \<Rightarrow> bool" where
  "session_step E s s' \<longleftrightarrow>
     window_step E s s' \<or> xwindow_step E s s' \<or> input_step E s s' \<or> output_step E s s' \<or>
     layer_step E s s' \<or> lock_step E s s' \<or> control_step E s s'"

inductive session :: "kum_server \<Rightarrow> bool" where
  started: "session (kum_server_run E (kum_server_init E))"
| step: "session s \<Longrightarrow> session_step E s s' \<Longrightarrow> session s'"

inductive_cases control_stepE: "control_step E s s'"

inductive_simps layer_step_iff: "layer_step E s s'"

section \<open>Every step keeps the state consistent\<close>

lemma window_step_shown:
  assumes "window_step E s s'" and "shown_ok s"
  shows "shown_ok s'"
  using assms(1)
proof (cases rule: window_step.cases)
  case (w_new t)
  then show ?thesis using new_toplevel_shown assms(2) by blast
next
  case (w_map t)
  then show ?thesis using toplevel_map_effect assms(2) by blast
next
  case (w_unmap t)
  then show ?thesis using toplevel_unmap_shown assms(2) by blast
next
  case (w_commit t)
  then show ?thesis using gentle_shown [OF toplevel_commit_gentle] assms(2) by blast
next
  case (w_destroy t)
  then show ?thesis using toplevel_destroy_shown assms(2) by blast
next
  case (w_move t)
  then show ?thesis using gentle_shown [OF begin_interactive_gentle] assms(2) by (auto simp: request_move_def)
next
  case (w_resize t es)
  then show ?thesis using gentle_shown [OF begin_interactive_gentle] assms(2) by (auto simp: request_resize_def)
next
  case (w_maximize t)
  then show ?thesis using gentle_shown [OF request_maximize_gentle] assms(2) by blast
next
  case (w_fullscreen t)
  then show ?thesis using gentle_shown [OF set_fullscreen_gentle] assms(2) by (auto simp: request_fullscreen_def)
next
  case (w_popup p parent)
  then show ?thesis using assms(2) by (auto simp: kum_new_xdg_popup_def shown_emit shown_emits split: option.splits)
next
  case (w_popup_commit p b)
  then show ?thesis using assms(2) by (auto simp: popup_commit_def shown_emit)
qed

lemma xwindow_step_shown:
  assumes "xwindow_step E s s'" and "shown_ok s"
  shows "shown_ok s'"
  using assms(1)
proof (cases rule: xwindow_step.cases)
  case (x_new x)
  then show ?thesis using new_xwayland_shown assms(2) by blast
next
  case (x_associate x)
  then show ?thesis using gentle_shown [OF associate_gentle] assms(2) by blast
next
  case (x_map x)
  then show ?thesis using xwayland_map_effect assms(2) by blast
next
  case (x_unmap x)
  then show ?thesis using xwayland_unmap_shown assms(2) by blast
next
  case (x_commit x)
  then show ?thesis using gentle_shown [OF xwayland_commit_gentle] assms(2) by blast
next
  case (x_destroy x)
  then show ?thesis using xwayland_destroy_shown assms(2) by blast
qed (use assms(2) gentle_shown [OF dissociate_gentle] gentle_shown [OF xw_interactive_gentle]
    gentle_shown [OF xw_maximized_gentle] gentle_shown [OF xw_fullscreen_gentle]
    in \<open>auto simp: xwayland_request_move_def xwayland_request_resize_def xwayland_request_maximize_def
      xwayland_request_fullscreen_def\<close>)

lemma input_step_shown:
  assumes "input_step E s s'" and "shown_ok s"
  shows "shown_ok s'"
  using assms(1)
proof (cases rule: input_step.cases)
  case (i_new d)
  then show ?thesis using gentle_shown [OF new_input_gentle] assms(2) by blast
next
  case (i_keyboard_gone d)
  then show ?thesis using gentle_shown [OF keyboards_gentle(1)] assms(2) by (simp add: keyboard_destroy_def)
next
  case (i_pointer_gone d)
  then show ?thesis using gentle_shown [OF keyboards_gentle(2)] assms(2) by (simp add: pointer_destroy_def)
next
  case (i_key d code pressed)
  then show ?thesis using keyboard_key_shown assms(2) by blast
next
  case (i_motion dx dy)
  have "shown_ok (emit (Device (CursorMove dx dy)) s)" "scene_known E (emit (Device (CursorMove dx dy)) s)"
    using assms(2) i_motion(1) by (simp_all add: shown_emit scene_known_def)
  then show ?thesis using i_motion(2) cursor_motion_shown by (auto simp: kum_cursor_motion_def)
next
  case (i_absolute px py)
  have "shown_ok (emit (Device (CursorWarpAbsolute px py)) s)" "scene_known E (emit (Device (CursorWarpAbsolute px py)) s)"
    using assms(2) i_absolute(1) by (simp_all add: shown_emit scene_known_def)
  then show ?thesis using i_absolute(2) cursor_motion_shown by (auto simp: kum_cursor_motion_absolute_def)
next
  case (i_button b pressed)
  then show ?thesis using cursor_button_shown assms(2) by blast
qed (use assms(2) in \<open>auto simp: keyboard_modifiers_def kum_cursor_axis_def kum_cursor_frame_def kum_request_cursor_def
    kum_request_set_selection_def shown_emit shown_emits\<close>)

lemma tick_list_gentle: "tick_list E ts s = Some s' \<Longrightarrow> gentle s s'"
proof (induction ts arbitrary: s)
  case (Cons t ts)
  let ?a = "tl_anim (toplevel_at s t)"
  show ?case
  proof (cases "an_done ?a \<or> an_type ?a = ANIM_NONE")
    case True
    then show ?thesis using Cons by simp
  next
    case False
    then obtain a1 s2 where
        s2: "(if an_type a1 = ANIM_OPENING \<or> an_type a1 = ANIM_CLOSING
         then Some (emit (Scene (SetEnabled (NToplevel t) (f32 (5 / 100) < an_current a1))) (upd_tl t (\<lambda>r. r\<lparr>tl_anim := a1\<rparr>) s))
         else kum_border_update E t True (upd_tl t (\<lambda>r. r\<lparr>tl_anim := a1\<rparr>) s)) = Some s2"
      and r: "tick_list E ts s2 = Some s'"
      using Cons.prems by (auto simp: Let_def elim!: bind_SomeE)
    have u: "gentle s (upd_tl t (\<lambda>r. r\<lparr>tl_anim := a1\<rparr>) s)" by (rule gentle_upd_tl) simp
    have "gentle s s2"
      using s2 gentle_trans [OF u gentle_emit] gentle_trans [OF u gentle_border_update(1)] by (auto split: if_split_asm)
    then show ?thesis using Cons.IH [OF r] by (rule gentle_trans)
  qed
qed simp

lemma output_step_shown:
  assumes "output_step E s s'" and "shown_ok s"
  shows "shown_ok s'"
  using assms(1)
proof (cases rule: output_step.cases)
  case (o_new i)
  then show ?thesis using new_output_effect assms(2) by blast
next
  case (o_frame i)
  then obtain s1 where "tick_list E (toplevels s) s = Some s1"
    and "s' = emits [Output (SceneOutputCommit i), Output (SendFrameDone i)] s1"
    by (auto simp: output_frame_def tick_animations_def elim!: bind_SomeE)
  then show ?thesis using gentle_shown [OF tick_list_gentle assms(2)] by (simp add: shown_emits)
next
  case (o_request i)
  then show ?thesis using assms(2) by (simp add: output_request_state_def shown_emit)
next
  case (o_destroy i)
  then show ?thesis using output_destroy_shown assms(2) by blast
qed

lemma layer_step_shown: "layer_step E s s' \<Longrightarrow> shown_ok s \<Longrightarrow> shown_ok s'"
  using layer_shown layer_destroy_shown new_layer_shown unfolding layer_step_iff by blast

lemma control_step_shown: "control_step E s s' \<Longrightarrow> shown_ok s \<Longrightarrow> shown_ok s'"
  by (elim control_stepE) (use gentle_shown [OF new_connection_gentle] client_readable_shown reload_shown in blast)+

lemma new_lock_shown: "shown_ok s \<Longrightarrow> shown_ok (new_session_lock E l s)"
proof (cases "active_lock s \<noteq> None \<or> locked s")
  case True
  assume "shown_ok s"
  with True show ?thesis by (simp add: new_session_lock_def shown_emit)
next
  case False
  assume "shown_ok s"
  with False show ?thesis using new_lock_held by (auto simp: held_def)
qed

lemma lock_step_shown:
  assumes "lock_step E s s'" and "shown_ok s"
  shows "shown_ok s'"
  using assms(1)
proof (cases rule: lock_step.cases)
  case (k_new l)
  then show ?thesis using new_lock_shown assms(2) by blast
next
  case (k_surface l)
  then show ?thesis using new_surface_shown assms(2) by blast
next
  case k_unlock
  have "shown_ok (s\<lparr>locked := False, lock_children := []\<rparr>)"
    using lock_fields_shown(1) [OF lock_fields_shown(3) [OF assms(2)]] by simp
  then show ?thesis using k_unlock by (auto simp: active_lock_unlock_def list_all_iff intro!: shown_emits)
next
  case k_destroy
  then show ?thesis using lock_fields_shown(2) [OF assms(2)] by (simp add: active_lock_destroy_def)
next
  case (k_surface_gone l)
  then show ?thesis using lock_fields_shown(1) [OF assms(2)]
    by (auto simp: lock_surface_destroy_def shown_emit split: if_splits)
qed

lemma session_step_shown: "session_step E s s' \<Longrightarrow> shown_ok s \<Longrightarrow> shown_ok s'"
  unfolding session_step_def
  by (elim disjE)
    (erule (1) window_step_shown xwindow_step_shown input_step_shown output_step_shown layer_step_shown
      lock_step_shown control_step_shown)+

lemma session_shown: "session s \<Longrightarrow> shown_ok s"
  by (induction rule: session.induct) (auto intro: server_started session_step_shown)


text \<open>A short session: an output is plugged in, a window opens, the lock client locks and dies.\<close>

definition ex_session :: kum_server where
  "ex_session =
     active_lock_destroy (new_session_lock ex_env 3
       (kum_new_xdg_toplevel ex_env 5 (kum_new_output ex_env 1 (kum_server_run ex_env (kum_server_init ex_env)))))"

lemma ex_session_reached: "session ex_session"
proof -
  let ?s0 = "kum_server_run ex_env (kum_server_init ex_env)"
  let ?s1 = "kum_new_output ex_env 1 ?s0"
  note f = gentle_fields [OF server_run_gentle] server_init_fields
  have 0: "session ?s0" by (rule started)
  have "output_step ex_env ?s0 ?s1" by (rule o_new) (simp_all add: f)
  with 0 have 1: "session ?s1" by (blast intro: step session_step_def [THEN iffD2])
  have "toplevels ?s1 = []" by (simp add: kum_new_output_def Let_def f)
  then have "window_step ex_env ?s1 (kum_new_xdg_toplevel ex_env 5 ?s1)" by (intro w_new) simp
  with 1 have 2: "session (kum_new_xdg_toplevel ex_env 5 ?s1)" by (blast intro: step session_step_def [THEN iffD2])
  have k: "session t \<Longrightarrow> session (new_session_lock ex_env 3 t)" "session t \<Longrightarrow> session (active_lock_destroy t)" for t
    using k_new [of ex_env t 3] k_destroy [of ex_env t] by (blast intro: step session_step_def [THEN iffD2])+
  show ?thesis unfolding ex_session_def by (intro k 2)
qed


end
