(* ===== verification/Kumde_Msg.thy ===== *)
theory Kumde_Msg
  imports Ipc
begin

text \<open>
  The command line tool (\<open>tools/kumde-msg.c\<close>): the message each command prints, and what
  the server of \<open>Ipc\<close> does when it reads it. A command is the list of the arguments
  after the program name.
\<close>

section \<open>The messages\<close>

text \<open>
  Joining the words of \<open>launch\<close> in a buffer of 400 bytes: \<open>acc\<close> is what the buffer holds,
  and a word that does not fit is cut and ends the loop.
\<close>

fun join_words :: "bool \<Rightarrow> string list \<Rightarrow> string \<Rightarrow> string" where
  "join_words sep [] acc = acc"
| "join_words sep (a # as) acc =
     (let p = (if sep then CHR '' '' # a else a) in
      if 400 - length acc \<le> length p then acc @ snprintf (400 - length acc) p
      else join_words True as (acc @ p))"

datatype msg_action =
    Usage
  | SendRecv string     \<comment> \<open>connect, send the message, print what the first \<open>recv\<close> returns\<close>
  | Subscribe string    \<comment> \<open>connect, send the message, print everything received\<close>
  | Datagram string     \<comment> \<open>sent to the socket of the notification daemon\<close>

definition msg_simple :: "string \<Rightarrow> string" where
  "msg_simple cmd = ''{'' @ jstr ''cmd'' @ '':'' @ jstr cmd @ ''}'' @ [NL]"

definition msg_text :: "string \<Rightarrow> string \<Rightarrow> string \<Rightarrow> string" where
  "msg_text cmd key val = cmd_start cmd @ jstr key @ '':'' @ jstr val @ ''}'' @ [NL]"

definition msg_number :: "string \<Rightarrow> string \<Rightarrow> int \<Rightarrow> string" where
  "msg_number cmd key k = cmd_start cmd @ jstr key @ '':'' @ show_int k @ ''}'' @ [NL]"

definition send_notify :: "string \<Rightarrow> string \<Rightarrow> string \<Rightarrow> int \<Rightarrow> int \<Rightarrow> string" where
  "send_notify app_n smy body urg tms =
     snprintf 900 (''NOTIFY '' @ app_n @ ''|'' @ smy @ ''|'' @ body @ ''|'' @ show_int urg @ ''|'' @ show_int tms)"

definition arg_or :: "string list \<Rightarrow> nat \<Rightarrow> 'a \<Rightarrow> (string \<Rightarrow> 'a) \<Rightarrow> 'a" where
  "arg_or as k d f = (if k < length as then f (as ! k) else d)"

definition kumde_msg :: "string list \<Rightarrow> msg_action" where
  "kumde_msg args =
     (case args of
        [] \<Rightarrow> Usage
      | cmd # as \<Rightarrow>
          if cmd = ''notify'' then
            (if length as < 2 then Usage
             else Datagram (send_notify (as ! 0) (as ! 1) (arg_or as 2 [] (\<lambda>b. b)) (arg_or as 3 1 atoi) (arg_or as 4 (-1) atoi)))
          else if cmd = ''launch'' \<and> as \<noteq> [] then
            SendRecv (snprintf 512 (msg_text ''launch'' ''exec'' (join_words False as [])))
          else if cmd = ''workspace'' \<and> as \<noteq> [] then
            SendRecv (snprintf 512 (msg_number ''workspace'' ''index'' (atoi (hd as) - 1)))
          else if cmd = ''move-to'' \<and> as \<noteq> [] then
            SendRecv (snprintf 512 (msg_number ''move_to'' ''index'' (atoi (hd as) - 1)))
          else if cmd = ''close'' then SendRecv (snprintf 512 (msg_simple ''close''))
          else if cmd = ''layout'' \<and> as \<noteq> [] then
            SendRecv (snprintf 512 (msg_text ''layout'' ''mode'' (hd as)))
          else if cmd = ''quit'' then SendRecv (snprintf 512 (msg_simple ''quit''))
          else if cmd = ''reload'' then SendRecv (snprintf 512 (msg_simple ''reload''))
          else if cmd = ''subscribe'' then Subscribe (msg_simple ''subscribe'')
          else Usage)"

section \<open>What the server reads\<close>

text \<open>One complete line, and nothing after it.\<close>

lemma split_on_one: "c \<notin> set a \<Longrightarrow> split_on c (a @ [c]) = [a, []]"
  by (induction a) auto

lemma command_lines_one:
  assumes "NL \<notin> set l" and "CHR 0x00 \<notin> set l" and "l \<noteq> []" and "length l < 511"
  shows "command_lines (l @ [NL]) = [l]"
proof -
  have "takeWhile (\<lambda>x. x \<noteq> CHR 0x00) (l @ [NL]) = l @ [NL]"
    using assms(2) by (auto simp: takeWhile_eq_all_conv NL_def)
  then show ?thesis using assms by (simp add: command_lines_def IPC_BUF_def split_on_one)
qed

lemma readable_one:
  assumes "NL \<notin> set l" and "CHR 0x00 \<notin> set l" and "l \<noteq> []" and "length l < 511"
  shows "handle_client_readable E c (Some (l @ [NL])) s = ipc_handle_command E c l s"
  by (cases "ipc_handle_command E c l s") (simp_all add: handle_client_readable_def command_lines_one [OF assms])

lemma cstring_jstr: "NL \<notin> set (jstr v) \<longleftrightarrow> NL \<notin> set v" "CHR 0x00 \<notin> set (jstr v) \<longleftrightarrow> CHR 0x00 \<notin> set v"
  by (auto simp: jstr_def QUOTE_def NL_def)

lemma length_jstr [simp]: "length (jstr v) = length v + 2"
  by (simp add: jstr_def)

lemma sscanf_quoted:
  assumes "QUOTE \<notin> set cmd" and "cmd \<noteq> []" and "length cmd \<le> 63"
  shows "scan_cmd (''{'' @ jstr ''cmd'' @ '':'' @ jstr cmd @ rest) = cmd"
proof -
  let ?p = "''{'' @ jstr ''cmd'' @ '':'' @ [QUOTE]"
  have "match_lit ?p (?p @ cmd @ QUOTE # rest) = Some (cmd @ QUOTE # rest)"
    by (rule match_lit_append) (simp add: jstr_def QUOTE_def isspace_def byte_def)
  then show ?thesis
    using scan_not_append [OF assms(2,3,1), of rest] by (simp add: scan_cmd_def jstr_def)
qed

definition plain_word :: "string \<Rightarrow> bool" where
  "plain_word w \<longleftrightarrow> (\<forall>c \<in> set w. \<not> isspace c \<and> c \<noteq> QUOTE)"

lemma plain_word_simps: "plain_word []" "plain_word (c # w) \<longleftrightarrow> \<not> isspace c \<and> c \<noteq> QUOTE \<and> plain_word w"
  by (simp_all add: plain_word_def)

lemma cmd_start_nospace: "plain_word cmd \<Longrightarrow> plain_word key \<Longrightarrow>
    \<forall>c \<in> set (cmd_start cmd @ jstr key @ '':''). \<not> isspace c"
  by (auto simp: cmd_start_def jstr_def plain_word_def QUOTE_def isspace_def byte_def)

lemma scan_index_number:
  assumes "plain_word cmd"
  shows "scan_index cmd (cmd_start cmd @ jstr ''index'' @ '':'' @ show_int k @ ''}'') = k"
proof -
  let ?p = "cmd_start cmd @ jstr ''index'' @ '':''"
  have i: "plain_word ''index''" by (simp add: plain_word_simps isspace_def byte_def QUOTE_def)
  have "match_lit ?p (?p @ show_int k @ ''}'') = Some (show_int k @ ''}'')"
    by (rule match_lit_append [OF cmd_start_nospace [OF assms i]])
  moreover have "scan_int (show_int k @ ''}'') = Some (k, ''}'')"
    by (rule scan_int_show_int) (simp add: isdigit_def byte_def)
  ultimately show ?thesis by (simp add: scan_index_def)
qed

lemma takeWhile_stop: "\<not> P q \<Longrightarrow> takeWhile P (v @ q # r) = takeWhile P v"
  by (induction v) auto

lemma scan_arg_text:
  assumes "plain_word cmd" and "plain_word key"
  shows "scan_arg cmd key n (cmd_start cmd @ jstr key @ '':'' @ jstr v @ r) = take n (takeWhile (\<lambda>c. c \<noteq> QUOTE) v)"
proof -
  let ?p = "cmd_start cmd @ jstr key @ '':'' @ [QUOTE]"
  have "\<forall>c \<in> set ?p. \<not> isspace c"
    using cmd_start_nospace [OF assms] by (auto simp: QUOTE_def isspace_def byte_def)
  then have "match_lit ?p (?p @ v @ QUOTE # r) = Some (v @ QUOTE # r)" by (rule match_lit_append)
  then show ?thesis by (simp add: scan_arg_def scan_not_def takeWhile_stop jstr_def Let_def)
qed

lemma scan_cmd_start: "plain_word cmd \<Longrightarrow> cmd \<noteq> [] \<Longrightarrow> length cmd \<le> 63 \<Longrightarrow> scan_cmd (cmd_start cmd @ rest) = cmd"
  using sscanf_quoted [of cmd "'','' @ rest"] by (auto simp: cmd_start_def plain_word_def)

lemma simple_scan: "plain_word cmd \<Longrightarrow> cmd \<noteq> [] \<Longrightarrow> length cmd \<le> 63 \<Longrightarrow>
    scan_cmd (''{'' @ jstr ''cmd'' @ '':'' @ jstr cmd @ ''}'') = cmd"
  using sscanf_quoted [of cmd "''}''"] by (auto simp: plain_word_def)

section \<open>What the server does\<close>

definition printable_arg :: "string \<Rightarrow> bool" where
  "printable_arg a \<longleftrightarrow> NL \<notin> set a \<and> CHR 0x00 \<notin> set a"

lemma show_int_plain: "NL \<notin> set (show_int k)" "CHR 0x00 \<notin> set (show_int k)"
  by (auto simp: show_int_def NL_def dest!: show_nat_digits) (auto simp: isdigit_def byte_def)

lemma length_show_nat_bound: "0 < d \<Longrightarrow> n < 10 ^ d \<Longrightarrow> length (show_nat n) \<le> d"
proof (induction d arbitrary: n)
  case (Suc d)
  show ?case
  proof (cases "n < 10")
    case False
    then have "0 < d" using Suc.prems by (cases d) auto
    moreover have "n div 10 < 10 ^ d" using Suc.prems by (simp add: less_mult_imp_div_less mult.commute)
    ultimately show ?thesis using Suc.IH False by (simp add: length_show_nat [of n])
  qed (simp add: length_show_nat)
qed simp

lemma length_show_int: "\<bar>k\<bar> < 10 ^ 10 \<Longrightarrow> length (show_int k) \<le> 11"
proof -
  assume k: "\<bar>k\<bar> < 10 ^ 10"
  then have "nat k < 10 ^ 10" "nat (- k) < 10 ^ 10" by (simp_all add: nat_less_iff)
  then have "length (show_nat (nat k)) \<le> 10" "length (show_nat (nat (- k))) \<le> 10"
    by (simp_all only: length_show_nat_bound zero_less_numeral)
  then show ?thesis by (simp add: show_int_def)
qed

lemma command_runs:
  assumes "printable_arg l" and "l \<noteq> []" and "length l < 511" and "c \<in> set (ipc_clients s)"
  shows "handle_client_readable E c (Some (snprintf 512 (l @ [NL]))) s = ipc_handle_command E c l s"
  using assms readable_one [of l E c s] by (simp add: snprintf_fits printable_arg_def)

lemma join_words_bound: "length acc < 400 \<Longrightarrow> length (join_words sep as acc) < 400"
  by (induction sep as acc rule: join_words.induct) (auto simp: Let_def snprintf_def)

lemma join_words_set: "set (join_words sep as acc) \<subseteq> set acc \<union> {CHR '' ''} \<union> \<Union> (set (map set as))"
proof (induction sep as acc rule: join_words.induct)
  case (2 sep a as acc)
  let ?p = "if sep then CHR '' '' # a else a"
  have p: "set ?p \<subseteq> {CHR '' ''} \<union> set a" by auto
  have s: "set (snprintf k q) \<subseteq> set q" for k q by (auto simp: snprintf_def dest: in_set_takeD)
  show ?case
  proof (cases "400 - length acc \<le> length ?p")
    case True
    then have "join_words sep (a # as) acc = acc @ snprintf (400 - length acc) ?p" by (simp only: join_words.simps Let_def if_True)
    then have "set (join_words sep (a # as) acc) \<subseteq> set acc \<union> set ?p" using s [of "400 - length acc" ?p] by (simp only: set_append) blast
    also have "\<dots> \<subseteq> set acc \<union> {CHR '' ''} \<union> \<Union> (set (map set (a # as)))" using p by (simp only: list.map list.set) blast
    finally show ?thesis .
  next
    case False
    then have "join_words sep (a # as) acc = join_words True as (acc @ ?p)" by (simp only: join_words.simps Let_def if_False)
    then have "set (join_words sep (a # as) acc) \<subseteq> set (acc @ ?p) \<union> {CHR '' ''} \<union> \<Union> (set (map set as))"
      using 2 [OF refl False] by simp
    also have "\<dots> \<subseteq> set acc \<union> {CHR '' ''} \<union> \<Union> (set (map set (a # as)))"
      using p by (simp only: list.map list.set set_append) blast
    finally show ?thesis .
  qed
qed auto

lemma join_words_printable: "list_all printable_arg as \<Longrightarrow> printable_arg (join_words False as [])"
  using join_words_set [of False as "[]"] by (fastforce simp: printable_arg_def list_all_iff NL_def)

text \<open>What each command asks of the server, in terms of the server's operations.\<close>

definition reaction :: "env \<Rightarrow> nat \<Rightarrow> string list \<Rightarrow> kum_server \<Rightarrow> kum_server option" where
  "reaction E c args s =
     (let cmd = hd args; a = args ! 1; k = atoi a - 1 in
      if cmd = ''launch'' then
        (let prog = take 255 (takeWhile (\<lambda>x. x \<noteq> QUOTE) (join_words False (tl args) [])) in
         if prog \<noteq> [] then ipc_reply c reply_ok (emit (System (Spawn [''sh'', ''-c'', prog])) s)
         else ipc_reply c (reply_error ''missing exec'') s)
      else if cmd = ''workspace'' then
        (if 0 \<le> k \<and> k < 9 then
           do { s1 \<leftarrow> kum_workspace_switch E (kum_output_focused E s) k s; ipc_reply c reply_ok s1 }
         else ipc_reply c (reply_error ''bad index'') s)
      else if cmd = ''move-to'' then
        (if k < 0 \<or> 9 \<le> k then ipc_reply c (reply_error ''bad index or no focus'') s
         else case focused s of
             Some t \<Rightarrow> do { s1 \<leftarrow> kum_workspace_move_toplevel E t k s; ipc_reply c reply_ok s1 }
           | None \<Rightarrow> (case focused_xwayland s of
               Some x \<Rightarrow> ipc_reply c reply_ok (kum_workspace_move_xwayland_surface E x k s)
             | None \<Rightarrow> ipc_reply c (reply_error ''bad index or no focus'') s))
      else if cmd = ''close'' then cmd_close c s
      else if cmd = ''layout'' then
        (let mode = take 15 (takeWhile (\<lambda>x. x \<noteq> QUOTE) a) in
         case kum_output_focused E s of
           None \<Rightarrow> ipc_reply c (reply_error ''no output'') s
         | Some i \<Rightarrow>
             let w = active_ws s i; set_to = (\<lambda>l. upd_ws w (\<lambda>r. r\<lparr>ws_layout := l\<rparr>) s) in
             do { s1 \<leftarrow> (if mode = ''tile'' then kum_workspace_arrange E (Some i) w (set_to LAYOUT_TILE)
                         else if mode = ''monocle'' then kum_workspace_arrange E (Some i) w (set_to LAYOUT_MONOCLE)
                         else Some (set_to LAYOUT_FLOATING));
                  ipc_reply c reply_ok s1 })
      else if cmd = ''quit'' then map_option (emit (System DisplayTerminate)) (ipc_reply c reply_ok s)
      else if cmd = ''reload'' then do { s1 \<leftarrow> kum_server_reload_config E s; ipc_reply c reply_ok s1 }
      else ipc_reply c (reply_error ''unknown command'') s)"

definition sent :: "msg_action \<Rightarrow> string option" where
  "sent a = (case a of SendRecv m \<Rightarrow> Some m | Subscribe m \<Rightarrow> Some m | _ \<Rightarrow> None)"

definition args_ok :: "string list \<Rightarrow> bool" where
  \<comment> \<open>C strings of one line, numbers that fit an \<open>int\<close>, and no mode longer than the message\<close>
  "args_ok args \<longleftrightarrow> list_all (\<lambda>a. printable_arg a \<and> \<bar>atoi a\<bar> < 2 ^ 31) args \<and>
     (case args of cmd # a # _ \<Rightarrow> cmd = ''layout'' \<longrightarrow> length a < 400 | _ \<Rightarrow> True)"

lemma number_runs:
  assumes "plain_word cmd" and "cmd \<noteq> []" and "length cmd \<le> 63" and "printable_arg cmd" and "\<bar>k\<bar> < 10 ^ 10"
    and "c \<in> set (ipc_clients s)"
  shows "\<exists>l. handle_client_readable E c (Some (snprintf 512 (msg_number cmd ''index'' k))) s = ipc_handle_command E c l s \<and>
     scan_cmd l = cmd \<and> scan_index cmd l = k"
proof -
  let ?l = "cmd_start cmd @ jstr ''index'' @ '':'' @ show_int k @ ''}''"
  have "printable_arg ?l"
    using assms(4) show_int_plain [of k] by (auto simp: printable_arg_def cmd_start_def cstring_jstr) (auto simp: NL_def)
  moreover have "length ?l < 511"
    using length_show_int [OF assms(5)] assms(3) by (simp add: cmd_start_def)
  ultimately have "handle_client_readable E c (Some (snprintf 512 (?l @ [NL]))) s = ipc_handle_command E c ?l s"
    by (intro command_runs assms(6)) (auto simp: cmd_start_def)
  then show ?thesis
    using scan_cmd_start [OF assms(1-3)] scan_index_number [OF assms(1)]
    by (intro exI [of _ ?l]) (simp add: msg_number_def)
qed

lemma text_runs:
  assumes "plain_word cmd" and "cmd \<noteq> []" and "length cmd \<le> 63" and "printable_arg cmd" and "plain_word key"
    and "printable_arg key" and "length key < 10" and "printable_arg v" and "length v < 400" and "c \<in> set (ipc_clients s)"
  shows "\<exists>l. handle_client_readable E c (Some (snprintf 512 (msg_text cmd key v))) s = ipc_handle_command E c l s \<and>
     scan_cmd l = cmd \<and> (\<forall>n. scan_arg cmd key n l = take n (takeWhile (\<lambda>x. x \<noteq> QUOTE) v))"
proof -
  let ?l = "cmd_start cmd @ jstr key @ '':'' @ jstr v @ ''}''"
  have "printable_arg ?l"
    using assms(4,6,8) by (auto simp: printable_arg_def cmd_start_def cstring_jstr) (auto simp: NL_def)
  moreover have "length ?l < 511" using assms(3,7,9) by (simp add: cmd_start_def)
  ultimately have "handle_client_readable E c (Some (snprintf 512 (?l @ [NL]))) s = ipc_handle_command E c ?l s"
    by (intro command_runs assms(10)) (auto simp: cmd_start_def)
  then show ?thesis
    using scan_cmd_start [OF assms(1-3)] scan_arg_text [OF assms(1,5)]
    by (intro exI [of _ ?l]) (simp add: msg_text_def)
qed

lemma simple_runs:
  assumes "plain_word cmd" and "cmd \<noteq> []" and "length cmd \<le> 63" and "printable_arg cmd" and "c \<in> set (ipc_clients s)"
  shows "\<exists>l. handle_client_readable E c (Some (snprintf 512 (msg_simple cmd))) s = ipc_handle_command E c l s \<and> scan_cmd l = cmd"
proof -
  let ?l = "''{'' @ jstr ''cmd'' @ '':'' @ jstr cmd @ ''}''"
  have "printable_arg ?l"
    using assms(4) by (auto simp: printable_arg_def cstring_jstr) (auto simp: NL_def)
  then have "handle_client_readable E c (Some (snprintf 512 (?l @ [NL]))) s = ipc_handle_command E c ?l s"
    using assms(3) by (intro command_runs assms(5)) auto
  then show ?thesis using simple_scan [OF assms(1-3)] by (intro exI [of _ ?l]) (simp add: msg_simple_def)
qed

section \<open>Properties\<close>

lemma plain_words [simp]:
  "plain_word ''workspace''" "plain_word ''move_to''" "plain_word ''close''" "plain_word ''layout''" "plain_word ''launch''"
  "plain_word ''quit''" "plain_word ''reload''" "plain_word ''subscribe''" "plain_word ''exec''" "plain_word ''mode''"
  by (simp_all add: plain_word_simps isspace_def byte_def QUOTE_def)

lemma printable_words [simp]:
  "printable_arg ''workspace''" "printable_arg ''move_to''" "printable_arg ''close''" "printable_arg ''layout''" "printable_arg ''launch''"
  "printable_arg ''quit''" "printable_arg ''reload''" "printable_arg ''subscribe''" "printable_arg ''exec''" "printable_arg ''mode''"
  by (simp_all add: printable_arg_def NL_def)

lemma reaction_number:
  assumes "args_ok (cmd # a # as)" and "c \<in> set (ipc_clients s)" and "cmd = ''workspace'' \<or> cmd = ''move-to''"
    and "sent (kumde_msg (cmd # a # as)) = Some m"
  shows "handle_client_readable E c (Some m) s = reaction E c (cmd # a # as) s"
proof -
  have k: "\<bar>atoi a - 1\<bar> < 10 ^ 10" using assms(1) by (auto simp: args_ok_def)
  show ?thesis
  proof (cases "cmd = ''workspace''")
    case True
    then have m: "m = snprintf 512 (msg_number ''workspace'' ''index'' (atoi a - 1))"
      using assms(4) by (simp add: kumde_msg_def sent_def)
    from number_runs [OF _ _ _ _ k assms(2), of "''workspace''" E] obtain l where
      "handle_client_readable E c (Some m) s = ipc_handle_command E c l s" "scan_cmd l = ''workspace''" "scan_index ''workspace'' l = atoi a - 1"
      unfolding m by auto
    then show ?thesis
      using True assms(2) by (simp add: ipc_handle_command_def cmd_workspace_def reaction_def KUM_WORKSPACE_COUNT_def)
  next
    case False
    then have f: "cmd = ''move-to''" using assms(3) by simp
    then have m: "m = snprintf 512 (msg_number ''move_to'' ''index'' (atoi a - 1))"
      using assms(4) by (simp add: kumde_msg_def sent_def)
    from number_runs [OF _ _ _ _ k assms(2), of "''move_to''" E] obtain l where
      "handle_client_readable E c (Some m) s = ipc_handle_command E c l s" "scan_cmd l = ''move_to''" "scan_index ''move_to'' l = atoi a - 1"
      unfolding m by auto
    then show ?thesis
      using f assms(2) by (simp add: ipc_handle_command_def cmd_move_to_def reaction_def KUM_WORKSPACE_COUNT_def Let_def cong: if_cong option.case_cong)
  qed
qed

lemma reaction_layout:
  assumes "args_ok (''layout'' # a # as)" and "c \<in> set (ipc_clients s)"
    and "sent (kumde_msg (''layout'' # a # as)) = Some m"
  shows "handle_client_readable E c (Some m) s = reaction E c (''layout'' # a # as) s"
proof -
  have m: "m = snprintf 512 (msg_text ''layout'' ''mode'' a)" using assms(3) by (simp add: kumde_msg_def sent_def)
  from text_runs [of "''layout''" "''mode''" a c s E] assms(1,2) obtain l where
    "handle_client_readable E c (Some m) s = ipc_handle_command E c l s" "scan_cmd l = ''layout''"
    "\<forall>n. scan_arg ''layout'' ''mode'' n l = take n (takeWhile (\<lambda>x. x \<noteq> QUOTE) a)"
    unfolding m by (auto simp: args_ok_def)
  then show ?thesis
    using assms(2) by (simp add: ipc_handle_command_def cmd_layout_def reaction_def Let_def cong: option.case_cong)
qed

lemma reaction_launch:
  assumes "args_ok (''launch'' # as)" and "as \<noteq> []" and "c \<in> set (ipc_clients s)"
    and "sent (kumde_msg (''launch'' # as)) = Some m"
  shows "handle_client_readable E c (Some m) s = reaction E c (''launch'' # as) s"
proof -
  let ?v = "join_words False as []"
  have m: "m = snprintf 512 (msg_text ''launch'' ''exec'' ?v)" using assms(2,4) by (simp add: kumde_msg_def sent_def)
  have v: "printable_arg ?v" "length ?v < 400"
    using assms(1) join_words_printable [of as] join_words_bound [of "[]" False as] by (auto simp: args_ok_def list_all_iff)
  from text_runs [of "''launch''" "''exec''" ?v c s E] v assms(3) obtain l where
    "handle_client_readable E c (Some m) s = ipc_handle_command E c l s" "scan_cmd l = ''launch''"
    "\<forall>n. scan_arg ''launch'' ''exec'' n l = take n (takeWhile (\<lambda>x. x \<noteq> QUOTE) ?v)"
    unfolding m by auto
  then show ?thesis
    using assms(3) by (simp add: ipc_handle_command_def cmd_launch_def reaction_def Let_def)
qed

lemma reaction_simple:
  assumes "c \<in> set (ipc_clients s)" and "cmd \<in> {''close'', ''quit'', ''reload'', ''subscribe''}"
    and "sent (kumde_msg (cmd # as)) = Some m"
  shows "handle_client_readable E c (Some m) s = reaction E c (cmd # as) s"
proof -
  have cmd: "cmd \<noteq> [] \<and> length cmd \<le> 63" "plain_word cmd" "printable_arg cmd" using assms(2) by auto
  have "snprintf 512 (msg_simple ''subscribe'') = msg_simple ''subscribe''"
    by (simp add: snprintf_fits msg_simple_def)
  then have m: "m = snprintf 512 (msg_simple cmd)" using assms(2,3) by (auto simp: kumde_msg_def sent_def)
  from simple_runs [of cmd c s E] cmd assms(1) obtain l where
    "handle_client_readable E c (Some m) s = ipc_handle_command E c l s" "scan_cmd l = cmd"
    unfolding m by auto
  then show ?thesis using assms(1,2) by (auto simp: ipc_handle_command_def reaction_def)
qed


text \<open>A command with quotes in it: the client is connected, and only \<open>echo\<close> reaches the shell.\<close>

definition ex_client :: kum_server where
  "ex_client = ex_server\<lparr>ipc_clients := [7]\<rparr>"

definition ex_args :: "string list" where
  "ex_args = [''launch'', ''echo'', QUOTE # ''hi'' @ [QUOTE]]"

lemma ex_args_ok: "args_ok ex_args" "sent (kumde_msg ex_args) = Some (snprintf 512 (msg_text ''launch'' ''exec'' (join_words False (tl ex_args) [])))"
  by (code_simp, simp add: kumde_msg_def sent_def ex_args_def)


end
