(* ===== verification/Client_Keys.thy ===== *)
theory Client_Keys
  imports Scanf Cfloat
begin

text \<open>
  What the clients of the suite share when they read keys: the text of a key goes through
  a buffer of eight bytes into a byte array that is later read as a C string.
\<close>

text \<open>A byte array read as a C string ends at its first NUL.\<close>

definition c_str :: "string \<Rightarrow> string" where
  "c_str b = takeWhile (\<lambda>c. c \<noteq> CHR 0x00) b"

lemma c_str_no_NUL: "CHR 0x00 \<notin> set (c_str q)"
  unfolding c_str_def using set_takeWhileD by fastforce

lemma c_str_id: "CHR 0x00 \<notin> set q \<Longrightarrow> c_str q = q"
  by (auto simp: c_str_def takeWhile_eq_all_conv)

text \<open>
  \<open>xkb_state_key_get_utf8(state, code, buf, 8)\<close> writes at most seven bytes of the text \<open>u\<close>
  and a NUL, and returns the length of the whole text, which is then copied: \<open>None\<close> when the
  copy reads past the buffer.
\<close>

definition key_bytes :: "string \<Rightarrow> string option" where
  "key_bytes u = (if 8 < length u then None else Some (take (length u) (take 7 u @ [CHR 0x00])))"

lemma key_bytes_length: "key_bytes u = Some b \<Longrightarrow> length b = length u"
  by (auto simp: key_bytes_def split: if_split_asm)

lemma key_bytes_short: "length u \<le> 7 \<Longrightarrow> key_bytes u = Some u"
  by (simp add: key_bytes_def)

end
