(* ===== verification/Kumbar.thy ===== *)
theory Kumbar
  imports Kumde_Msg Client_Keys
begin

text \<open>
  The status bar (\<open>kumbar\<close>): what it draws on every output, the stream of events it reads
  from the compositor's IPC socket, and the clicks it turns into commands. An output is
  named by its Wayland object; the answers of the system (sockets, clock, text extents)
  are in the environment or arguments of the operations.
\<close>

section \<open>State\<close>

definition KUMBAR_HEIGHT :: int where "KUMBAR_HEIGHT = 28"
definition KUMBAR_WS_COUNT :: nat where "KUMBAR_WS_COUNT = 9"
definition KUMBAR_PADDING :: int where "KUMBAR_PADDING = 10"
definition KUMBAR_IPC_BUF :: nat where "KUMBAR_IPC_BUF = 512"
definition IPC_RECONNECT_INTERVAL_S :: int where "IPC_RECONNECT_INTERVAL_S = 3"

datatype bar_draw =
    BarBackground int
  | CellBox int int int int
  | CellLabel string bool rat rat
  | CellDot rat rat
  | IpcDot rat rat
  | BarTitle string rat rat
  | BarClock string rat rat

datatype bar_request =
    BarCreate nat
  | BarFrame nat "bar_draw list"
  | BarLayerDestroy nat
  | BarSend string

record bar_output =
  bo_id :: nat
  bo_name :: string
  bo_width :: int
  bo_scale :: int
  bo_active_ws :: int
  bo_occupied :: "bool list"
  bo_surface :: "nat option"
  bo_layer :: bool
  bo_configured :: bool
  bo_dirty :: bool
  bo_title :: string
  bo_x0 :: "int list"
  bo_x1 :: "int list"

record bar =
  br_outputs :: "bar_output list"
  br_pointer_output :: "nat option"
  br_pointer_x :: rat
  br_connected :: bool          \<comment> \<open>\<open>ipc_fd >= 0\<close>\<close>
  br_last_attempt :: int
  br_ibuf :: string
  br_out :: "bar_request list"

record bar_env =
  b_extents :: "string \<Rightarrow> bool \<Rightarrow> rat \<Rightarrow> rat \<times> rat \<times> rat \<times> rat"   \<comment> \<open>width, height, bearings\<close>
  b_clock :: string
  b_shm :: "int \<Rightarrow> bool"

definition map_outputs :: "(bar_output \<Rightarrow> bar_output) \<Rightarrow> bar \<Rightarrow> bar" where
  "map_outputs f b = b\<lparr>br_outputs := map f (br_outputs b)\<rparr>"

definition upd_bar_output :: "nat \<Rightarrow> (bar_output \<Rightarrow> bar_output) \<Rightarrow> bar \<Rightarrow> bar" where
  "upd_bar_output i f = map_outputs (\<lambda>o'. if bo_id o' = i then f o' else o')"

definition mark_dirty :: "bar \<Rightarrow> bar" where
  "mark_dirty = map_outputs (\<lambda>o'. o'\<lparr>bo_dirty := True\<rparr>)"

definition br_emit :: "bar_request \<Rightarrow> bar \<Rightarrow> bar" where
  "br_emit r b = b\<lparr>br_out := r # br_out b\<rparr>"

section \<open>Drawing\<close>

text \<open>The boxes of the workspaces, from left to right; an empty one for a workspace that is not drawn.\<close>

fun ws_boxes :: "bar_output \<Rightarrow> int \<Rightarrow> nat list \<Rightarrow> (int \<times> int) list" where
  "ws_boxes p x [] = []"
| "ws_boxes p x (i # is) =
     (if int i \<noteq> bo_active_ws p \<and> \<not> bo_occupied p ! i then (0, 0) # ws_boxes p x is
      else (x - 4, x + (KUMBAR_HEIGHT - 10) + 4) # ws_boxes p (x + (KUMBAR_HEIGHT - 10) + 6) is)"

definition draw_cell :: "bar_env \<Rightarrow> bar_output \<Rightarrow> int \<Rightarrow> nat \<Rightarrow> bar_draw list" where
  "draw_cell E p x i =
     (let cell = KUMBAR_HEIGHT - 10; active = (int i = bo_active_ws p);
          label = snprintf 4 (show_int (int i + 1));
          (w, h, xb, yb) = b_extents E label active 12
      in (if active then [CellBox (x - 4) 4 (cell + 8) cell] else []) @
         [CellLabel label active (f64 (f64 (of_int x + f64 (f64 (of_int cell - w) / 2)) - xb))
            (f64 (f64 (f64 (of_int KUMBAR_HEIGHT + h) / 2) - yb))] @
         (if bo_occupied p ! i \<and> \<not> active then [CellDot (of_int x + of_int cell / 2) (of_int KUMBAR_HEIGHT - 45 / 10)] else []))"

fun draw_cells :: "bar_env \<Rightarrow> bar_output \<Rightarrow> int \<Rightarrow> nat list \<Rightarrow> bar_draw list" where
  "draw_cells E p x [] = []"
| "draw_cells E p x (i # is) =
     (if int i \<noteq> bo_active_ws p \<and> \<not> bo_occupied p ! i then draw_cells E p x is
      else draw_cell E p x i @ draw_cells E p (x + (KUMBAR_HEIGHT - 10) + 6) is)"

definition render_title :: "bar_env \<Rightarrow> int \<Rightarrow> string \<Rightarrow> bar_draw list" where
  "render_title E width title =
     (if title = [] then []
      else let (w, h, xb, yb) = b_extents E title False 13 in
        [BarTitle title (f64 (f64 (f64 (of_int width - w) / 2) - xb)) (f64 (f64 (f64 (of_int KUMBAR_HEIGHT + h) / 2) - yb))])"

definition render_clock :: "bar_env \<Rightarrow> int \<Rightarrow> bar_draw list" where
  "render_clock E width =
     (let (w, h, xb, yb) = b_extents E (b_clock E) False 13 in
      [BarClock (b_clock E) (f64 (f64 (f64 (of_int width - w) - xb) - of_int KUMBAR_PADDING))
         (f64 (f64 (f64 (of_int KUMBAR_HEIGHT + h) / 2) - yb))])"

definition render_ipc_status :: "int \<Rightarrow> bool \<Rightarrow> bar_draw list" where
  "render_ipc_status width conn =
     (if conn then [] else [IpcDot (of_int width / 2) (of_int KUMBAR_HEIGHT / 2)])"

definition kumbar_render_output :: "bar_env \<Rightarrow> bar_output \<Rightarrow> bar \<Rightarrow> bar" where
  "kumbar_render_output E p b =
     (if \<not> bo_configured p \<or> bo_width p = 0 \<or> \<not> b_shm E (bo_width p) then b
      else
        let boxes = ws_boxes p KUMBAR_PADDING [0..<KUMBAR_WS_COUNT];
            draws = [BarBackground (bo_width p)] @ draw_cells E p KUMBAR_PADDING [0..<KUMBAR_WS_COUNT] @
              render_ipc_status (bo_width p) (br_connected b) @ render_title E (bo_width p) (bo_title p) @ render_clock E (bo_width p)
        in br_emit (BarFrame (bo_id p) draws)
             (upd_bar_output (bo_id p) (\<lambda>r. r\<lparr>bo_x0 := map fst boxes, bo_x1 := map snd boxes, bo_dirty := False\<rparr>) b))"

section \<open>Events from the compositor\<close>

definition kumbar_ipc_connect :: "bool \<Rightarrow> int \<Rightarrow> bar \<Rightarrow> bar" where
  \<comment> \<open>\<open>ok\<close>: the variable is set and socket and connection succeed\<close>
  "kumbar_ipc_connect ok now b =
     (if br_connected b \<or> \<not> ok then b
      else mark_dirty (b\<lparr>br_connected := True, br_last_attempt := now, br_ibuf := []\<rparr>))"

text \<open>The first output with the name gets the workspace.\<close>

fun set_active_ws :: "string \<Rightarrow> int \<Rightarrow> bar_output list \<Rightarrow> bar_output list" where
  "set_active_ws n k [] = []"
| "set_active_ws n k (p # ps) =
     (if bo_name p = n then p\<lparr>bo_active_ws := k, bo_dirty := True\<rparr> # ps else p # set_active_ws n k ps)"

definition event_start :: "string \<Rightarrow> string" where
  "event_start ev = ''{'' @ jstr ''event'' @ '':'' @ jstr ev"

text \<open>The digits after \<open>"ws":[\<close>, up to the bracket and to nine of them.\<close>

fun scan_digits :: "nat \<Rightarrow> string \<Rightarrow> int list" where
  "scan_digits k [] = []"
| "scan_digits k (c # cs) =
     (if k = 0 \<or> c = CHR '']'' then []
      else if isdigit c then int (digit_val c) # scan_digits (k - 1) cs
      else scan_digits k cs)"

fun strstr :: "string \<Rightarrow> string \<Rightarrow> string option" where
  \<comment> \<open>\<open>strstr(s, t)\<close>, as the rest of \<open>s\<close> behind the occurrence\<close>
  "strstr [] t = (if t = [] then Some [] else None)"
| "strstr (c # cs) t = (if take (length t) (c # cs) = t then Some (drop (length t) (c # cs)) else strstr cs t)"

definition set_occupied :: "int list \<Rightarrow> bar_output \<Rightarrow> bar_output" where
  "set_occupied vals p = p\<lparr>bo_occupied := map (\<lambda>v. v \<noteq> 0) vals @ drop (length vals) (bo_occupied p), bo_dirty := True\<rparr>"

text \<open>What a message makes of the outputs; nothing else of the bar changes.\<close>

definition message_outputs :: "string \<Rightarrow> bar_output list \<Rightarrow> bar_output list" where
  "message_outputs msg ps =
     (let vs = sscanf [CLit (event_start ''workspace'' @ '','' @ jstr ''output'' @ '':'' @ [QUOTE]), CNot 63 QUOTE,
                CLit ([QUOTE] @ '','' @ jstr ''index'' @ '':''), CInt, CLit ''}''] msg
      in if length vs = 2 \<and> 0 \<le> got_int vs 1 (-1) then set_active_ws (got_str vs 0 []) (got_int vs 1 (-1)) ps
         else if strncmp_eq msg (event_start ''window_title'') 25 then
           (let ts = sscanf [CLit (event_start ''window_title'' @ '','' @ jstr ''output'' @ '':'' @ [QUOTE]), CNot 63 QUOTE,
                       CLit ([QUOTE] @ '','' @ jstr ''title'' @ '':'' @ [QUOTE]), CNot 255 QUOTE] msg;
                name = got_str ts 0 []
            in if 1 \<le> length ts then
                 map (\<lambda>p. if name = [] \<or> bo_name p = name
                    then p\<lparr>bo_title := strncpy 255 (got_str ts 1 []), bo_dirty := True\<rparr> else p) ps
               else ps)
         else if strncmp_eq msg (event_start ''occupancy'') 20 then
           (case strstr msg (jstr ''ws'' @ '':['') of
              None \<Rightarrow> ps
            | Some p \<Rightarrow> map (set_occupied (scan_digits KUMBAR_WS_COUNT p)) ps)
         else ps)"

definition handle_ipc_message :: "string \<Rightarrow> bar \<Rightarrow> bar" where
  "handle_ipc_message msg b = b\<lparr>br_outputs := message_outputs msg (br_outputs b)\<rparr>"

text \<open>The complete lines of the buffer, and what is left behind them.\<close>

function (sequential) bar_lines :: "string \<Rightarrow> string list \<times> string" where
  "bar_lines buf =
     (case strchr_split NL (c_str buf) of
        None \<Rightarrow> ([], buf)
      | Some (l, _) \<Rightarrow> (let (ls, rest) = bar_lines (drop (Suc (length l)) buf) in (l # ls, rest)))"
  by pat_completeness auto

lemma split_shorter: "strchr_split NL (c_str buf) = Some (l, r) \<Longrightarrow> length l < length buf"
proof -
  assume "strchr_split NL (c_str buf) = Some (l, r)"
  then have "c_str buf = l @ NL # r" by (auto dest: strchr_split_Some)
  then have "length l < length (c_str buf)" by simp
  also have "\<dots> \<le> length buf" by (simp add: c_str_def length_takeWhile_le)
  finally show ?thesis .
qed

termination bar_lines
  by (relation "measure length") (auto dest: split_shorter)

declare bar_lines.simps [simp del]

text \<open>What \<open>recv\<close> returned: bytes, end of file or an error, or nothing yet.\<close>

datatype received = Bytes string | Closed | Again

definition kumbar_ipc_dispatch :: "bool \<Rightarrow> int \<Rightarrow> received \<Rightarrow> bar \<Rightarrow> bar" where
  "kumbar_ipc_dispatch ok now rc b =
     (if \<not> br_connected b then
        (if IPC_RECONNECT_INTERVAL_S \<le> now - br_last_attempt b
         then kumbar_ipc_connect ok now (b\<lparr>br_last_attempt := now\<rparr>) else b)
      else case rc of
        Again \<Rightarrow> b
      | Closed \<Rightarrow> mark_dirty (b\<lparr>br_connected := False, br_last_attempt := now\<rparr>)
      | Bytes d \<Rightarrow>
          let room = KUMBAR_IPC_BUF - length (br_ibuf b) - 1;
              (ls, rest) = bar_lines (br_ibuf b @ take room (take (KUMBAR_IPC_BUF - 1) d))
          in (fold (\<lambda>l b. if l = [] then b else handle_ipc_message l b) ls b)\<lparr>br_ibuf := rest\<rparr>)"

section \<open>Outputs and pointer\<close>

definition bar_registry_output :: "nat \<Rightarrow> bar \<Rightarrow> bar" where
  "bar_registry_output i b = b\<lparr>br_outputs := wl_insert
     \<lparr>bo_id = i, bo_name = [], bo_width = 0, bo_scale = 1, bo_active_ws = 0, bo_occupied = replicate 9 False, bo_surface = None,
      bo_layer = False, bo_configured = False, bo_dirty = False, bo_title = [], bo_x0 = replicate 9 0, bo_x1 = replicate 9 0\<rparr>
     (br_outputs b)\<rparr>"

text \<open>The surface of an output is created under an address of its own.\<close>

definition setup_layer_surface :: "(nat \<Rightarrow> nat) \<Rightarrow> bar_output \<Rightarrow> bar \<Rightarrow> bar" where
  "setup_layer_surface addr p b =
     br_emit (BarCreate (bo_id p)) (upd_bar_output (bo_id p) (\<lambda>r. r\<lparr>bo_surface := Some (addr (bo_id p)), bo_layer := True\<rparr>) b)"

definition bar_layer_configure :: "nat \<Rightarrow> int \<Rightarrow> bar \<Rightarrow> bar" where
  "bar_layer_configure i w = upd_bar_output i (\<lambda>r. r\<lparr>bo_width := w, bo_configured := True, bo_dirty := True\<rparr>)"

definition bar_layer_closed :: "nat \<Rightarrow> bar \<Rightarrow> bar" where
  "bar_layer_closed i b = br_emit (BarLayerDestroy i) (upd_bar_output i (\<lambda>r. r\<lparr>bo_layer := False\<rparr>) b)"

definition bar_output_name :: "nat \<Rightarrow> string \<Rightarrow> bar \<Rightarrow> bar" where
  "bar_output_name i n = upd_bar_output i (\<lambda>r. r\<lparr>bo_name := strncpy 63 n\<rparr>)"

definition bar_output_mode :: "nat \<Rightarrow> bool \<Rightarrow> int \<Rightarrow> bar \<Rightarrow> bar" where
  "bar_output_mode i current w = upd_bar_output i (\<lambda>r. if current then r\<lparr>bo_width := w\<rparr> else r)"

definition bar_output_scale :: "nat \<Rightarrow> int \<Rightarrow> bar \<Rightarrow> bar" where
  "bar_output_scale i k = upd_bar_output i (\<lambda>r. r\<lparr>bo_scale := k\<rparr>)"

definition bar_ptr_enter :: "nat \<Rightarrow> rat \<Rightarrow> bar \<Rightarrow> bar" where
  "bar_ptr_enter sf x b =
     (case List.find (\<lambda>p. bo_surface p = Some sf) (br_outputs b) of
        None \<Rightarrow> b\<lparr>br_pointer_output := None\<rparr>
      | Some p \<Rightarrow> b\<lparr>br_pointer_output := Some (bo_id p), br_pointer_x := x\<rparr>)"

definition bar_ptr_leave :: "bar \<Rightarrow> bar" where
  "bar_ptr_leave b = b\<lparr>br_pointer_output := None\<rparr>"

definition bar_ptr_motion :: "rat \<Rightarrow> bar \<Rightarrow> bar" where
  "bar_ptr_motion x b = b\<lparr>br_pointer_x := x\<rparr>"

definition box_hit :: "bar_output \<Rightarrow> int \<Rightarrow> nat \<Rightarrow> bool" where
  "box_hit p x i \<longleftrightarrow> \<not> bo_x1 p ! i \<le> bo_x0 p ! i \<and> \<not> (x < bo_x0 p ! i \<or> bo_x1 p ! i \<le> x)"

definition bar_ptr_button :: "bool \<Rightarrow> bar \<Rightarrow> bar" where
  "bar_ptr_button pressed b =
     (if \<not> pressed \<or> \<not> br_connected b then b
      else case Option.bind (br_pointer_output b) (\<lambda>i. List.find (\<lambda>p. bo_id p = i) (br_outputs b)) of
        None \<Rightarrow> b
      | Some p \<Rightarrow>
          (case List.find (box_hit p (trunc (br_pointer_x b))) [0..<KUMBAR_WS_COUNT] of
             None \<Rightarrow> b
           | Some i \<Rightarrow> br_emit (BarSend (snprintf 64 (msg_number ''workspace'' ''index'' (int i)))) b))"

section \<open>The program\<close>

text \<open>The outputs that are there when the program starts get a surface, then the socket is connected.\<close>

definition kumbar_start :: "bar_env \<Rightarrow> (nat \<Rightarrow> nat) \<Rightarrow> bool \<Rightarrow> int \<Rightarrow> bar \<Rightarrow> bar" where
  "kumbar_start E addr ok now b =
     (let b1 = fold (setup_layer_surface addr) (br_outputs b) b; b2 = kumbar_ipc_connect ok now b1
      in fold (kumbar_render_output E) (br_outputs b2) b2)"

text \<open>The end of a turn of the loop: what is dirty is drawn, and everything after a second of silence.\<close>

definition kumbar_redraw :: "bar_env \<Rightarrow> bool \<Rightarrow> bar \<Rightarrow> bar" where
  "kumbar_redraw E silence b =
     (let b1 = fold (\<lambda>p b. if bo_dirty p then kumbar_render_output E p b else b) (br_outputs b) b
      in if silence then fold (kumbar_render_output E) (br_outputs b1) b1 else b1)"

section \<open>The event stream\<close>

lemma bar_lines_none: "NL \<notin> set (c_str buf) \<Longrightarrow> bar_lines buf = ([], buf)"
  by (simp add: bar_lines.simps [of buf] strchr_split_None [THEN iffD2])

lemma c_str_append: "CHR 0x00 \<notin> set a \<Longrightarrow> c_str (a @ b) = a @ c_str b"
  by (induction a) (auto simp: c_str_def)

lemma bar_lines_line:
  assumes "NL \<notin> set l" and "CHR 0x00 \<notin> set l"
  shows "bar_lines (l @ NL # buf) = (l # fst (bar_lines buf), snd (bar_lines buf))"
proof -
  have "c_str (l @ NL # buf) = l @ NL # c_str buf"
    using c_str_append [of "l @ [NL]" buf] assms(2) by (simp add: NL_def)
  then have "strchr_split NL (c_str (l @ NL # buf)) = Some (l, c_str buf)"
    using strchr_split_append [OF assms(1)] by simp
  then show ?thesis by (subst bar_lines.simps) (simp add: case_prod_unfold Let_def)
qed

text \<open>A stream without NULs is cut at its newlines.\<close>

fun cut_lines :: "string \<Rightarrow> string \<Rightarrow> string list \<times> string" where
  "cut_lines acc [] = ([], rev acc)"
| "cut_lines acc (c # cs) =
     (if c = NL then (let (ls, r) = cut_lines [] cs in (rev acc # ls, r)) else cut_lines (c # acc) cs)"

lemma bar_lines_cut:
  "CHR 0x00 \<notin> set cs \<Longrightarrow> CHR 0x00 \<notin> set acc \<Longrightarrow> NL \<notin> set acc \<Longrightarrow> bar_lines (rev acc @ cs) = cut_lines acc cs"
proof (induction acc cs rule: cut_lines.induct)
  case (1 acc)
  then have "c_str (rev acc) = rev acc" by (intro c_str_id) simp
  then show ?case using 1 by (simp add: bar_lines_none)
next
  case (2 acc c cs)
  show ?case
  proof (cases "c = NL")
    case True
    then show ?thesis using 2 bar_lines_line [of "rev acc" cs] by (simp add: case_prod_unfold Let_def)
  next
    case False
    then show ?thesis using 2 by simp
  qed
qed

lemma cut_lines_append:
  "cut_lines acc (xs @ ys) = (fst (cut_lines acc xs) @ fst (cut_lines (rev (snd (cut_lines acc xs))) ys),
     snd (cut_lines (rev (snd (cut_lines acc xs))) ys))"
  by (induction acc xs rule: cut_lines.induct) (auto simp: case_prod_unfold Let_def)

lemma cut_rest: "NL \<notin> set acc \<Longrightarrow> NL \<notin> set (snd (cut_lines acc xs))"
  by (induction acc xs rule: cut_lines.induct) (auto simp: case_prod_unfold Let_def)

lemma cut_rest_chars: "set (snd (cut_lines acc xs)) \<subseteq> set acc \<union> set xs"
  by (induction acc xs rule: cut_lines.induct) (auto simp: case_prod_unfold Let_def)

lemma cut_none: "NL \<notin> set xs \<Longrightarrow> cut_lines acc xs = ([], rev acc @ xs)"
  by (induction acc xs rule: cut_lines.induct) auto

definition handle_lines :: "string list \<Rightarrow> bar \<Rightarrow> bar" where
  "handle_lines ls b = fold (\<lambda>l b. if l = [] then b else handle_ipc_message l b) ls b"

definition chunk_fits :: "bar \<Rightarrow> string \<Rightarrow> bool" where
  "chunk_fits b d \<longleftrightarrow> CHR 0x00 \<notin> set d \<and> length (br_ibuf b) + length d < KUMBAR_IPC_BUF"

lemma map_outputs_fields [simp]:
  "br_ibuf (map_outputs f b) = br_ibuf b" "br_connected (map_outputs f b) = br_connected b"
  "br_outputs (map_outputs f b) = map f (br_outputs b)" "br_pointer_output (map_outputs f b) = br_pointer_output b"
  "map_outputs f (b\<lparr>br_ibuf := r\<rparr>) = (map_outputs f b)\<lparr>br_ibuf := r\<rparr>"
  by (simp_all add: map_outputs_def)

lemma handle_message_ibuf [simp]:
  "br_ibuf (handle_ipc_message m b) = br_ibuf b" "br_connected (handle_ipc_message m b) = br_connected b"
  "br_outputs (handle_ipc_message m b) = message_outputs m (br_outputs b)"
  by (simp_all add: handle_ipc_message_def)

lemma handle_message_commute: "handle_ipc_message m (b\<lparr>br_ibuf := r\<rparr>) = (handle_ipc_message m b)\<lparr>br_ibuf := r\<rparr>"
  by (simp add: handle_ipc_message_def)

lemma handle_lines_fields [simp]:
  "br_ibuf (handle_lines ls b) = br_ibuf b" "br_connected (handle_lines ls b) = br_connected b"
  by (induction ls arbitrary: b) (simp_all add: handle_lines_def)

lemma handle_lines_commute: "handle_lines ls (b\<lparr>br_ibuf := r\<rparr>) = (handle_lines ls b)\<lparr>br_ibuf := r\<rparr>"
  by (induction ls arbitrary: b) (simp_all add: handle_lines_def handle_message_commute)

lemma handle_lines_append: "handle_lines (ls @ ms) b = handle_lines ms (handle_lines ls b)"
  by (simp add: handle_lines_def)

lemma dispatch_fits:
  assumes "br_connected b" and "chunk_fits b d" and "CHR 0x00 \<notin> set (br_ibuf b)"
  shows "kumbar_ipc_dispatch ok now (Bytes d) b =
     (handle_lines (fst (cut_lines [] (br_ibuf b @ d))) b)\<lparr>br_ibuf := snd (cut_lines [] (br_ibuf b @ d))\<rparr>"
proof -
  have "take (KUMBAR_IPC_BUF - length (br_ibuf b) - 1) (take (KUMBAR_IPC_BUF - 1) d) = d"
    using assms(2) by (auto simp: chunk_fits_def KUMBAR_IPC_BUF_def)
  moreover have "bar_lines (br_ibuf b @ d) = cut_lines [] (br_ibuf b @ d)"
    using bar_lines_cut [of "br_ibuf b @ d" "[]"] assms by (simp add: chunk_fits_def)
  ultimately show ?thesis
    using assms(1) by (simp add: kumbar_ipc_dispatch_def handle_lines_def Let_def case_prod_unfold)
qed

text \<open>The chunks as they come, each one fitting behind what the one before left.\<close>

fun chunks_fit :: "string \<Rightarrow> string list \<Rightarrow> bool" where
  "chunks_fit left [] = True"
| "chunks_fit left (d # ds) \<longleftrightarrow>
     CHR 0x00 \<notin> set d \<and> length left + length d < KUMBAR_IPC_BUF \<and> chunks_fit (snd (cut_lines [] (left @ d))) ds"

lemma stream_lines:
  assumes "br_connected b" and "br_ibuf b = []" and "chunks_fit [] ds"
  shows "fold (\<lambda>d. kumbar_ipc_dispatch ok now (Bytes d)) ds b =
     (handle_lines (fst (cut_lines [] (concat ds))) b)\<lparr>br_ibuf := snd (cut_lines [] (concat ds))\<rparr>"
proof -
  have "fold (\<lambda>d. kumbar_ipc_dispatch ok now (Bytes d)) ds b =
     (handle_lines (fst (cut_lines (rev (br_ibuf b)) (concat ds))) b)\<lparr>br_ibuf := snd (cut_lines (rev (br_ibuf b)) (concat ds))\<rparr>"
    if "br_connected b" "chunks_fit (br_ibuf b) ds" "CHR 0x00 \<notin> set (br_ibuf b)" "NL \<notin> set (br_ibuf b)" for b
    using that
  proof (induction ds arbitrary: b)
    case Nil
    then show ?case by (simp add: handle_lines_def)
  next
    case (Cons d ds)
    let ?c = "cut_lines [] (br_ibuf b @ d)"
    let ?b = "(handle_lines (fst ?c) b)\<lparr>br_ibuf := snd ?c\<rparr>"
    have 1: "kumbar_ipc_dispatch ok now (Bytes d) b = ?b"
      by (rule dispatch_fits) (use Cons.prems in \<open>simp_all add: chunk_fits_def\<close>)
    have n: "CHR 0x00 \<notin> set (snd ?c)" "NL \<notin> set (snd ?c)"
      using Cons.prems cut_rest_chars [of "[]" "br_ibuf b @ d"] cut_rest [of "[]" "br_ibuf b @ d"] by auto
    have p: "cut_lines [] (br_ibuf b @ d) = cut_lines (rev (br_ibuf b)) d"
    proof -
      have "cut_lines [] (br_ibuf b) = ([], br_ibuf b)" using Cons.prems(4) cut_none [of "br_ibuf b" "[]"] by simp
      then show ?thesis by (simp add: cut_lines_append)
    qed
    have "fold (\<lambda>d. kumbar_ipc_dispatch ok now (Bytes d)) ds ?b =
        (handle_lines (fst (cut_lines (rev (snd ?c)) (concat ds))) ?b)\<lparr>br_ibuf := snd (cut_lines (rev (snd ?c)) (concat ds))\<rparr>"
      using Cons.IH [of ?b] Cons.prems n by simp
    then show ?case
      by (simp add: 1 handle_lines_commute handle_lines_append p cut_lines_append [of "rev (br_ibuf b)" d "concat ds"])
  qed
  from this [of b] assms show ?thesis by simp
qed


section \<open>The events of the compositor\<close>

lemma workspace_event_scan:
  assumes "n \<noteq> []" and "length n \<le> 63" and "QUOTE \<notin> set n"
  shows "sscanf [CLit (event_start ''workspace'' @ '','' @ jstr ''output'' @ '':'' @ [QUOTE]), CNot 63 QUOTE,
        CLit ([QUOTE] @ '','' @ jstr ''index'' @ '':''), CInt, CLit ''}'']
      (event_start ''workspace'' @ '','' @ jstr ''output'' @ '':'' @ jstr n @ '','' @ jstr ''index'' @ '':'' @ show_int k @ ''}'')
    = [SStr n, SInt k]"
proof -
  let ?p = "event_start ''workspace'' @ '','' @ jstr ''output'' @ '':'' @ [QUOTE]"
  let ?q = "[QUOTE] @ '','' @ jstr ''index'' @ '':''"
  let ?r = "'','' @ jstr ''index'' @ '':'' @ show_int k @ ''}''"
  have sp: "\<forall>c \<in> set ?p. \<not> isspace c" "\<forall>c \<in> set ?q. \<not> isspace c"
    by (simp_all add: event_start_def jstr_def QUOTE_def isspace_def byte_def)
  have a: "match_lit ?p (?p @ n @ QUOTE # ?r) = Some (n @ QUOTE # ?r)" by (rule match_lit_append [OF sp(1)])
  have b: "scan_not 63 QUOTE (n @ QUOTE # ?r) = Some (n, QUOTE # ?r)" using assms by (intro scan_not_append) auto
  have c: "match_lit ?q (?q @ show_int k @ ''}'') = Some (show_int k @ ''}'')" by (rule match_lit_append [OF sp(2)])
  have d: "scan_int (show_int k @ ''}'') = Some (k, ''}'')" by (rule scan_int_show_int) (simp add: isdigit_def byte_def)
  have e: "?p @ n @ QUOTE # ?r = event_start ''workspace'' @ '','' @ jstr ''output'' @ '':'' @ jstr n @ ?r"
    "QUOTE # ?r = ?q @ show_int k @ ''}''" by (simp_all add: jstr_def)
  show ?thesis unfolding e(1) [symmetric] sscanf.simps(2) a option.case sscanf.simps(5) b prod.case unfolding e(2)
    unfolding sscanf.simps(2) c option.case sscanf.simps(3) d prod.case by simp
qed

lemma strstr_append:
  assumes "t \<noteq> []" and "hd t \<notin> set a"
  shows "strstr (a @ t @ r) t = Some r"
  using assms(2)
proof (induction a)
  case Nil
  then show ?case using assms(1) by (cases t) auto
next
  case (Cons c cs)
  then have "take (length t) (c # cs @ t @ r) \<noteq> t" using assms(1) by (cases t) auto
  then show ?case using Cons by simp
qed

definition occupancy_digits :: "(int \<Rightarrow> bool) \<Rightarrow> string" where
  "occupancy_digits occ = concat (map (\<lambda>i. (if i = 0 then [] else '','') @ (if occ i then ''1'' else ''0'')) [0..8])"

lemma upto_0_8: "[0..8::int] = [0, 1, 2, 3, 4, 5, 6, 7, 8]"
  by (simp add: upto.simps)

lemma scan_occupancy:
  "scan_digits 9 (occupancy_digits occ @ '']}'') = map (\<lambda>i. if occ i then 1 else 0) [0..8]"
  by (simp add: occupancy_digits_def upto_0_8 isdigit_def digit_val_def byte_def del: scan_digits.simps(2)
      cong: if_cong) (simp add: isdigit_def digit_val_def byte_def)

lemma occupancy_scan:
  "sscanf [CLit (event_start ''workspace'' @ '','' @ jstr ''output'' @ '':'' @ [QUOTE]), CNot 63 QUOTE,
        CLit ([QUOTE] @ '','' @ jstr ''index'' @ '':''), CInt, CLit ''}''] (event_start ''occupancy'' @ r) = []"
  by (simp add: event_start_def jstr_def QUOTE_def isspace_def byte_def)

lemma title_test_fails: "length m \<noteq> 23 \<Longrightarrow> \<not> strncmp_eq m (event_start ''window_title'') 25"
proof
  assume "length m \<noteq> 23" and "strncmp_eq m (event_start ''window_title'') 25"
  then have "length (take 25 (m @ [CHR 0x00])) = length (take 25 (event_start ''window_title'' @ [CHR 0x00]))"
    by (simp only: strncmp_eq_def)
  then show False using \<open>length m \<noteq> 23\<close> by (simp add: event_start_def jstr_def)
qed

lemma set_active_titles: "map bo_title (set_active_ws n k ps) = map bo_title ps"
  by (induction ps) auto

lemma message_titles: "map bo_title (message_outputs m ps) = map bo_title ps"
proof -
  have o: "map bo_title (map (set_occupied v) ps) = map bo_title ps" for v by (simp add: set_occupied_def)
  have t: "sscanf [CLit (event_start ''window_title'' @ '','' @ jstr ''output'' @ '':'' @ [QUOTE]), CNot 63 QUOTE,
      CLit ([QUOTE] @ '','' @ jstr ''title'' @ '':'' @ [QUOTE]), CNot 255 QUOTE] m = []"
    if "strncmp_eq m (event_start ''window_title'') 25"
  proof -
    have "length m = 23" using title_test_fails that by blast
    moreover have "take 25 (m @ [CHR 0x00]) = take 25 (event_start ''window_title'' @ [CHR 0x00])"
      using that by (simp only: strncmp_eq_def)
    ultimately have "m @ [CHR 0x00] = event_start ''window_title'' @ [CHR 0x00]" by (simp add: event_start_def jstr_def)
    then have "m = event_start ''window_title''" by simp
    then show ?thesis by (simp add: event_start_def jstr_def QUOTE_def isspace_def byte_def)
  qed
  show ?thesis
    unfolding message_outputs_def Let_def using t
    by (cases "strncmp_eq m (event_start ''window_title'') 25") (simp_all add: set_active_titles o del: sscanf.simps list.map map_map split: option.split)
qed

text \<open>
  The bar never shows a window title. The test for a title event compares two bytes more
  than the text it looks for has, so it fails for every event of the compositor, and no
  sequence of bytes received on the socket changes the title of an output.
\<close>

theorem titles_never_shown:
  "map bo_title (br_outputs (fold (\<lambda>rc. kumbar_ipc_dispatch ok now rc) rcs b)) = map bo_title (br_outputs b)"
proof -
  have d: "map bo_title (br_outputs (mark_dirty c)) = map bo_title (br_outputs c)" for c by (simp add: mark_dirty_def)
  have l: "map bo_title (br_outputs (handle_lines ls c)) = map bo_title (br_outputs c)" for ls c
    by (induction ls arbitrary: c) (simp_all add: handle_lines_def message_titles)
  have "map bo_title (br_outputs (kumbar_ipc_dispatch ok now rc c)) = map bo_title (br_outputs c)" for rc c
    using d l by (auto simp: kumbar_ipc_dispatch_def kumbar_ipc_connect_def handle_lines_def Let_def case_prod_unfold split: received.split)
  then show ?thesis by (induction rcs arbitrary: b) simp_all
qed

lemma workspace_event:
  assumes "n \<noteq> []" and "length n \<le> 63" and "QUOTE \<notin> set n" and "0 \<le> k"
  shows "message_outputs (event_start ''workspace'' @ '','' @ jstr ''output'' @ '':'' @ jstr n @ '','' @ jstr ''index'' @ '':'' @ show_int k @ ''}'') ps
    = set_active_ws n k ps"
  unfolding message_outputs_def Let_def workspace_event_scan [OF assms(1-3)] using assms(4) by simp

lemma occupancy_event:
  "message_outputs (event_start ''occupancy'' @ '','' @ jstr ''ws'' @ '':['' @ occupancy_digits occ @ '']}'') ps
    = map (set_occupied (map (\<lambda>i. if occ i then 1 else 0) [0..8])) ps"
proof -
  let ?m = "event_start ''occupancy'' @ '','' @ jstr ''ws'' @ '':['' @ occupancy_digits occ @ '']}''"
  have 1: "\<not> strncmp_eq ?m (event_start ''window_title'') 25"
    by (rule title_test_fails) (simp add: event_start_def occupancy_digits_def upto_0_8)
  have 2: "strncmp_eq ?m (event_start ''occupancy'') 20"
    by (simp add: strncmp_eq_def event_start_def jstr_def)
  have 3: "strstr ?m (jstr ''ws'' @ '':['') = Some (occupancy_digits occ @ '']}'')"
  proof -
    have "strstr (''{'' @ jstr ''event'' @ '':'' @ jstr ''occupancy'' @ '','' @ jstr ''ws'' @ '':['' @ r) (jstr ''ws'' @ '':['') = Some r" for r
      by (simp add: jstr_def QUOTE_def)
    then show ?thesis by (simp add: event_start_def)
  qed
  show ?thesis
    unfolding message_outputs_def Let_def occupancy_scan 3 using 1 2 by (simp add: KUMBAR_WS_COUNT_def scan_occupancy)
qed

text \<open>One complete line that fits the buffer.\<close>

lemma dispatch_line:
  assumes "br_connected b" and "br_ibuf b = []" and "NL \<notin> set l" and "CHR 0x00 \<notin> set l" and "l \<noteq> []" and "length l < 511"
  shows "kumbar_ipc_dispatch ok now (Bytes (l @ [NL])) b = (handle_ipc_message l b)\<lparr>br_ibuf := []\<rparr>"
proof -
  have "cut_lines [] (l @ NL # []) = ([l], [])"
    using cut_lines_append [of "[]" l "[NL]"] cut_none [OF assms(3), of "[]"] by simp
  then show ?thesis
    using dispatch_fits [OF assms(1), of "l @ [NL]" ok now] assms
    by (simp add: chunk_fits_def KUMBAR_IPC_BUF_def handle_lines_def NL_def)
qed

lemma workspace_msg_line:
  "workspace_msg n k = (event_start ''workspace'' @ '','' @ jstr ''output'' @ '':'' @ jstr n @ '','' @ jstr ''index'' @ '':'' @ show_int k @ ''}'') @ [NL]"
  by (simp add: workspace_msg_def event_start_def)

lemma occupancy_msg_line:
  "occupancy_msg occ = (event_start ''occupancy'' @ '','' @ jstr ''ws'' @ '':['' @ occupancy_digits occ @ '']}'') @ [NL]"
  by (simp add: occupancy_msg_def event_start_def occupancy_digits_def KUM_WORKSPACE_COUNT_def)

lemma occupancy_digits_chars: "set (occupancy_digits occ) \<subseteq> {CHR ''0'', CHR ''1'', CHR '',''}" "length (occupancy_digits occ) = 17"
  by (auto simp: occupancy_digits_def upto_0_8 split: if_split_asm)

text \<open>
  The bar shows what the compositor announces. A workspace event, printed by the
  compositor, sent, received and parsed by the bar, makes the named output show exactly
  that workspace as the active one, and an occupancy event marks on every output exactly
  the workspaces that hold a window.
\<close>

theorem bar_follows_compositor:
  assumes "br_connected b" and "br_ibuf b = []"
    and "n \<noteq> []" and "length n \<le> 30" and "QUOTE \<notin> set n" and "printable_arg n" and "0 \<le> k" and "k < 9"
  shows "br_outputs (kumbar_ipc_dispatch ok now (Bytes (snprintf 80 (workspace_msg n k))) b) = set_active_ws n k (br_outputs b) \<and>
     br_outputs (kumbar_ipc_dispatch ok now (Bytes (build_occupancy_msg v 256)) b)
       = map (set_occupied (map (\<lambda>i. if occupied v i then 1 else 0) [0..8])) (br_outputs b)"
proof
  let ?w = "event_start ''workspace'' @ '','' @ jstr ''output'' @ '':'' @ jstr n @ '','' @ jstr ''index'' @ '':'' @ show_int k @ ''}''"
  have "length (show_int k) \<le> 1" using assms(7,8) by (simp add: show_int_def length_show_nat)
  then have lw: "length ?w < 79" using assms(4) by (simp add: event_start_def)
  have cw: "NL \<notin> set ?w" "CHR 0x00 \<notin> set ?w"
    using assms(6) show_int_plain [of k] by (auto simp: event_start_def printable_arg_def cstring_jstr) (auto simp: NL_def)
  have "snprintf 80 (workspace_msg n k) = ?w @ [NL]" unfolding workspace_msg_line by (rule snprintf_fits) (use lw in simp)
  then show "br_outputs (kumbar_ipc_dispatch ok now (Bytes (snprintf 80 (workspace_msg n k))) b) = set_active_ws n k (br_outputs b)"
    using dispatch_line [OF assms(1,2) cw, of ok now] workspace_event [OF assms(3) _ assms(5,7)] assms(4) lw
    by (simp add: event_start_def)
  let ?o = "event_start ''occupancy'' @ '','' @ jstr ''ws'' @ '':['' @ occupancy_digits (occupied v) @ '']}''"
  have lo: "length ?o < 255" by (simp add: event_start_def occupancy_digits_chars)
  have co: "NL \<notin> set ?o" "CHR 0x00 \<notin> set ?o"
    using occupancy_digits_chars(1) [of "occupied v"] by (auto simp: event_start_def cstring_jstr) (auto simp: NL_def)
  have "build_occupancy_msg v 256 = ?o @ [NL]" unfolding build_occupancy_msg_def occupancy_msg_line
    by (rule snprintf_fits) (use lo in simp)
  then show "br_outputs (kumbar_ipc_dispatch ok now (Bytes (build_occupancy_msg v 256)) b)
      = map (set_occupied (map (\<lambda>i. if occupied v i then 1 else 0) [0..8])) (br_outputs b)"
    using dispatch_line [OF assms(1,2) co, of ok now] occupancy_event lo by (simp add: event_start_def)
qed

section \<open>A long title silences the bar\<close>

text \<open>A NUL in the buffer before any newline: nothing behind it is ever found.\<close>

definition frozen :: "bar \<Rightarrow> bool" where
  "frozen b \<longleftrightarrow> br_connected b \<and> CHR 0x00 \<in> set (br_ibuf b) \<and> NL \<notin> set (c_str (br_ibuf b))"

lemma c_str_stops: "CHR 0x00 \<in> set a \<Longrightarrow> c_str (a @ b) = c_str a"
  by (induction a) (auto simp: c_str_def)

lemma frozen_dispatch:
  assumes "frozen b"
  shows "frozen (kumbar_ipc_dispatch ok now (Bytes d) b) \<and>
     br_outputs (kumbar_ipc_dispatch ok now (Bytes d) b) = br_outputs b"
proof -
  let ?d = "take (KUMBAR_IPC_BUF - length (br_ibuf b) - 1) (take (KUMBAR_IPC_BUF - 1) d)"
  have "bar_lines (br_ibuf b @ ?d) = ([], br_ibuf b @ ?d)"
    using assms by (intro bar_lines_none) (simp add: frozen_def c_str_stops)
  then show ?thesis using assms by (simp add: kumbar_ipc_dispatch_def frozen_def c_str_stops)
qed

lemma silenced:
  assumes "br_connected b" and "br_ibuf b = []" and "length text = 400" and "NL \<notin> set (butlast text)" and "CHR 0x00 \<notin> set text"
  shows "br_outputs (fold (\<lambda>d. kumbar_ipc_dispatch ok now (Bytes d)) ((snprintf 400 text @ [CHR 0x00]) # ds) b) = br_outputs b"
proof -
  let ?m = "snprintf 400 text @ [CHR 0x00]"
  have t: "snprintf 400 text = butlast text" using assms(3) by (simp add: snprintf_def butlast_conv_take)
  have c: "c_str ?m = butlast text"
    unfolding t using assms(5) c_str_append [of "butlast text" "[CHR 0x00]"] by (auto simp: c_str_def dest: in_set_butlastD)
  have r: "take (KUMBAR_IPC_BUF - length (br_ibuf b) - 1) (take (KUMBAR_IPC_BUF - 1) ?m) = ?m"
    using assms(2,3) by (simp add: t KUMBAR_IPC_BUF_def)
  have "bar_lines ?m = ([], ?m)" using assms(4) by (intro bar_lines_none) (simp add: c)
  then have f: "frozen (kumbar_ipc_dispatch ok now (Bytes ?m) b)" "br_outputs (kumbar_ipc_dispatch ok now (Bytes ?m) b) = br_outputs b"
    using assms(1,2,4) r c by (simp_all add: kumbar_ipc_dispatch_def frozen_def)
  have "br_outputs (fold (\<lambda>d. kumbar_ipc_dispatch ok now (Bytes d)) ds c) = br_outputs c" if "frozen c" for c
    using that frozen_dispatch by (induction ds arbitrary: c) auto
  from this [OF f(1)] f(2) show ?thesis by simp
qed

text \<open>
  One long window title silences the bar for good. When the title message has exactly
  the 400 bytes of the compositor's buffer, the compositor broadcasts it without its newline
  and with the NUL that ends the buffer; the bar finds no newline before that NUL, then or
  later, and whatever is sent to it afterwards changes nothing on any output.
\<close>

theorem long_title_silences_bar:
  assumes "br_connected b" and "br_ibuf b = []" and "length (window_title_msg n t) = 400" and "printable_arg n" and "printable_arg t"
  shows "\<exists>m. send_buffer E 400 (window_title_msg n t) v = Some (kum_ipc_broadcast E m v) \<and>
     (\<forall>ds. br_outputs (fold (\<lambda>d. kumbar_ipc_dispatch ok now (Bytes d)) (m # ds) b) = br_outputs b)"
proof -
  let ?x = "window_title_msg n t"
  define u where "u = ''{'' @ jstr ''event'' @ '':'' @ jstr ''window_title'' @ '','' @ jstr ''output'' @ '':'' @ jstr n @
     '','' @ jstr ''title'' @ '':'' @ jstr t @ ''}''"
  have x: "?x = u @ [NL]" by (simp add: window_title_msg_def u_def)
  have "NL \<notin> set u" "CHR 0x00 \<notin> set u"
    using assms(4,5) by (auto simp: u_def printable_arg_def cstring_jstr) (auto simp: NL_def)
  then have "NL \<notin> set (butlast ?x)" "CHR 0x00 \<notin> set ?x" by (simp_all add: x NL_def)
  then show ?thesis
    using silenced [OF assms(1-3)] assms(3) by (intro exI [of _ "snprintf 400 ?x @ [CHR 0x00]"]) (simp add: send_buffer_def)
qed

section \<open>Clicks\<close>

lemma ws_boxes_left: "a \<in> set (ws_boxes p x is) \<Longrightarrow> fst a < snd a \<Longrightarrow> x - 4 \<le> fst a"
proof (induction "is" arbitrary: x)
  case (Cons i "is")
  then show ?case
    using Cons.IH [of x] Cons.IH [of "24 + x"] by (auto simp: KUMBAR_HEIGHT_def split: if_split_asm)
qed simp

lemma ws_boxes_sorted:
  "sorted_wrt (\<lambda>a b. fst a < snd a \<and> fst b < snd b \<longrightarrow> snd a \<le> fst b + 2) (ws_boxes p x is)"
proof (induction "is" arbitrary: x)
  case (Cons i "is")
  then show ?case using ws_boxes_left [of _ p "24 + x" "is"] by (auto simp: KUMBAR_HEIGHT_def)
qed simp

lemma length_ws_boxes [simp]: "length (ws_boxes p x is) = length is"
  by (induction "is" arbitrary: x) auto

lemma find_upt_first: "i < n \<Longrightarrow> P i \<Longrightarrow> \<forall>j < i. \<not> P j \<Longrightarrow> List.find P [0..<n] = Some i"
  by (auto simp: find_Some_iff)

text \<open>
  C27. A click on a workspace number switches to that workspace. The boxes of neighbours
  overlap by two pixels, which belong to the left one; anywhere else in the box of a drawn
  workspace a click sends the command that makes the compositor switch the focused output
  to it and answer.
\<close>

theorem click_switches_workspace:
  assumes "br_connected b" and "br_pointer_output b = Some k" and "List.find (\<lambda>p. bo_id p = k) (br_outputs b) = Some p"
    and "bo_x0 p = map fst (ws_boxes q KUMBAR_PADDING [0..<9])" and "bo_x1 p = map snd (ws_boxes q KUMBAR_PADDING [0..<9])"
    and "i < 9" and "bo_x0 p ! i + 2 \<le> trunc (br_pointer_x b)" and "trunc (br_pointer_x b) < bo_x1 p ! i"
    and "c \<in> set (ipc_clients s)"
  shows "\<exists>m. bar_ptr_button True b = br_emit (BarSend m) b \<and>
     handle_client_readable E c (Some m) s =
       do { s1 \<leftarrow> kum_workspace_switch E (kum_output_focused E s) (int i) s; ipc_reply c reply_ok s1 }"
proof -
  let ?x = "trunc (br_pointer_x b)" let ?B = "ws_boxes q KUMBAR_PADDING [0..<9]"
  have n: "bo_x0 p ! j = fst (?B ! j)" "bo_x1 p ! j = snd (?B ! j)" if "j < 9" for j using that assms(4,5) by simp_all
  have hit: "box_hit p ?x i" using assms(7,8) by (simp add: box_hit_def)
  have "\<not> box_hit p ?x j" if "j < i" for j
  proof
    assume h: "box_hit p ?x j"
    then have "fst (?B ! j) < snd (?B ! j)" "?x < snd (?B ! j)" using n [of j] that assms(6) by (auto simp: box_hit_def)
    moreover have "fst (?B ! i) < snd (?B ! i)" using n [of i] assms(6,7,8) by auto
    moreover have "fst (?B ! j) < snd (?B ! j) \<and> fst (?B ! i) < snd (?B ! i) \<longrightarrow> snd (?B ! j) \<le> fst (?B ! i) + 2"
      using sorted_wrt_nth_less [OF ws_boxes_sorted, of j i q KUMBAR_PADDING "[0..<9]"] that assms(6) by simp
    ultimately show False using assms(7) n [of i] assms(6) by auto
  qed
  then have f: "List.find (box_hit p ?x) [0..<KUMBAR_WS_COUNT] = Some i"
    using hit assms(6) by (intro find_upt_first) (auto simp: KUMBAR_WS_COUNT_def)
  let ?m = "snprintf 64 (msg_number ''workspace'' ''index'' (int i))"
  have "length (show_int (int i)) \<le> 1" using assms(6) by (simp add: show_int_def length_show_nat)
  then have m: "?m = snprintf 512 (msg_number ''workspace'' ''index'' (int i))"
    by (simp add: snprintf_fits msg_number_def cmd_start_def)
  have b: "bar_ptr_button True b = br_emit (BarSend ?m) b" using assms(1-3) f by (simp add: bar_ptr_button_def)
  obtain l where l: "handle_client_readable E c (Some ?m) s = ipc_handle_command E c l s"
      "scan_cmd l = ''workspace''" "scan_index ''workspace'' l = int i"
    using number_runs [of "''workspace''" "int i" c s E] assms(6,9) unfolding m by auto
  have "handle_client_readable E c (Some ?m) s =
      do { s1 \<leftarrow> kum_workspace_switch E (kum_output_focused E s) (int i) s; ipc_reply c reply_ok s1 }"
    using l assms(6,9) by (simp add: ipc_handle_command_def cmd_workspace_def KUM_WORKSPACE_COUNT_def)
  with b show ?thesis by blast
qed

section \<open>Examples\<close>

text \<open>A bar on one output that shows workspaces 1 and 3, with the pointer on the box of the third.\<close>

definition ex_bar_output :: bar_output where
  "ex_bar_output = \<lparr>bo_id = 1, bo_name = ''DP-1'', bo_width = 800, bo_scale = 1, bo_active_ws = 0,
     bo_occupied = [True, False, True] @ replicate 6 False, bo_surface = Some 50, bo_layer = True, bo_configured = True,
     bo_dirty = False, bo_title = [], bo_x0 = replicate 9 0, bo_x1 = replicate 9 0\<rparr>"

definition ex_drawn :: bar_output where
  "ex_drawn = ex_bar_output\<lparr>bo_x0 := map fst (ws_boxes ex_bar_output KUMBAR_PADDING [0..<9]),
     bo_x1 := map snd (ws_boxes ex_bar_output KUMBAR_PADDING [0..<9])\<rparr>"

definition ex_bar :: bar where
  "ex_bar = \<lparr>br_outputs = [ex_drawn], br_pointer_output = Some 1, br_pointer_x = 40, br_connected = True,
     br_last_attempt = 0, br_ibuf = [], br_out = []\<rparr>"

lemma ex_bar_simps:
  "br_connected ex_bar" "br_ibuf ex_bar = []" "br_pointer_output ex_bar = Some 1" "br_pointer_x ex_bar = 40" "br_outputs ex_bar = [ex_drawn]"
  by (simp_all add: ex_bar_def)

lemma ex_drawn_simps:
  "bo_id ex_drawn = 1" "bo_x0 ex_drawn = map fst (ws_boxes ex_bar_output KUMBAR_PADDING [0..<9])"
  "bo_x1 ex_drawn = map snd (ws_boxes ex_bar_output KUMBAR_PADDING [0..<9])"
  by (simp_all add: ex_drawn_def ex_bar_output_def)

lemma ex_box: "bo_x0 ex_drawn ! 2 = 30 \<and> bo_x1 ex_drawn ! 2 = 56"
  by code_simp

lemma click_switches_workspace_witness:
  "\<exists>m. bar_ptr_button True ex_bar = br_emit (BarSend m) ex_bar \<and>
     handle_client_readable ex_env 7 (Some m) ex_client =
       do { s1 \<leftarrow> kum_workspace_switch ex_env (kum_output_focused ex_env ex_client) (int 2) ex_client; ipc_reply 7 reply_ok s1 }"
  by (rule click_switches_workspace [where k = 1 and p = ex_drawn and q = ex_bar_output])
    (use ex_box in \<open>simp_all add: ex_bar_simps ex_drawn_simps(1) ex_client_def\<close>, simp_all add: ex_drawn_simps)


lemma bar_follows_compositor_witness:
  "br_outputs (kumbar_ipc_dispatch True 0 (Bytes (snprintf 80 (workspace_msg ''DP-1'' 4))) ex_bar) = [ex_drawn\<lparr>bo_active_ws := 4, bo_dirty := True\<rparr>]"
proof -
  have n: "bo_name ex_drawn = ''DP-1''" by (simp add: ex_drawn_def ex_bar_output_def)
  have "QUOTE \<notin> set ''DP-1''" "printable_arg ''DP-1''" by (simp_all add: QUOTE_def printable_arg_def NL_def)
  from bar_follows_compositor [OF ex_bar_simps(1,2) _ _ this, of 4 True 0 ex_server] show ?thesis
    by (simp add: ex_bar_simps n)
qed

lemma long_title_silences_bar_witness:
  "\<exists>m. send_buffer ex_env 400 (window_title_msg ''DP-1'' (replicate 348 CHR ''x'')) ex_client = Some (kum_ipc_broadcast ex_env m ex_client) \<and>
     (\<forall>ds. br_outputs (fold (\<lambda>d. kumbar_ipc_dispatch True 0 (Bytes d)) (m # ds) ex_bar) = [ex_drawn])"
proof -
  have l: "length (window_title_msg ''DP-1'' (replicate 348 CHR ''x'')) = 400" by (simp add: window_title_msg_def)
  have "printable_arg ''DP-1''" "printable_arg (replicate 348 CHR ''x'')" by (auto simp: printable_arg_def NL_def)
  from long_title_silences_bar [OF ex_bar_simps(1,2) l this, of ex_env ex_client True 0] show ?thesis
    unfolding ex_bar_simps(5) .
qed

section \<open>Outputs that appear later\<close>

text \<open>An output plugged in while the bar runs has no surface, so the bar never draws on it.\<close>

lemma hotplug_no_bar: "kumbar_render_output E (hd (br_outputs (bar_registry_output i b))) (bar_registry_output i b) = bar_registry_output i b"
  by (simp add: bar_registry_output_def wl_insert_def kumbar_render_output_def)

end
