(* ===== verification/Desktop.thy ===== *)
theory Desktop
  imports Session Kumbar
begin

text \<open>
  The compositor and the bar together: what the compositor tells a client of its socket
  while it runs, and what the bar makes of it.
\<close>

section \<open>What a client is told\<close>

definition sends :: "nat \<Rightarrow> call \<Rightarrow> string list" where
  "sends c k = (case k of System sc \<Rightarrow> (case sc of SocketSend d m \<Rightarrow> if d = c then [m] else [] | _ \<Rightarrow> []) | _ \<Rightarrow> [])"

text \<open>The messages of a trace, the oldest first (a trace has its newest call first).\<close>

definition sent_in :: "nat \<Rightarrow> trace \<Rightarrow> string list" where
  "sent_in c tr = concat (map (sends c) (rev tr))"

lemma sent_in_simps [simp]:
  "sent_in c [] = []" "sent_in c (xs @ ys) = sent_in c ys @ sent_in c xs" "sent_in c (k # ys) = sent_in c ys @ sends c k"
  by (simp_all add: sent_in_def)

text \<open>From \<open>s\<close> to \<open>t\<close> the client \<open>c\<close> is sent exactly \<open>ms\<close> and stays connected.\<close>

definition tells :: "nat \<Rightarrow> kum_server \<Rightarrow> kum_server \<Rightarrow> string list \<Rightarrow> bool" where
  "tells c s t ms \<longleftrightarrow>
     (\<exists>cs. trace t = cs @ trace s \<and> sent_in c cs = ms) \<and>
     (c \<in> set (ipc_clients s) \<and> distinct (ipc_clients s) \<longrightarrow> c \<in> set (ipc_clients t) \<and> distinct (ipc_clients t))"

definition listens :: "nat \<Rightarrow> kum_server \<Rightarrow> bool" where
  "listens c s \<longleftrightarrow> c \<in> set (ipc_clients s) \<and> distinct (ipc_clients s)"

lemma tells_listens: "tells c s t ms \<Longrightarrow> listens c s \<Longrightarrow> listens c t"
  by (simp add: tells_def listens_def)

lemma tells_trans: "tells c s t ms \<Longrightarrow> tells c t u ns \<Longrightarrow> tells c s u (ms @ ns)"
  by (auto simp: tells_def)

lemma tells_nothing: "trace t = cs @ trace s \<Longrightarrow> sent_in c cs = [] \<Longrightarrow> ipc_clients t = ipc_clients s \<Longrightarrow> tells c s t []"
  by (auto simp: tells_def)

lemma tells_same: "trace t = trace s \<Longrightarrow> ipc_clients t = ipc_clients s \<Longrightarrow> tells c s t []"
  by (rule tells_nothing [of _ "[]"]) simp_all

lemma tells_emit: "sends c k = [] \<Longrightarrow> tells c s (emit k s) []"
  by (rule tells_nothing [of _ "[k]"]) simp_all

lemma tells_emits: "concat (map (sends c) ks) = [] \<Longrightarrow> tells c s (emits ks s) []"
  by (rule tells_nothing [of _ "rev ks"]) (simp_all add: sent_in_def)

lemma tells_silent_trans: "tells c s t [] \<Longrightarrow> tells c t u ms \<Longrightarrow> tells c s u ms"
  using tells_trans [of c s t "[]" u ms] by simp

lemma tells_then_silent: "tells c s t ms \<Longrightarrow> tells c t u [] \<Longrightarrow> tells c s u ms"
  using tells_trans [of c s t ms u "[]"] by simp

text \<open>The socket of the client never fails.\<close>

definition reliable :: "env \<Rightarrow> nat \<Rightarrow> bool" where
  "reliable E c \<longleftrightarrow> (\<forall>tr m. send_result E tr c m \<noteq> SendError)"

lemma tells_broadcast:
  assumes "reliable E c" and "listens c s"
  shows "tells c s (kum_ipc_broadcast E m s) [m]"
proof -
  have one: "tells c t (broadcast_one E m d t) (if d = c then [m] else [])" for d t
    using assms(1)
    by (auto simp: broadcast_one_def ipc_client_destroy_def tells_def sends_def reliable_def Let_def)
  have f: "tells c t (fold (broadcast_one E m) ds t) (if c \<in> set ds then [m] else [])" if "distinct ds" for ds t
    using that
  proof (induction ds arbitrary: t)
    case Nil
    then show ?case by (simp add: tells_same)
  next
    case (Cons d ds)
    have "tells c (broadcast_one E m d t) (fold (broadcast_one E m) ds (broadcast_one E m d t)) (if c \<in> set ds then [m] else [])"
      using Cons by simp
    from tells_trans [OF one this] Cons.prems show ?case by (auto split: if_split_asm)
  qed
  from f [of "ipc_clients s" s] assms(2) show ?thesis by (simp add: kum_ipc_broadcast_def listens_def)
qed

section \<open>What focusing tells\<close>

lemma border_position_silent: "border_position rs w h bw = Some cs \<Longrightarrow> concat (map (sends c) cs) = []"
  by (cases "(rs, w, h, bw)" rule: border_position.cases) (auto simp: sends_def)

lemma border_color_silent: "concat (map (sends c) (border_color rs cf foc t)) = []"
  by (simp add: border_color_def sends_def Let_def o_def)

lemma border_paint_tells: "border_paint rs w h an foc s = Some t \<Longrightarrow> tells c s t []"
  by (auto simp: border_paint_def border_position_silent border_color_silent Let_def intro!: tells_emits split: option.split_asm)

lemma border_update_tells:
  "kum_border_update E w foc s = Some t \<Longrightarrow> tells c s t []"
  "kum_xwayland_border_update E x foc s = Some t \<Longrightarrow> tells c s t []"
  by (auto simp: kum_border_update_def kum_xwayland_border_update_def border_paint_tells tells_same split: if_split_asm)

lemma deactivate_tells: "deactivate_prev E p s = Some t \<Longrightarrow> tells c s t []"
proof -
  have e: "tells c s (emit (Shell k) s) []" for k by (rule tells_emit) (simp add: sends_def)
  show "deactivate_prev E p s = Some t \<Longrightarrow> tells c s t []"
    by (auto simp: deactivate_prev_def Let_def e intro: tells_silent_trans [OF e] border_update_tells tells_same
      split: option.split_asm if_split_asm)
qed

text \<open>The names of the screens and the titles are short enough for the buffers.\<close>

definition short_title :: "string option \<Rightarrow> bool" where
  "short_title t \<longleftrightarrow> length (json_body 350 (title_text t)) \<le> 300"

definition screen_name :: "string \<Rightarrow> bool" where
  "screen_name n \<longleftrightarrow> n \<noteq> [] \<and> length n \<le> 30 \<and> QUOTE \<notin> set n \<and> printable_arg n"

definition desktop_env :: "env \<Rightarrow> nat \<Rightarrow> oid set \<Rightarrow> bool" where
  "desktop_env E c os \<longleftrightarrow> reliable E c \<and> inj_on (out_name E) os \<and> (\<forall>i \<in> os. screen_name (out_name E i)) \<and>
     (\<forall>t. short_title (tl_title E t)) \<and> (\<forall>x. short_title (xw_title E x))"

text \<open>A focus change sends at most one title event, whose text fits.\<close>

definition title_event :: "env \<Rightarrow> string \<Rightarrow> bool" where
  "title_event E m \<longleftrightarrow> (\<exists>i t. screen_name (out_name E i) \<and> short_title t \<and> m = window_title_msg (out_name E i) (json_body 350 (title_text t)))"

lemma title_tells:
  assumes "desktop_env E c (set (outputs s))" and "listens c s" and "short_title tt" and "kum_ipc_broadcast_window_title E w (title_text tt) s = Some t"
  shows "\<exists>ms. tells c s t ms \<and> list_all (title_event E) ms"
proof (cases "List.find (\<lambda>i. active_ws s i = w) (outputs s)")
  case None
  with assms(4) show ?thesis by (auto simp: kum_ipc_broadcast_window_title_def intro: exI [of _ "[]"] tells_same)
next
  case (Some i)
  let ?m = "window_title_msg (out_name E i) (json_body 350 (title_text tt))"
  have "i \<in> set (outputs s)" using Some find_Some_iff_mem by fastforce
  then have n: "screen_name (out_name E i)" using assms(1) by (simp add: desktop_env_def)
  then have "length (out_name E i) \<le> 30" by (simp add: screen_name_def)
  then have "length ?m < 400" using assms(3) by (simp add: window_title_msg_length short_title_def)
  then have "t = kum_ipc_broadcast E ?m s" using assms(4) Some by (simp add: kum_ipc_broadcast_window_title_def send_buffer_def)
  with tells_broadcast [of E c s ?m] assms(1-3) n show ?thesis
    by (intro exI [of _ "[?m]"]) (auto simp: desktop_env_def title_event_def)
qed

lemma notify_enter_tells: "tells c s (notify_enter E sf s) []"
  by (auto simp: notify_enter_def sends_def intro!: tells_emit tells_same split: option.split)

lemma deactivate_opt_tells:
  "(case kf of None \<Rightarrow> Some s | Some p \<Rightarrow> deactivate_prev E p s) = Some t \<Longrightarrow> tells c s t []"
  by (auto simp: deactivate_tells tells_same split: option.split_asm)

text \<open>Silent changes of the record between two states that talk.\<close>

lemma tells_record: "tells c s t ms \<Longrightarrow> trace u = cs @ trace t \<Longrightarrow> sent_in c cs = [] \<Longrightarrow> ipc_clients u = ipc_clients t \<Longrightarrow> tells c s u ms"
  using tells_then_silent tells_nothing by blast

lemma focus_toplevel_tells:
  assumes "kum_focus_toplevel E t sf s = Some u" and "desktop_env E c (set (outputs s))" and "listens c s"
  shows "\<exists>ms. tells c s u ms \<and> list_all (title_event E) ms"
proof (cases "locked s \<or> kb_focus E (trace s) = Some sf")
  case True
  with assms(1) have "u = s" by (simp add: focus_toplevel_noop)
  then show ?thesis by (intro exI [of _ "[]"]) (simp add: tells_same)
next
  case False
  then obtain s1 s6 s9 w where
    1: "(case kb_focus E (trace s) of None \<Rightarrow> Some s | Some p \<Rightarrow> deactivate_prev E p s) = Some s1" and
    6: "kum_border_update E t True (upd_tl t (\<lambda>r. r\<lparr>tl_anim :=
                   kum_anim_start (clock_now E) ANIM_FOCUSING 0 1 (cfg_anim_focus_ms (cfg s1)) (tl_anim r)\<rparr>)
         (emit (Shell (XdgSetActivated t True))
            (emit (Scene (RaiseToTop (NToplevel t))) (s1\<lparr>focused_xwayland := None\<rparr>)
               \<lparr>toplevels := wl_insert t (wl_remove t (toplevels s1))\<rparr>))) = Some s6" (is "kum_border_update _ _ _ ?s5 = _") and
    9: "kum_ipc_broadcast_window_title E w (title_text (tl_title E t))
          (upd_tl t (\<lambda>r. r\<lparr>tl_focus_serial := next_focus_serial s6 + 1\<rparr>)
            (s6\<lparr>focused := Some t, next_focus_serial := next_focus_serial s6 + 1\<rparr>)) = Some s9" (is "kum_ipc_broadcast_window_title _ _ _ ?s8 = _") and
    u: "u = notify_enter E sf s9"
    using assms(1) unfolding kum_focus_toplevel_def Let_def
    by (auto elim!: bind_SomeE)
  have "tells c s s1 []" by (rule deactivate_opt_tells [OF 1])
  then have "tells c s ?s5 []"
    by (rule tells_record [where cs = "[Shell (XdgSetActivated t True), Scene (RaiseToTop (NToplevel t))]"])
      (simp_all add: sends_def)
  then have "tells c s s6 []" using border_update_tells(1) [OF 6] tells_silent_trans by blast
  then have 8: "tells c s ?s8 []" by (rule tells_record [where cs = "[]"]) simp_all
  have "outputs ?s8 = outputs s"
    using quiet_fields(1) [OF deactivate_opt_quiet [OF 1]] quiet_fields(1) [OF border_update_quiet [OF 6]] by simp
  then obtain ms where ms: "tells c ?s8 s9 ms" "list_all (title_event E) ms"
    using title_tells [OF _ _ _ 9, of c] tells_listens [OF 8 assms(3)] assms(2) by (auto simp: desktop_env_def)
  have "tells c s u ms" unfolding u
    using tells_then_silent [OF tells_silent_trans [OF 8 ms(1)] notify_enter_tells] .
  with ms(2) show ?thesis by blast
qed

lemma focus_xwayland_tells:
  assumes "kum_focus_xwayland_surface E x s = Some u" and "desktop_env E c (set (outputs s))" and "listens c s"
  shows "\<exists>ms. tells c s u ms \<and> list_all (title_event E) ms"
proof (cases "locked s \<or> kb_focus E (trace s) = xw_surface E x")
  case True
  with assms(1) have "u = s" by (simp add: focus_xwayland_noop)
  then show ?thesis by (intro exI [of _ "[]"]) (simp add: tells_same)
next
  case False
  then obtain s1 s5 s6 where
    1: "(case kb_focus E (trace s) of None \<Rightarrow> Some s | Some p \<Rightarrow> deactivate_prev E p s) = Some s1" and
    5: "kum_xwayland_border_update E x True (emits [Scene (RaiseToTop (NXwayland x)), Shell (XwActivate x True)]
          (upd_xs x (\<lambda>r. r\<lparr>xs_focus_serial := next_focus_serial s1 + 1\<rparr>)
            (s1\<lparr>focused := None, focused_xwayland := Some x, next_focus_serial := next_focus_serial s1 + 1\<rparr>))) = Some s5" (is "kum_xwayland_border_update _ _ _ ?s4 = _") and
    6: "kum_ipc_broadcast_window_title E (xws_of s5 x) (title_text (xw_title E x)) s5 = Some s6" and
    l: "(case xw_surface E x of None \<Rightarrow> (if seat_keyboard E (trace s6) = None then Some s6 else None)
         | Some sf \<Rightarrow> Some (notify_enter E sf s6)) = Some u"
    using assms(1) unfolding kum_focus_xwayland_surface_def Let_def
    by (simp del: option.case_distrib split del: option.splits) (elim bind_SomeE, simp)
  from l have u: "u = s6 \<or> (\<exists>sf. u = notify_enter E sf s6)" by (auto split: option.split_asm if_split_asm)
  have "tells c s s1 []" by (rule deactivate_opt_tells [OF 1])
  then have "tells c s ?s4 []"
    by (rule tells_record [where cs = "[Shell (XwActivate x True), Scene (RaiseToTop (NXwayland x))]"])
      (simp_all add: sends_def)
  then have s5: "tells c s s5 []" using border_update_tells(2) [OF 5] tells_silent_trans by blast
  have "outputs s5 = outputs s"
    using quiet_fields(1) [OF deactivate_opt_quiet [OF 1]] quiet_fields(1) [OF xborder_update_quiet [OF 5]] by simp
  then obtain ms where ms: "tells c s5 s6 ms" "list_all (title_event E) ms"
    using title_tells [OF _ _ _ 6, of c] tells_listens [OF s5 assms(3)] assms(2) by (auto simp: desktop_env_def)
  have "tells c s s6 ms" using tells_silent_trans [OF s5 ms(1)] .
  with u notify_enter_tells have "tells c s u ms" using tells_then_silent by blast
  with ms(2) show ?thesis by blast
qed

lemma focus_first_tells:
  assumes "focus_first E w s = Some u" and "desktop_env E c (set (outputs s))" and "listens c s"
  shows "\<exists>ms. tells c s u ms \<and> list_all (title_event E) ms"
proof (cases "List.find (tl_mapped E) (ws_toplevels (workspaces s w))")
  case (Some t)
  with assms(1) focus_toplevel_tells [OF _ assms(2,3)] show ?thesis by (auto simp: focus_first_def)
next
  case None
  with assms(1) obtain r where r: "(case r of None \<Rightarrow> Some s | Some x \<Rightarrow> kum_focus_xwayland_surface E x s) = Some u"
    by (auto simp: focus_first_def elim: bind_SomeE)
  show ?thesis
  proof (cases r)
    case None
    with r have "tells c s u []" by (simp add: tells_same)
    then show ?thesis by (intro exI [of _ "[]"]) simp
  next
    case (Some x)
    with r focus_xwayland_tells [OF _ assms(2,3)] show ?thesis by simp
  qed
qed

section \<open>What a switch tells\<close>

definition screen_event :: "env \<Rightarrow> oid \<Rightarrow> int \<Rightarrow> string" where
  "screen_event E i k = snprintf 80 (workspace_msg (out_name E i) k)"

lemma broadcast_workspace_tells:
  "reliable E c \<Longrightarrow> listens c s \<Longrightarrow> tells c s (ipc_broadcast_workspace E i k s) [screen_event E i k]"
  by (simp add: ipc_broadcast_workspace_def screen_event_def tells_broadcast)

lemma translate_tells: "tells c s (workspace_translate E w dx dy s) []"
proof -
  have "tells c t (fold (translate_node E dx dy) ns t) []" for ns t
  proof (induction ns arbitrary: t)
    case (Cons n ns)
    have "tells c t (translate_node E dx dy n t) []"
      by (auto simp: translate_node_def case_prod_unfold Let_def sends_def intro: tells_emit)
    from tells_silent_trans [OF this Cons] show ?case by simp
  qed (simp add: tells_same)
  then have "tells c s (if dx = 0 \<and> dy = 0 then s else fold (translate_node E dx dy) ns s) []" for ns
    by (simp add: tells_same)
  then show ?thesis unfolding workspace_translate_def by blast
qed

definition swap_events :: "env \<Rightarrow> oid \<Rightarrow> int \<Rightarrow> kum_server \<Rightarrow> string list" where
  "swap_events E i index s =
     (case List.find (\<lambda>j. j \<noteq> i \<and> active_ws s j = index) (outputs s) of
        Some j \<Rightarrow> [screen_event E j (active_ws s i)] | None \<Rightarrow> [])"

lemma swap_or_hide_tells:
  assumes "reliable E c" and "listens c s"
  shows "tells c s (swap_or_hide E i (active_ws s i) index s) (swap_events E i index s)"
proof (cases "List.find (\<lambda>j. j \<noteq> i \<and> active_ws s j = index) (outputs s)")
  case None
  then show ?thesis by (simp add: swap_or_hide_def swap_events_def tells_emit sends_def)
next
  case (Some j)
  let ?prev = "active_ws s i"
  let ?s2 = "emit (Scene (SetEnabled (NWorkspace ?prev) True)) (upd_output j (\<lambda>r. r\<lparr>previous_workspace := index, active_workspace := ?prev\<rparr>) s)"
  have "tells c s ?s2 []"
    by (rule tells_nothing [of _ "[Scene (SetEnabled (NWorkspace ?prev) True)]"]) (simp_all add: upd_output_def sends_def)
  then have t: "tells c s (workspace_translate E w dx dy (workspace_translate E w' dx' dy' ?s2)) []" for w dx dy w' dx' dy'
    using tells_silent_trans translate_tells by blast
  show ?thesis
    using tells_silent_trans [OF t broadcast_workspace_tells [OF assms(1) tells_listens [OF t assms(2)]]] Some
    by (simp add: swap_or_hide_def swap_events_def Let_def)
qed

lemma before_focus_tells:
  assumes "reliable E c" and "listens c s"
  shows "tells c s (before_focus E i index s) (swap_events E i index s)"
proof -
  let ?prev = "active_ws s i"
  let ?s0 = "swap_or_hide E i ?prev index s"
  let ?s1 = "show_workspace i ?prev index ?s0"
  have 1: "tells c ?s0 ?s1 []"
    by (rule tells_nothing [of _ "[Scene (SetEnabled (NWorkspace index) True)]"]) (simp_all add: show_workspace_def upd_output_def sends_def)
  have 2: "tells c t (unfocus_toplevel_on w t) []" for t w
    by (cases "unfocus_toplevel_on w t = t")
      (auto simp: tells_same unfocus_toplevel_on_def sends_def split: option.split_asm if_split_asm
        intro!: tells_nothing [of _ "[Seat KeyboardClear]"])
  have 3: "tells c t (unfocus_xwayland_on w t) []" for t w
    by (cases "unfocus_xwayland_on w t = t")
      (auto simp: tells_same unfocus_xwayland_on_def sends_def split: option.split_asm if_split_asm
        intro!: tells_nothing [of _ "[Seat KeyboardClear]"])
  have "tells c ?s0 (before_focus E i index s) []"
    unfolding before_focus_def Let_def using 1 2 3 tells_silent_trans by blast
  with swap_or_hide_tells [OF assms] show ?thesis using tells_then_silent by blast
qed

lemma switch_tells:
  assumes "kum_workspace_switch E (Some i) index s = Some t" and "shown_ok s" and "i \<in> set (outputs s)"
    and "ws_ok index" and "active_ws s i \<noteq> index" and "desktop_env E c (set (outputs s))" and "listens c s"
  shows "\<exists>ms. tells c s t (swap_events E i index s @ ms @ [screen_event E i index]) \<and> list_all (title_event E) ms"
proof -
  let ?u = "before_focus E i index s"
  have r: "reliable E c" using assms(6) by (simp add: desktop_env_def)
  obtain s3 where 3: "focus_first E index ?u = Some s3" and t: "t = ipc_broadcast_workspace E i index s3"
    using assms(1) unfolding switch_unfold [OF assms(4,5)] by (auto elim!: bind_SomeE)
  note u = before_focus_tells [OF r assms(7), of i index]
  have "outputs ?u = outputs s" using before_focus_effect [OF assms(2-5) refl, of E] by simp
  then obtain ms where ms: "tells c ?u s3 ms" "list_all (title_event E) ms"
    using focus_first_tells [OF 3 _ tells_listens [OF u assms(7)]] assms(6) by auto
  note v = tells_trans [OF u ms(1)]
  from tells_trans [OF v broadcast_workspace_tells [OF r tells_listens [OF v assms(7)], of i index]] ms(2) t
  show ?thesis by auto
qed

section \<open>What the bar makes of it\<close>

text \<open>The messages of the compositor are lines.\<close>

definition line_of :: "string \<Rightarrow> bool" where
  "line_of m \<longleftrightarrow> m \<noteq> [] \<and> m = butlast m @ [NL] \<and> NL \<notin> set (butlast m) \<and> CHR 0x00 \<notin> set (butlast m) \<and> butlast m \<noteq> []"

definition bar_told :: "string list \<Rightarrow> bar_output list \<Rightarrow> bar_output list" where
  "bar_told ms ps = fold (\<lambda>m. message_outputs (butlast m)) ms ps"

lemma bar_told_simps [simp]:
  "bar_told [] ps = ps" "bar_told (m # ms) ps = bar_told ms (message_outputs (butlast m) ps)"
  by (simp_all add: bar_told_def)

lemma cut_messages: "list_all line_of ms \<Longrightarrow> cut_lines [] (concat ms) = (map butlast ms, [])"
proof (induction ms)
  case (Cons m ms)
  then obtain l where m: "m = l @ [NL]" "NL \<notin> set l" by (auto simp: line_of_def)
  have "cut_lines [] (l @ NL # concat ms) = (l # fst (cut_lines [] (concat ms)), snd (cut_lines [] (concat ms)))"
    unfolding cut_lines_append using cut_none [OF m(2), of "[]"] by (simp add: case_prod_unfold Let_def)
  then show ?case using Cons m(1) by simp
qed simp

lemma handle_lines_told:
  "list_all line_of ms \<Longrightarrow> br_outputs (handle_lines (map butlast ms) b) = bar_told ms (br_outputs b)"
  by (induction ms arbitrary: b) (auto simp: handle_lines_def line_of_def)

lemma bar_hears:
  assumes "br_connected b" and "br_ibuf b = []" and "chunks_fit [] ds" and "concat ds = concat ms" and "list_all line_of ms"
  shows "br_outputs (fold (\<lambda>d. kumbar_ipc_dispatch ok now (Bytes d)) ds b) = bar_told ms (br_outputs b)"
  unfolding stream_lines [OF assms(1-3)] assms(4) cut_messages [OF assms(5)]
  using handle_lines_told [OF assms(5), of b] by simp

text \<open>What the bar shows for a screen.\<close>

definition shows_of :: "bar_output list \<Rightarrow> string \<Rightarrow> int option" where
  "shows_of ps n = map_option bo_active_ws (List.find (\<lambda>p. bo_name p = n) ps)"

lemma shows_set_active:
  "shows_of (set_active_ws n k ps) n' = (if n' = n then map_option (\<lambda>_. k) (shows_of ps n) else shows_of ps n')"
  by (induction ps) (auto simp: shows_of_def)

lemma shows_occupied: "shows_of (map (set_occupied vs) ps) n = shows_of ps n"
  by (induction ps) (auto simp: shows_of_def set_occupied_def)

lemma screen_line:
  assumes "screen_name (out_name E i)" and "ws_ok k"
  shows "line_of (screen_event E i k)"
    and "message_outputs (butlast (screen_event E i k)) ps = set_active_ws (out_name E i) k ps"
    and "snprintf 128 (workspace_msg (out_name E i) k) = screen_event E i k"
proof -
  let ?n = "out_name E i"
  let ?w = "event_start ''workspace'' @ '','' @ jstr ''output'' @ '':'' @ jstr ?n @ '','' @ jstr ''index'' @ '':'' @ show_int k @ ''}''"
  have n: "?n \<noteq> []" "length ?n \<le> 30" "QUOTE \<notin> set ?n" "printable_arg ?n" and k: "0 \<le> k" "k < 9"
    using assms by (simp_all add: screen_name_def ws_ok_def KUM_WORKSPACE_COUNT_def)
  have "length (show_int k) \<le> 1" using k by (simp add: show_int_def length_show_nat)
  then have lw: "length ?w < 79" using n by (simp add: event_start_def)
  have cw: "NL \<notin> set ?w" "CHR 0x00 \<notin> set ?w"
    using n show_int_plain [of k] by (auto simp: event_start_def printable_arg_def cstring_jstr) (auto simp: NL_def)
  have e: "snprintf 80 (workspace_msg ?n k) = ?w @ [NL]" "snprintf 128 (workspace_msg ?n k) = ?w @ [NL]"
    unfolding workspace_msg_line by (rule snprintf_fits, use lw in simp)+
  show "line_of (screen_event E i k)"
    unfolding line_of_def screen_event_def e(1) butlast_snoc using cw by (simp add: event_start_def)
  show "snprintf 128 (workspace_msg ?n k) = screen_event E i k" unfolding screen_event_def e ..
  show "message_outputs (butlast (screen_event E i k)) ps = set_active_ws ?n k ps"
    unfolding screen_event_def e(1) butlast_snoc by (rule workspace_event) (use n k in simp_all)
qed

lemma occupancy_line:
  "line_of (build_occupancy_msg s 256)"
  "shows_of (message_outputs (butlast (build_occupancy_msg s 256)) ps) = shows_of ps"
proof -
  let ?o = "event_start ''occupancy'' @ '','' @ jstr ''ws'' @ '':['' @ occupancy_digits (occupied s) @ '']}''"
  have co: "NL \<notin> set ?o" "CHR 0x00 \<notin> set ?o"
    using occupancy_digits_chars(1) [of "occupied s"] by (auto simp: event_start_def cstring_jstr) (auto simp: NL_def)
  have "length ?o < 255" by (simp add: event_start_def occupancy_digits_chars)
  then have e: "build_occupancy_msg s 256 = ?o @ [NL]" unfolding build_occupancy_msg_def occupancy_msg_line
    by (intro snprintf_fits) simp
  show "line_of (build_occupancy_msg s 256)" unfolding line_of_def e butlast_snoc using co by (simp add: event_start_def)
  show "shows_of (message_outputs (butlast (build_occupancy_msg s 256)) ps) = shows_of ps"
    unfolding e butlast_snoc occupancy_event by (rule ext) (rule shows_occupied)
qed

lemma json_escape_printable: "x \<in> set (json_escape_from sz k cs) \<Longrightarrow> 32 \<le> byte x"
proof (induction sz k cs rule: json_escape_from.induct)
  case (2 sz k c cs)
  have "32 \<le> byte (CHR ''n'')" "32 \<le> byte (CHR ''r'')" "32 \<le> byte (CHR ''t'')" by (simp_all add: byte_def)
  with 2 show ?case by (auto split: if_split_asm)
qed simp

lemma json_body_printable: "x \<in> set (json_body n t) \<Longrightarrow> x \<noteq> NL \<and> x \<noteq> CHR 0x00"
  using json_escape_printable [of x n 0 t]
  by (auto simp: json_body_def kum_json_escape_def byte_def NL_def split: if_split_asm)

lemma title_scan:
  "sscanf [CLit (event_start ''workspace'' @ '','' @ jstr ''output'' @ '':'' @ [QUOTE]), CNot 63 QUOTE,
        CLit ([QUOTE] @ '','' @ jstr ''index'' @ '':''), CInt, CLit ''}''] (event_start ''window_title'' @ r) = []"
  by (simp add: event_start_def jstr_def QUOTE_def isspace_def byte_def)

lemma title_line:
  assumes "title_event E m"
  shows "line_of m" and "message_outputs (butlast m) ps = ps"
proof -
  obtain i t where n: "screen_name (out_name E i)" and m: "m = window_title_msg (out_name E i) (json_body 350 (title_text t))"
    using assms by (auto simp: title_event_def)
  let ?r = "'','' @ jstr ''output'' @ '':'' @ jstr (out_name E i) @ '','' @ jstr ''title'' @ '':'' @ jstr (json_body 350 (title_text t)) @ ''}''"
  let ?l = "event_start ''window_title'' @ ?r"
  have e: "m = ?l @ [NL]" by (simp add: m window_title_msg_def event_start_def)
  have c: "NL \<notin> set ?l" "CHR 0x00 \<notin> set ?l"
    using n json_body_printable [of _ 350 "title_text t"]
    by (auto simp: event_start_def screen_name_def printable_arg_def cstring_jstr) (auto simp: NL_def)
  show "line_of m" unfolding line_of_def e butlast_snoc using c by (simp add: event_start_def)
  have 1: "\<not> strncmp_eq ?l (event_start ''window_title'') 25"
    by (rule title_test_fails) (simp add: event_start_def jstr_def)
  have 2: "\<not> strncmp_eq ?l (event_start ''occupancy'') 20"
    by (simp add: strncmp_eq_def event_start_def jstr_def)
  show "message_outputs (butlast m) ps = ps"
    unfolding message_outputs_def Let_def e butlast_snoc title_scan using 1 2 by simp
qed

lemma titles_told: "list_all (title_event E) ms \<Longrightarrow> list_all line_of ms \<and> bar_told (ms @ ns) ps = bar_told ns ps"
  by (induction ms arbitrary: ps) (auto simp: title_line)

text \<open>The bar shows for every screen the workspace that is on it.\<close>

definition mirrors :: "env \<Rightarrow> kum_server \<Rightarrow> bar_output list \<Rightarrow> bool" where
  "mirrors E s ps \<longleftrightarrow> (\<forall>i \<in> set (outputs s). shows_of ps (out_name E i) = Some (active_ws s i))"

text \<open>One switch: what the client is told brings the bar up to date.\<close>

lemma switch_mirrors:
  assumes "kum_workspace_switch E (Some i) index s = Some t" and "shown_ok s" and "i \<in> set (outputs s)"
    and "desktop_env E c (set (outputs s))" and "listens c s" and "mirrors E s ps"
  shows "\<exists>ms. tells c s t ms \<and> list_all line_of ms \<and> mirrors E t (bar_told ms ps) \<and> shown_ok t \<and> outputs t = outputs s"
proof (cases "ws_ok index \<and> active_ws s i \<noteq> index")
  case False
  then have "t = s" using assms(1) switch_noop [of index "Some i" s E] by auto
  with assms show ?thesis by (intro exI [of _ "[]"]) (simp add: tells_same)
next
  case True
  then have k: "ws_ok index" "active_ws s i \<noteq> index" by auto
  obtain ms where ms: "tells c s t (swap_events E i index s @ ms @ [screen_event E i index])" "list_all (title_event E) ms"
    using switch_tells [OF assms(1-3) k assms(4,5)] by blast
  have o: "outputs_ok s" using assms(2) by (auto dest: shown_parts)
  have names: "inj_on (out_name E) (set (outputs s))" "\<And>j. j \<in> set (outputs s) \<Longrightarrow> screen_name (out_name E j)"
    using assms(4) by (simp_all add: desktop_env_def)
  have wk: "ws_ok (active_ws s i)" using o assms(3) by (simp add: outputs_ok_def)
  note eff = switch_effect [OF assms(2,3) k assms(1)]
  note li = screen_line [OF names(2) [OF assms(3)] k(1)]
  show ?thesis
  proof (cases "List.find (\<lambda>j. j \<noteq> i \<and> active_ws s j = index) (outputs s)")
    case None
    then have nj: "\<forall>j \<in> set (outputs s). j \<noteq> i \<longrightarrow> active_ws s j \<noteq> index" by (auto simp: find_None_iff)
    have told: "bar_told (ms @ [screen_event E i index]) ps = set_active_ws (out_name E i) index ps"
      using titles_told [OF ms(2)] li by simp
    have "mirrors E t (bar_told (ms @ [screen_event E i index]) ps)"
      unfolding told mirrors_def
    proof
      fix j assume "j \<in> set (outputs t)"
      then have j: "j \<in> set (outputs s)" using eff by simp
      then have a: "active_ws t j = switched s i index j" using eff by blast
      show "shows_of (set_active_ws (out_name E i) index ps) (out_name E j) = Some (active_ws t j)"
      proof (cases "j = i")
        case True
        then show ?thesis using assms(3,6) a by (simp add: shows_set_active mirrors_def switched_def)
      next
        case False
        then have "out_name E j \<noteq> out_name E i" using names(1) j assms(3) by (auto dest: inj_onD)
        with False show ?thesis using assms(6) a nj j by (simp add: shows_set_active mirrors_def switched_def)
      qed
    qed
    then show ?thesis using ms titles_told [OF ms(2)] li eff None by (intro exI [of _ "ms @ [screen_event E i index]"]) (simp add: swap_events_def)
  next
    case (Some j)
    then have j: "j \<in> set (outputs s)" "j \<noteq> i" "active_ws s j = index" using find_Some_iff_mem [OF Some] by auto
    note lj = screen_line [OF names(2) [OF j(1)] wk]
    let ?m = "screen_event E j (active_ws s i) # ms @ [screen_event E i index]"
    have told: "bar_told ?m ps = set_active_ws (out_name E i) index (set_active_ws (out_name E j) (active_ws s i) ps)"
      using titles_told [OF ms(2)] li lj by simp
    have nij: "out_name E j \<noteq> out_name E i" using names(1) j assms(3) by (auto dest: inj_onD)
    have "mirrors E t (bar_told ?m ps)"
      unfolding told mirrors_def
    proof
      fix l assume "l \<in> set (outputs t)"
      then have l: "l \<in> set (outputs s)" using eff by simp
      then have a: "active_ws t l = switched s i index l" using eff by blast
      have n: "out_name E l = out_name E x \<longleftrightarrow> l = x" if "x \<in> set (outputs s)" for x
        using names(1) l that by (auto dest: inj_onD)
      have u: "active_ws s l = index \<longleftrightarrow> l = j" using o l j by (auto simp: outputs_ok_def dest: inj_onD)
      show "shows_of (set_active_ws (out_name E i) index (set_active_ws (out_name E j) (active_ws s i) ps)) (out_name E l) = Some (active_ws t l)"
        using a assms(3,6) l j nij n [OF assms(3)] n [OF j(1)] u
        by (auto simp: shows_set_active mirrors_def switched_def)
    qed
    then show ?thesis using ms titles_told [OF ms(2)] li lj eff Some by (intro exI [of _ ?m]) (simp add: swap_events_def)
  qed
qed

text \<open>The events a new client is greeted with.\<close>

lemma reply_all_tells: "reply_all c ms s = Some t \<Longrightarrow> tells c s t ms \<and> outputs t = outputs s \<and> output_at t = output_at s"
proof (induction ms arbitrary: s)
  case Nil
  then show ?case by (simp add: tells_same)
next
  case (Cons m ms)
  then have r: "reply_all c ms (emit (System (SocketSend c m)) s) = Some t"
    by (auto simp: ipc_reply_def split: if_split_asm)
  have "tells c s (emit (System (SocketSend c m)) s) [m]" by (auto simp: tells_def sends_def)
  from tells_trans [OF this] Cons.IH [OF r] show ?case by fastforce
qed

lemma screens_told:
  assumes "inj_on (out_name E) (set os)" and "\<forall>i \<in> set os. screen_name (out_name E i) \<and> ws_ok (f i)" and "distinct os"
  shows "shows_of (bar_told (map (\<lambda>i. screen_event E i (f i)) os) ps) n =
     (case List.find (\<lambda>i. out_name E i = n) os of None \<Rightarrow> shows_of ps n | Some i \<Rightarrow> map_option (\<lambda>_. f i) (shows_of ps n))"
  using assms
proof (induction os arbitrary: ps)
  case (Cons i os)
  have l: "message_outputs (butlast (screen_event E i (f i))) ps = set_active_ws (out_name E i) (f i) ps"
    using screen_line(2) Cons.prems(2) by simp
  show ?case
  proof (cases "out_name E i = n")
    case True
    then have "List.find (\<lambda>i. out_name E i = n) os = None" using Cons.prems(1,3) by (auto simp: find_None_iff) (metis imageI)
    with True Cons l show ?thesis by (simp add: shows_set_active)
  next
    case False
    with Cons l show ?thesis by (simp add: shows_set_active split: option.split)
  qed
qed simp

lemma greeting_mirrors:
  assumes "handle_new_connection E (Some c) s = Some t" and "shown_ok s" and "desktop_env E c (set (outputs s))"
    and "distinct (ipc_clients s)" and "c \<notin> set (ipc_clients s)" and "\<forall>i \<in> set (outputs s). shows_of ps (out_name E i) \<noteq> None"
  shows "\<exists>ms. tells c (s\<lparr>ipc_clients := wl_insert c (ipc_clients s)\<rparr>) t ms \<and> listens c t \<and> list_all line_of ms \<and>
     mirrors E t (bar_told ms ps) \<and> outputs t = outputs s"
proof -
  let ?s = "s\<lparr>ipc_clients := wl_insert c (ipc_clients s)\<rparr>"
  let ?ss = "map (\<lambda>i. screen_event E i (active_ws s i)) (outputs s)"
  have o: "outputs_ok s" using assms(2) by (auto dest: shown_parts)
  have n: "\<forall>i \<in> set (outputs s). screen_name (out_name E i) \<and> ws_ok (active_ws s i)" "inj_on (out_name E) (set (outputs s))"
    using assms(3) o by (simp_all add: desktop_env_def outputs_ok_def)
  have m: "map (\<lambda>i. snprintf 128 (workspace_msg (out_name E i) (active_ws ?s i))) (outputs ?s) = ?ss"
    using screen_line(3) n(1) by (simp add: active_ws_def)
  let ?ms = "?ss @ [build_occupancy_msg ?s 256]"
  have "reply_all c ?ms ?s = Some t"
    using assms(1) unfolding handle_new_connection_def ipc_send_initial_state_def option.case m .
  from reply_all_tells [OF this] have t: "tells c ?s t ?ms" "outputs t = outputs s" "active_ws t = active_ws s"
    by (auto simp: active_ws_def fun_eq_iff)
  have l: "list_all line_of ?ms" using screen_line(1) n(1) occupancy_line(1) by (auto simp: list_all_iff)
  have "bar_told ?ms ps = message_outputs (butlast (build_occupancy_msg ?s 256)) (bar_told ?ss ps)"
    by (simp add: bar_told_def)
  then have v: "shows_of (bar_told ?ms ps) = shows_of (bar_told ?ss ps)" by (simp add: occupancy_line(2))
  have "mirrors E t (bar_told ?ms ps)"
    unfolding mirrors_def v
  proof
    fix i assume "i \<in> set (outputs t)"
    then have i: "i \<in> set (outputs s)" using t by simp
    then have "List.find (\<lambda>j. out_name E j = out_name E i) (outputs s) = Some i"
      using n(2) by (intro find_unique) (auto dest: inj_onD)
    then show "shows_of (bar_told ?ss ps) (out_name E i) = Some (active_ws t i)"
      using screens_told [OF n(2,1), of ps "out_name E i"] o assms(6) i t(3) by (auto simp: outputs_ok_def)
  qed
  moreover have "listens c t" using tells_listens [OF t(1)] assms(4,5) by (simp add: listens_def)
  ultimately show ?thesis using t l by blast
qed

lemma switches_mirror:
  assumes "run (\<lambda>(i, k). kum_workspace_switch E (Some i) k) ks s = Some t" and "\<forall>(i, k) \<in> set ks. i \<in> set (outputs s)"
    and "shown_ok s" and "desktop_env E c (set (outputs s))" and "listens c s" and "mirrors E s ps"
  shows "\<exists>ms. tells c s t ms \<and> list_all line_of ms \<and> mirrors E t (bar_told ms ps)"
  using assms
proof (induction ks arbitrary: s ps)
  case Nil
  then show ?case by (intro exI [of _ "[]"]) (simp add: tells_same)
next
  case (Cons q ks)
  obtain i k where q: "q = (i, k)" by (cases q)
  obtain u where u: "kum_workspace_switch E (Some i) k s = Some u" "run (\<lambda>(i, k). kum_workspace_switch E (Some i) k) ks u = Some t"
    using Cons.prems(1) q by (auto elim: bind_SomeE)
  have i: "i \<in> set (outputs s)" using Cons.prems(2) q by simp
  obtain ms where ms: "tells c s u ms" "list_all line_of ms" "mirrors E u (bar_told ms ps)" "shown_ok u" "outputs u = outputs s"
    using switch_mirrors [OF u(1) Cons.prems(3) i Cons.prems(4-6)] by blast
  obtain ns where ns: "tells c u t ns" "list_all line_of ns" "mirrors E t (bar_told ns (bar_told ms ps))"
    using Cons.IH [OF u(2) _ ms(4) _ tells_listens [OF ms(1) Cons.prems(5)] ms(3)] Cons.prems(2,4) ms(5) by auto
  have "bar_told (ms @ ns) ps = bar_told ns (bar_told ms ps)" by (simp add: bar_told_def)
  with tells_trans [OF ms(1) ns(1)] ms(2) ns(2,3) show ?case by (intro exI [of _ "ms @ ns"]) simp
qed

lemma switches_mirror_outputs:
  assumes "run (\<lambda>(i, k). kum_workspace_switch E (Some i) k) ks s = Some t" and "\<forall>(i, k) \<in> set ks. i \<in> set (outputs s)" and "shown_ok s"
  shows "outputs t = outputs s \<and> shown_ok t"
  using assms
proof (induction ks arbitrary: s)
  case (Cons q ks)
  obtain i k where q: "q = (i, k)" by (cases q)
  obtain u where u: "kum_workspace_switch E (Some i) k s = Some u" "run (\<lambda>(i, k). kum_workspace_switch E (Some i) k) ks u = Some t"
    using Cons.prems(1) q by (auto elim: bind_SomeE)
  have i: "i \<in> set (outputs s)" using Cons.prems(2) q by simp
  have "outputs u = outputs s \<and> shown_ok u"
    using switch_effect [OF Cons.prems(3) i _ _ u(1)] switch_noop [of k "Some i" s E] u(1) Cons.prems(3) by (cases "ws_ok k \<and> active_ws s i \<noteq> k") auto
  with Cons.IH [OF u(2)] Cons.prems(2) show ?case by auto
qed simp


section \<open>An example\<close>

definition ex_two_screens :: bar where
  "ex_two_screens = ex_bar\<lparr>br_outputs := [ex_drawn, ex_drawn\<lparr>bo_id := 2, bo_name := ''DP-2''\<rparr>]\<rparr>"

definition ex_desktop_run :: "kum_server option" where
  "ex_desktop_run = Option.bind (handle_new_connection ex_env (Some 9) ex_server)
     (run (\<lambda>(i, k). kum_workspace_switch ex_env (Some i) k) [(1, 1), (2, 4)])"

lemma ex_desktop_run_told:
  "case ex_desktop_run of None \<Rightarrow> False
   | Some t \<Rightarrow> drop (length (trace t) - 2) (trace t) = trace ex_server \<and>
       chunks_fit [] (sent_in 9 (take (length (trace t) - 2) (trace t)))"
  by code_simp

lemma ex_desktop_env: "desktop_env ex_env 9 (set (outputs ex_server))"
proof -
  have "short_title (Some ''shell'')" "short_title None" by code_simp+
  then show ?thesis
    by (auto simp: desktop_env_def reliable_def ex_env_def screen_name_def printable_arg_def QUOTE_def NL_def)
qed


end
