(* ===== verification/Listeners.thy ===== *)
theory Listeners
  imports Kum_Prelude
begin

text \<open>
  The listeners that tie the compositor's objects to the signals of wlroots. Every object
  links the listener members of its struct into signals when it is created and must unlink
  all of them before it is freed: a listener that stays linked is a pointer to freed memory,
  and unlinking one that is not linked follows a null pointer.
\<close>

section \<open>The listener members and their signals\<close>

text \<open>The signals an object listens to: of its surface, of the object itself, of the input device.\<close>

datatype origin = Surface | Itself | Device

datatype hook = Hook (hk_member: string) (hk_origin: origin) (hk_event: string) (hk_handler: string)

datatype kind =
    K_Toplevel | K_Popup | K_Xwayland | K_Output | K_Keyboard | K_Pointer | K_Layer | K_Active_Lock | K_Lock_Surface

definition toplevel_members :: "string list" where
  "toplevel_members = [''map'', ''unmap'', ''destroy'', ''request_move'', ''request_resize'', ''request_maximize'',
     ''request_fullscreen'', ''set_title'', ''commit'']"

definition popup_members :: "string list" where
  "popup_members = [''commit'', ''destroy'']"

definition xwayland_members :: "string list" where
  "xwayland_members = [''associate'', ''dissociate'', ''map'', ''unmap'', ''commit'', ''destroy'', ''request_move'',
     ''request_resize'', ''request_maximize'', ''request_fullscreen'', ''set_title'']"

definition output_members :: "string list" where
  "output_members = [''frame'', ''request_state'', ''destroy'']"

definition keyboard_members :: "string list" where
  "keyboard_members = [''modifiers'', ''key'', ''destroy'']"

definition pointer_members :: "string list" where
  "pointer_members = [''destroy'']"

definition active_lock_members :: "string list" where
  "active_lock_members = [''new_surface'', ''unlock'', ''destroy'']"

text \<open>What the constructors link, in their order.\<close>

definition toplevel_hooks :: "hook list" where
  "toplevel_hooks =
     [Hook ''map'' Surface ''map'' ''toplevel_map'', Hook ''unmap'' Surface ''unmap'' ''toplevel_unmap'',
      Hook ''commit'' Surface ''commit'' ''toplevel_commit'', Hook ''destroy'' Itself ''destroy'' ''toplevel_destroy'',
      Hook ''request_move'' Itself ''request_move'' ''request_move'',
      Hook ''request_resize'' Itself ''request_resize'' ''request_resize'',
      Hook ''request_maximize'' Itself ''request_maximize'' ''request_maximize'',
      Hook ''request_fullscreen'' Itself ''request_fullscreen'' ''request_fullscreen'',
      Hook ''set_title'' Itself ''set_title'' ''set_title'']"

definition popup_hooks :: "hook list" where
  "popup_hooks = [Hook ''commit'' Surface ''commit'' ''popup_commit'', Hook ''destroy'' Itself ''destroy'' ''popup_destroy'']"

definition xwayland_hooks :: "hook list" where
  "xwayland_hooks =
     [Hook ''associate'' Itself ''associate'' ''xwayland_surface_associate'',
      Hook ''dissociate'' Itself ''dissociate'' ''xwayland_surface_dissociate'',
      Hook ''destroy'' Itself ''destroy'' ''xwayland_surface_destroy'',
      Hook ''request_move'' Itself ''request_move'' ''xwayland_request_move'',
      Hook ''request_resize'' Itself ''request_resize'' ''xwayland_request_resize'',
      Hook ''request_maximize'' Itself ''request_maximize'' ''xwayland_request_maximize'',
      Hook ''request_fullscreen'' Itself ''request_fullscreen'' ''xwayland_request_fullscreen'',
      Hook ''set_title'' Itself ''set_title'' ''xwayland_set_title'']"

text \<open>An X11 window has a surface only while it is associated with one.\<close>

definition xwayland_surface_hooks :: "hook list" where
  "xwayland_surface_hooks =
     [Hook ''map'' Surface ''map'' ''xwayland_surface_map'', Hook ''unmap'' Surface ''unmap'' ''xwayland_surface_unmap'',
      Hook ''commit'' Surface ''commit'' ''xwayland_surface_commit'']"

definition output_hooks :: "hook list" where
  "output_hooks =
     [Hook ''frame'' Itself ''frame'' ''output_frame'', Hook ''request_state'' Itself ''request_state'' ''output_request_state'',
      Hook ''destroy'' Itself ''destroy'' ''output_destroy'']"

definition keyboard_hooks :: "hook list" where
  "keyboard_hooks =
     [Hook ''modifiers'' Itself ''modifiers'' ''keyboard_modifiers'', Hook ''key'' Itself ''key'' ''keyboard_key'',
      Hook ''destroy'' Device ''destroy'' ''keyboard_destroy'']"

definition pointer_hooks :: "hook list" where
  "pointer_hooks = [Hook ''destroy'' Device ''destroy'' ''pointer_destroy'']"

definition layer_hooks :: "hook list" where
  "layer_hooks =
     [Hook ''map'' Surface ''map'' ''layer_map'', Hook ''unmap'' Surface ''unmap'' ''layer_unmap'',
      Hook ''commit'' Surface ''commit'' ''layer_commit'', Hook ''destroy'' Itself ''destroy'' ''layer_destroy'']"

definition active_lock_hooks :: "hook list" where
  "active_lock_hooks =
     [Hook ''new_surface'' Itself ''new_surface'' ''active_lock_new_surface'',
      Hook ''unlock'' Itself ''unlock'' ''active_lock_unlock'', Hook ''destroy'' Itself ''destroy'' ''active_lock_destroy'']"

definition lock_surface_hooks :: "hook list" where
  "lock_surface_hooks = [Hook ''destroy'' Itself ''destroy'' ''lock_surface_destroy'']"

fun hooks_of :: "kind \<Rightarrow> hook list" where
  "hooks_of K_Toplevel = toplevel_hooks"
| "hooks_of K_Popup = popup_hooks"
| "hooks_of K_Xwayland = xwayland_hooks"
| "hooks_of K_Output = output_hooks"
| "hooks_of K_Keyboard = keyboard_hooks"
| "hooks_of K_Pointer = pointer_hooks"
| "hooks_of K_Layer = layer_hooks"
| "hooks_of K_Active_Lock = active_lock_hooks"
| "hooks_of K_Lock_Surface = lock_surface_hooks"

text \<open>What the destructors unlink, in their order.\<close>

definition toplevel_unlinks :: "string list" where
  "toplevel_unlinks = [''map'', ''unmap'', ''commit'', ''destroy'', ''request_move'', ''request_resize'',
     ''request_maximize'', ''request_fullscreen'', ''set_title'']"

definition xwayland_unlinks :: "bool \<Rightarrow> string list" where
  "xwayland_unlinks associated =
     (if associated then [''map'', ''unmap'', ''commit''] else []) @
     [''associate'', ''dissociate'', ''destroy'', ''request_move'', ''request_resize'', ''request_maximize'',
      ''request_fullscreen'', ''set_title'']"

fun unlinks_of :: "kind \<Rightarrow> bool \<Rightarrow> string list" where
  "unlinks_of K_Toplevel _ = toplevel_unlinks"
| "unlinks_of K_Popup _ = [''commit'', ''destroy'']"
| "unlinks_of K_Xwayland associated = xwayland_unlinks associated"
| "unlinks_of K_Output _ = [''frame'', ''request_state'', ''destroy'']"
| "unlinks_of K_Keyboard _ = [''modifiers'', ''key'', ''destroy'']"
| "unlinks_of K_Pointer _ = [''destroy'']"
| "unlinks_of K_Layer _ = [''map'', ''unmap'', ''commit'', ''destroy'']"
| "unlinks_of K_Active_Lock _ = [''new_surface'', ''unlock'', ''destroy'']"
| "unlinks_of K_Lock_Surface _ = [''destroy'']"

section \<open>Objects and signals\<close>

record watched =
  wt_kind :: kind
  wt_hooks :: "hook list"        \<comment> \<open>the listeners that are linked\<close>
  wt_associated :: bool

type_synonym store = "nat \<Rightarrow> watched option"

definition wl_signal_add :: "hook \<Rightarrow> watched \<Rightarrow> watched option" where
  "wl_signal_add h w =
     (if hk_member h \<in> hk_member ` set (wt_hooks w) then None else Some (w\<lparr>wt_hooks := wt_hooks w @ [h]\<rparr>))"

definition wl_unlink :: "string \<Rightarrow> watched \<Rightarrow> watched option" where
  "wl_unlink m w =
     (if m \<notin> hk_member ` set (wt_hooks w) then None
      else Some (w\<lparr>wt_hooks := filter (\<lambda>h. hk_member h \<noteq> m) (wt_hooks w)\<rparr>))"

text \<open>\<open>calloc\<close> and the constructor of the struct.\<close>

definition create_watched :: "kind \<Rightarrow> nat \<Rightarrow> store \<Rightarrow> store option" where
  "create_watched k a st =
     map_option (\<lambda>w. st(a \<mapsto> w)) (run wl_signal_add (hooks_of k) \<lparr>wt_kind = k, wt_hooks = [], wt_associated = False\<rparr>)"

text \<open>The destructor and \<open>free\<close>.\<close>

definition destroy_watched :: "nat \<Rightarrow> watched \<Rightarrow> store \<Rightarrow> store option" where
  "destroy_watched a w st =
     Option.bind (run wl_unlink (unlinks_of (wt_kind w) (wt_associated w)) w)
       (\<lambda>w'. if wt_hooks w' = [] then Some (st(a := None)) else None)"

definition associate_hooks :: "nat \<Rightarrow> watched \<Rightarrow> store \<Rightarrow> store option" where
  "associate_hooks a w st =
     map_option (\<lambda>w'. st(a \<mapsto> w'\<lparr>wt_associated := True\<rparr>)) (run wl_signal_add xwayland_surface_hooks w)"

definition dissociate_hooks :: "nat \<Rightarrow> watched \<Rightarrow> store \<Rightarrow> store option" where
  "dissociate_hooks a w st =
     (if \<not> wt_associated w then Some st
      else map_option (\<lambda>w'. st(a \<mapsto> w'\<lparr>wt_associated := False\<rparr>)) (run wl_unlink [''map'', ''unmap'', ''commit''] w))"

definition destructors :: "string list" where
  "destructors = [''toplevel_destroy'', ''popup_destroy'', ''xwayland_surface_destroy'', ''output_destroy'',
     ''keyboard_destroy'', ''pointer_destroy'', ''layer_destroy'', ''active_lock_destroy'', ''lock_surface_destroy'']"

text \<open>What a handler does to the listeners; the handlers not named here leave them alone.\<close>

definition handle_hooks :: "string \<Rightarrow> nat \<Rightarrow> watched \<Rightarrow> store \<Rightarrow> store option" where
  "handle_hooks f a w st =
     (if f \<in> set destructors then destroy_watched a w st
      else if f = ''xwayland_surface_associate'' then associate_hooks a w st
      else if f = ''xwayland_surface_dissociate'' then dissociate_hooks a w st
      else Some st)"

text \<open>
  wlroots announces an object, or emits a signal of one. A signal calls the handler that is
  linked to it, and no handler when none is.
\<close>

datatype life = Announced kind nat | Emitted nat origin string

definition handler_of :: "watched \<Rightarrow> origin \<Rightarrow> string \<Rightarrow> string option" where
  "handler_of w og ev = map_option hk_handler (List.find (\<lambda>h. hk_origin h = og \<and> hk_event h = ev) (wt_hooks w))"

fun life_step :: "life \<Rightarrow> store \<Rightarrow> store option" where
  "life_step (Announced k a) st = create_watched k a st"
| "life_step (Emitted a og ev) st =
     (case st a of
        None \<Rightarrow> Some st
      | Some w \<Rightarrow> (case handler_of w og ev of None \<Rightarrow> Some st | Some f \<Rightarrow> handle_hooks f a w st))"

section \<open>Machines whose events depend on the state\<close>

fun allowed :: "('s \<Rightarrow> 'e \<Rightarrow> bool) \<Rightarrow> ('e \<Rightarrow> 's \<Rightarrow> 's option) \<Rightarrow> 'e list \<Rightarrow> 's \<Rightarrow> bool" where
  "allowed ok step [] s = True"
| "allowed ok step (e # es) s = (ok s e \<and> (case step e s of None \<Rightarrow> True | Some t \<Rightarrow> allowed ok step es t))"

locale guarded_machine = event_machine +
  fixes ok :: "'s \<Rightarrow> 'e \<Rightarrow> bool"
  assumes progress: "inv s \<Longrightarrow> ok s e \<Longrightarrow> step e s \<noteq> None"
begin

lemma run_guarded: "inv s \<Longrightarrow> allowed ok step es s \<Longrightarrow> \<exists>t. run step es s = Some t \<and> inv t"
proof (induction es arbitrary: s)
  case Nil
  then show ?case by simp
next
  case (Cons e es)
  then obtain t where "step e s = Some t" using progress by fastforce
  with Cons step_inv [of s e t] show ?case by simp
qed

end

section \<open>No listener outlives its object\<close>

text \<open>The listeners an object of its kind has linked.\<close>

definition linked_ok :: "watched \<Rightarrow> bool" where
  "linked_ok w \<longleftrightarrow>
     wt_hooks w = hooks_of (wt_kind w) @ (if wt_associated w then xwayland_surface_hooks else []) \<and>
     (wt_associated w \<longrightarrow> wt_kind w = K_Xwayland)"

definition store_ok :: "store \<Rightarrow> bool" where
  "store_ok st \<longleftrightarrow> (\<forall>a w. st a = Some w \<longrightarrow> linked_ok w)"

text \<open>
  What wlroots guarantees: an announced object gets memory of its own, and an X11 window is
  not given a second surface before the first is taken away.
\<close>

definition life_ok :: "store \<Rightarrow> life \<Rightarrow> bool" where
  "life_ok st e = (case e of
       Announced k a \<Rightarrow> st a = None
     | Emitted a og ev \<Rightarrow> og = Itself \<and> ev = ''associate'' \<longrightarrow> (case st a of None \<Rightarrow> True | Some w \<Rightarrow> \<not> wt_associated w))"

definition as_linked :: "kind \<Rightarrow> bool \<Rightarrow> watched" where
  "as_linked k as = \<lparr>wt_kind = k, wt_hooks = hooks_of k @ (if as then xwayland_surface_hooks else []), wt_associated = as\<rparr>"

lemma linked_plain: "linked_ok w \<longleftrightarrow> (\<exists>k as. w = as_linked k as \<and> (as \<longrightarrow> k = K_Xwayland))"
  by (cases w) (auto simp: linked_ok_def as_linked_def)

lemmas hook_tables = toplevel_hooks_def popup_hooks_def xwayland_hooks_def xwayland_surface_hooks_def output_hooks_def
  keyboard_hooks_def pointer_hooks_def layer_hooks_def active_lock_hooks_def lock_surface_hooks_def

text \<open>The constructors and destructors on their own tables, one evaluation for each kind.\<close>

lemma constructed: "run wl_signal_add (hooks_of k) \<lparr>wt_kind = k, wt_hooks = [], wt_associated = False\<rparr> = Some (as_linked k False)"
  by (cases k; simp only:; code_simp)

lemma destructed:
  "as \<longrightarrow> k = K_Xwayland \<Longrightarrow>
   map_option wt_hooks (run wl_unlink (unlinks_of k as) (as_linked k as)) = Some []"
  by (cases k; cases as; simp only: simp_thms kind.distinct; code_simp)

lemma associated: "map_option (\<lambda>w. w\<lparr>wt_associated := True\<rparr>) (run wl_signal_add xwayland_surface_hooks (as_linked K_Xwayland False)) = Some (as_linked K_Xwayland True)"
  by code_simp

lemma dissociated: "map_option (\<lambda>w. w\<lparr>wt_associated := False\<rparr>) (run wl_unlink [''map'', ''unmap'', ''commit''] (as_linked K_Xwayland True)) = Some (as_linked K_Xwayland False)"
  by code_simp

lemma destroy_plain: "as \<longrightarrow> k = K_Xwayland \<Longrightarrow> destroy_watched a (as_linked k as) st = Some (st(a := None))"
  using destructed [of as k] by (auto simp: destroy_watched_def as_linked_def)

lemma associate_plain: "associate_hooks a (as_linked K_Xwayland False) st = Some (st(a \<mapsto> as_linked K_Xwayland True))"
  using associated by (auto simp: associate_hooks_def)

lemma dissociate_plain:
  "dissociate_hooks a (as_linked k as) st = (if as \<and> k = K_Xwayland then Some (st(a \<mapsto> as_linked k False)) else if as then dissociate_hooks a (as_linked k as) st else Some st)"
  using dissociated by (auto simp: dissociate_hooks_def as_linked_def)

lemma associate_signal:
  "handler_of (as_linked k as) og ev = Some ''xwayland_surface_associate'' \<Longrightarrow> k = K_Xwayland \<and> og = Itself \<and> ev = ''associate''"
  by (cases k; cases as) (simp_all add: handler_of_def as_linked_def hook_tables split: if_split_asm)

lemma associate_twice: "associate_hooks a (as_linked K_Xwayland True) st = None"
proof -
  have "run wl_signal_add xwayland_surface_hooks (as_linked K_Xwayland True) = None" by code_simp
  then show ?thesis by (simp add: associate_hooks_def)
qed

lemma life_step_cases:
  assumes "store_ok st"
  obtains (created) k a where "e = Announced k a" "life_step e st = Some (st(a \<mapsto> as_linked k False))"
  | (destroyed) a og ev where "e = Emitted a og ev" "life_step e st = Some (st(a := None))"
  | (associated) a where "e = Emitted a Itself ''associate''" "st a = Some (as_linked K_Xwayland False)"
      "life_step e st = Some (st(a \<mapsto> as_linked K_Xwayland True))"
  | (dissociated) a og ev where "e = Emitted a og ev" "st a = Some (as_linked K_Xwayland True)"
      "life_step e st = Some (st(a \<mapsto> as_linked K_Xwayland False))"
  | (unchanged) "life_step e st = Some st"
  | (twice) a where "e = Emitted a Itself ''associate''" "st a = Some (as_linked K_Xwayland True)" "life_step e st = None"
proof (cases e)
  case (Announced k a)
  then show ?thesis using created by (simp add: create_watched_def constructed)
next
  case (Emitted a og ev)
  show ?thesis
  proof (cases "st a")
    case None
    then show ?thesis using Emitted unchanged by simp
  next
    case (Some w)
    then obtain k as where w: "w = as_linked k as" "as \<longrightarrow> k = K_Xwayland"
      using assms linked_plain unfolding store_ok_def by blast
    show ?thesis
    proof (cases "handler_of w og ev")
      case None
      then show ?thesis using Emitted Some unchanged by simp
    next
      case f: (Some f)
      have step: "life_step e st = handle_hooks f a w st" using Emitted Some f by simp
      consider "f \<in> set destructors" | "f = ''xwayland_surface_associate''" "f \<notin> set destructors"
        | "f = ''xwayland_surface_dissociate''" "f \<notin> set destructors" "f \<noteq> ''xwayland_surface_associate''"
        | "f \<noteq> ''xwayland_surface_associate''" "f \<notin> set destructors" "f \<noteq> ''xwayland_surface_dissociate''" by blast
      then show ?thesis
      proof cases
        case 1
        then show ?thesis using destroyed Emitted step destroy_plain w by (simp add: handle_hooks_def)
      next
        case 2
        then have c: "k = K_Xwayland" "og = Itself" "ev = ''associate''" using f associate_signal w(1) by blast+
        show ?thesis
        proof (cases as)
          case True
          then show ?thesis using twice c 2 step w Emitted Some by (simp add: handle_hooks_def associate_twice)
        next
          case False
          then show ?thesis using associated c 2 step w Emitted Some by (simp add: handle_hooks_def associate_plain)
        qed
      next
        case 3
        then show ?thesis
          using dissociated unchanged step w Emitted Some by (cases as) (simp_all add: handle_hooks_def dissociate_plain)
      next
        case 4
        then show ?thesis using unchanged step by (simp add: handle_hooks_def)
      qed
    qed
  qed
qed

lemma as_linked_ok: "as \<longrightarrow> k = K_Xwayland \<Longrightarrow> linked_ok (as_linked k as)"
  using linked_plain by blast

lemma store_ok_upd: "store_ok st \<Longrightarrow> as \<longrightarrow> k = K_Xwayland \<Longrightarrow> store_ok (st(a \<mapsto> as_linked k as))" "store_ok st \<Longrightarrow> store_ok (st(a := None))"
  using as_linked_ok by (auto simp: store_ok_def)

interpretation hooks: guarded_machine life_step store_ok life_ok
proof
  show "store_ok t" if "store_ok s" "life_step e s = Some t" for s e t
    using that(1) by (cases rule: life_step_cases [where e = e]) (use that store_ok_upd in auto)
  show "life_step e s \<noteq> None" if "store_ok s" "life_ok s e" for s e
    using that(1) by (cases rule: life_step_cases [where e = e]) (use that(2) in \<open>auto simp: life_ok_def as_linked_def\<close>)
qed

lemma destroy_signal:
  assumes "linked_ok w" and "st a = Some w"
  shows "life_step (Emitted a (if wt_kind w \<in> {K_Keyboard, K_Pointer} then Device else Itself) ''destroy'') st = Some (st(a := None))"
proof -
  obtain k as where w: "w = as_linked k as" "as \<longrightarrow> k = K_Xwayland" using assms(1) linked_plain by blast
  have "\<exists>f. handler_of w (if k \<in> {K_Keyboard, K_Pointer} then Device else Itself) ''destroy'' = Some f \<and> f \<in> set destructors"
    unfolding w(1) by (cases k; cases as) (simp_all add: handler_of_def as_linked_def hook_tables destructors_def)
  moreover have "wt_kind w = k" by (simp add: w(1) as_linked_def)
  ultimately show ?thesis using assms(2) destroy_plain [OF w(2), of a st, folded w(1)] by (auto simp: handle_hooks_def)
qed

text \<open>
  C9. Listeners and memory. Whatever objects wlroots announces and whatever signals it emits, no
  handler unlinks a listener that is not linked or links one twice, no object is freed with a
  listener still linked, every live object has exactly the listeners of its kind linked, an X11
  window those of a surface exactly while it has one, and the destroy signal of an object
  frees it.
\<close>

theorem listeners_outlive_nothing:
  assumes "allowed life_ok life_step es Map.empty"
  shows "\<exists>st. run life_step es Map.empty = Some st \<and>
     (\<forall>a w. st a = Some w \<longrightarrow>
        wt_hooks w = hooks_of (wt_kind w) @ (if wt_associated w then xwayland_surface_hooks else []) \<and>
        (wt_associated w \<longrightarrow> wt_kind w = K_Xwayland) \<and>
        life_step (Emitted a (if wt_kind w \<in> {K_Keyboard, K_Pointer} then Device else Itself) ''destroy'') st = Some (st(a := None)))"
proof -
  have "store_ok Map.empty" by (simp add: store_ok_def)
  with hooks.run_guarded assms obtain st where st: "run life_step es Map.empty = Some st" "store_ok st" by blast
  then show ?thesis using destroy_signal by (auto simp: store_ok_def linked_ok_def)
qed

definition ex_life :: "life list" where
  "ex_life = [Announced K_Output 1, Announced K_Xwayland 2, Emitted 2 Itself ''associate'', Emitted 2 Surface ''map'',
     Emitted 1 Itself ''frame'', Emitted 2 Itself ''dissociate'', Emitted 2 Itself ''associate'', Announced K_Keyboard 3,
     Emitted 3 Device ''destroy'']"

lemma ex_life_allowed: "allowed life_ok life_step ex_life Map.empty"
  by code_simp

lemma listeners_outlive_nothing_witness: "\<exists>st. run life_step ex_life Map.empty = Some st"
  using listeners_outlive_nothing [OF ex_life_allowed] by blast

text \<open>Every listener of a struct is one its constructor links, and the other way round.\<close>

lemma members_linked:
  "set (map hk_member (hooks_of K_Toplevel)) = set toplevel_members"
  "set (map hk_member (hooks_of K_Popup)) = set popup_members"
  "set (map hk_member (hooks_of K_Xwayland @ xwayland_surface_hooks)) = set xwayland_members"
  "set (map hk_member (hooks_of K_Output)) = set output_members"
  "set (map hk_member (hooks_of K_Keyboard)) = set keyboard_members"
  "set (map hk_member (hooks_of K_Pointer)) = set pointer_members"
  "set (map hk_member (hooks_of K_Active_Lock)) = set active_lock_members"
  by code_simp+

end
