(* ===== verification/Startup.thy ===== *)
theory Startup
  imports Server
begin

text \<open>
  How the compositor comes up and goes down (\<open>main.c\<close>, \<open>server.c\<close>, the initialisers of
  \<open>sessionlock.c\<close> and \<open>xwayland.c\<close>): the wlroots objects it creates, the lists it
  initialises and the listeners it links, in the order of the code. The state the compositor
  itself starts in is \<open>kum_server_init\<close>; here is what may fail on the way.
\<close>

section \<open>Objects, lists and listeners of the server\<close>

text \<open>The members of \<open>kum_server\<close> that point to an object of a library.\<close>

datatype part =
    Display | Backend | Renderer | Allocator | Compositor | Scene_Root | Scene_Layout | Output_Layout | Xdg_Shell
  | Layer_Shell | Cursor | Cursor_Mgr | Seat | Idle_Notifier | Session_Lock_Manager | Lock_Tree | Layer_Bg_Tree
  | Layer_Bottom_Tree | Normal_Tree | Layer_Top_Tree | Layer_Overlay_Tree | Workspace_Tree nat | Xwayland_Server

datatype server_list =
    Outputs | Toplevels | Keyboards | Pointers | Keybinds | Ipc_Clients | Layer_Surfaces | Rules_List | Xwayland_Surfaces
  | Workspace_Toplevels nat

record wiring =
  parts :: "part list"                       \<comment> \<open>the pointers that are not null\<close>
  lists :: "server_list list"                \<comment> \<open>the lists \<open>wl_list_init\<close> was called on\<close>
  globals :: "string list"                   \<comment> \<open>protocols advertised without a member of their own\<close>
  listeners :: "(string \<times> part \<times> string \<times> string) list"    \<comment> \<open>member, object, signal, handler\<close>
  exported :: "string list"                  \<comment> \<open>variables set for the children\<close>

text \<open>A function runs to its end, leaves the program with an exit code, or follows a null pointer.\<close>

datatype 'a start = Ready 'a | Exit nat | Crash

datatype setup_action =
    Create part "part list" bool             \<comment> \<open>from other parts; the last says that a failure is fatal\<close>
  | Advertise string "part list"
  | Init_List server_list
  | Use_List server_list
  | Listen string part string string
  | Attach "part list"                       \<comment> \<open>a call that needs the parts and changes none\<close>
  | Export string
  | Kill part

fun perform :: "(part \<Rightarrow> bool) \<Rightarrow> setup_action \<Rightarrow> wiring \<Rightarrow> wiring start" where
  "perform av (Create p needs fatal) w =
     (if \<not> list_all (\<lambda>q. q \<in> set (parts w)) needs then Crash
      else if av p then Ready (w\<lparr>parts := parts w @ [p]\<rparr>)
      else if fatal then Exit 1 else Ready w)"
| "perform av (Advertise g needs) w =
     (if list_all (\<lambda>q. q \<in> set (parts w)) needs then Ready (w\<lparr>globals := globals w @ [g]\<rparr>) else Crash)"
| "perform av (Init_List l) w = Ready (w\<lparr>lists := lists w @ [l]\<rparr>)"
| "perform av (Use_List l) w = (if l \<in> set (lists w) then Ready w else Crash)"
| "perform av (Listen m p ev f) w =
     (if p \<in> set (parts w) then Ready (w\<lparr>listeners := listeners w @ [(m, p, ev, f)]\<rparr>) else Crash)"
| "perform av (Attach needs) w = (if list_all (\<lambda>q. q \<in> set (parts w)) needs then Ready w else Crash)"
| "perform av (Export v) w = Ready (w\<lparr>exported := exported w @ [v]\<rparr>)"
| "perform av (Kill p) w = (if p \<in> set (parts w) then Ready (w\<lparr>parts := remove1 p (parts w)\<rparr>) else Crash)"

fun perform_all :: "(part \<Rightarrow> bool) \<Rightarrow> setup_action list \<Rightarrow> wiring \<Rightarrow> wiring start" where
  "perform_all av [] w = Ready w"
| "perform_all av (a # as) w = (case perform av a w of Ready w' \<Rightarrow> perform_all av as w' | Exit n \<Rightarrow> Exit n | Crash \<Rightarrow> Crash)"

section \<open>Initialisation\<close>

definition setup_globals :: "setup_action list" where
  "setup_globals =
     [Create Compositor [Display, Renderer] False, Advertise ''subcompositor'' [Display],
      Advertise ''data_device_manager'' [Display], Advertise ''primary_selection_v1'' [Display],
      Advertise ''data_control_v1'' [Display], Advertise ''viewporter'' [Display], Advertise ''screencopy_v1'' [Display],
      Advertise ''server_decoration'' [Display], Advertise ''xdg_decoration_v1'' [Display],
      Create Idle_Notifier [Display] False, Advertise ''linux_dmabuf_v1'' [Display, Renderer]]"

definition setup_outputs :: "setup_action list" where
  "setup_outputs =
     [Create Output_Layout [Display] False, Create Scene_Layout [Scene_Root, Output_Layout] False,
      Advertise ''xdg_output_v1'' [Display, Output_Layout], Init_List Outputs,
      Listen ''new_output'' Backend ''new_output'' ''kum_new_output'']"

definition setup_shell :: "setup_action list" where
  "setup_shell =
     [Create Xdg_Shell [Display] False, Listen ''new_xdg_toplevel'' Xdg_Shell ''new_toplevel'' ''kum_new_xdg_toplevel'',
      Listen ''new_xdg_popup'' Xdg_Shell ''new_popup'' ''kum_new_xdg_popup'', Init_List Layer_Surfaces,
      Create Layer_Shell [Display] False, Listen ''new_layer_surface'' Layer_Shell ''new_surface'' ''kum_new_layer_surface'']"

definition session_lock_init :: "setup_action list" where
  "session_lock_init =
     [Create Lock_Tree [Scene_Root] False, Create Session_Lock_Manager [Display] False,
      Listen ''new_session_lock'' Session_Lock_Manager ''new_lock'' ''new_session_lock'']"

definition setup_cursor :: "setup_action list" where
  "setup_cursor =
     [Create Cursor [] False, Attach [Cursor, Output_Layout], Create Cursor_Mgr [] False,
      Listen ''cursor_motion'' Cursor ''motion'' ''kum_cursor_motion'',
      Listen ''cursor_motion_absolute'' Cursor ''motion_absolute'' ''kum_cursor_motion_absolute'',
      Listen ''cursor_button'' Cursor ''button'' ''kum_cursor_button'',
      Listen ''cursor_axis'' Cursor ''axis'' ''kum_cursor_axis'',
      Listen ''cursor_frame'' Cursor ''frame'' ''kum_cursor_frame'']"

definition setup_input :: "setup_action list" where
  "setup_input =
     [Init_List Keyboards, Init_List Pointers, Init_List Keybinds,
      Listen ''new_input'' Backend ''new_input'' ''kum_new_input'', Create Seat [Display] False,
      Listen ''request_cursor'' Seat ''request_set_cursor'' ''kum_request_cursor'',
      Listen ''request_set_selection'' Seat ''request_set_selection'' ''kum_request_set_selection'',
      Use_List Keybinds]"

definition workspace_init :: "setup_action list" where
  "workspace_init = concat (map (\<lambda>i. [Create (Workspace_Tree i) [Normal_Tree] False, Init_List (Workspace_Toplevels i),
      Attach [Workspace_Tree i]]) [0..<9])"

definition xwayland_init :: "(part \<Rightarrow> bool) \<Rightarrow> setup_action list" where
  "xwayland_init av =
     Create Xwayland_Server [Display, Compositor] False #
     (if av Xwayland_Server then
        [Listen ''xwayland_ready'' Xwayland_Server ''ready'' ''handle_xwayland_ready'',
         Listen ''new_xwayland_surface'' Xwayland_Server ''new_surface'' ''handle_new_xwayland_surface'',
         Export ''DISPLAY'']
      else [])"

text \<open>The IPC socket is made in \<open>Sockets\<close>; here it needs its client list and the event loop.\<close>

definition server_init_actions :: "(part \<Rightarrow> bool) \<Rightarrow> bool \<Rightarrow> setup_action list" where
  "server_init_actions av xwayland =
     [Init_List Rules_List, Use_List Rules_List, Create Display [] True, Create Backend [Display] True,
      Create Renderer [Backend] True, Attach [Renderer, Display], Create Allocator [Backend, Renderer] True,
      Create Scene_Root [] True, Create Layer_Bg_Tree [Scene_Root] False, Create Layer_Bottom_Tree [Scene_Root] False,
      Create Normal_Tree [Scene_Root] False, Create Layer_Top_Tree [Scene_Root] False,
      Create Layer_Overlay_Tree [Scene_Root] False, Init_List Toplevels, Init_List Xwayland_Surfaces] @
     workspace_init @ setup_globals @ setup_outputs @ setup_shell @ session_lock_init @ setup_cursor @ setup_input @
     [Init_List Ipc_Clients, Attach [Display]] @
     (if xwayland then xwayland_init av else [])"

definition no_wiring :: wiring where
  "no_wiring = \<lparr>parts = [], lists = [], globals = [], listeners = [], exported = []\<rparr>"

section \<open>The program\<close>

text \<open>\<open>kum_server_run\<close> up to the event loop: a socket for the clients, then the backend starts.\<close>

definition server_run_actions :: "bool \<Rightarrow> bool \<Rightarrow> wiring \<Rightarrow> wiring start" where
  "server_run_actions socket started w =
     (if \<not> socket then Exit 1 else if \<not> started then Exit 1
      else Ready (w\<lparr>exported := exported w @ [''WAYLAND_DISPLAY'']\<rparr>))"

definition xwayland_finish :: "wiring \<Rightarrow> setup_action list" where
  "xwayland_finish w = (if Xwayland_Server \<in> set (parts w) then [Kill Xwayland_Server] else [])"

definition server_finish_actions :: "bool \<Rightarrow> wiring \<Rightarrow> setup_action list" where
  "server_finish_actions xwayland w =
     [Use_List Rules_List, Use_List Ipc_Clients] @ (if xwayland then xwayland_finish w else []) @
     [Attach [Display], Kill Scene_Root, Kill Cursor_Mgr, Kill Cursor, Kill Allocator, Kill Renderer, Kill Backend, Kill Display]"

datatype outcome =
    Printed_Usage nat                       \<comment> \<open>with the exit code\<close>
  | Printed_Version
  | Failed nat
  | Crashed
  | Finished wiring kum_server

text \<open>
  \<open>loop\<close> is what the events of the session make of the state, \<open>av\<close> which objects the
  libraries can create, \<open>socket\<close> and \<open>started\<close> whether the display socket is there and the
  backend starts.
\<close>

definition kum_main :: "env \<Rightarrow> (part \<Rightarrow> bool) \<Rightarrow> bool \<Rightarrow> bool \<Rightarrow> (kum_server \<Rightarrow> kum_server) \<Rightarrow> string list \<Rightarrow> outcome" where
  "kum_main E av socket started loop args =
     (case args of
        a # _ \<Rightarrow>
          (if a = ''-h'' then Printed_Usage 0 else if a = ''-v'' then Printed_Version else Printed_Usage 1)
      | [] \<Rightarrow>
          (let s0 = kum_server_init E; xw = cfg_xwayland (cfg s0)
           in case perform_all av (server_init_actions av xw) no_wiring of
                Exit n \<Rightarrow> Failed n
              | Crash \<Rightarrow> Crashed
              | Ready w \<Rightarrow>
                  (case server_run_actions socket started w of
                     Exit n \<Rightarrow> Failed n
                   | Crash \<Rightarrow> Crashed
                   | Ready w1 \<Rightarrow>
                       (let s1 = loop (kum_server_run E s0)
                        in case perform_all av (server_finish_actions (cfg_xwayland (cfg s1)) w1) w1 of
                             Exit n \<Rightarrow> Failed n
                           | Crash \<Rightarrow> Crashed
                           | Ready w2 \<Rightarrow> Finished w2 (kum_server_finish s1)))))"

section \<open>Nothing is used before it is made\<close>

text \<open>
  A check of a list of actions on its own: every part, list and listener it uses was made by an
  action before it.
\<close>

fun sound :: "part list \<Rightarrow> server_list list \<Rightarrow> setup_action list \<Rightarrow> bool" where
  "sound ps ls [] = True"
| "sound ps ls (Create p needs _ # as) = (list_all (\<lambda>q. q \<in> set ps) needs \<and> sound (ps @ [p]) ls as)"
| "sound ps ls (Advertise _ needs # as) = (list_all (\<lambda>q. q \<in> set ps) needs \<and> sound ps ls as)"
| "sound ps ls (Init_List l # as) = sound ps (ls @ [l]) as"
| "sound ps ls (Use_List l # as) = (l \<in> set ls \<and> sound ps ls as)"
| "sound ps ls (Listen _ p _ _ # as) = (p \<in> set ps \<and> sound ps ls as)"
| "sound ps ls (Attach needs # as) = (list_all (\<lambda>q. q \<in> set ps) needs \<and> sound ps ls as)"
| "sound ps ls (Export _ # as) = sound ps ls as"
| "sound ps ls (Kill p # as) = (p \<in> set ps \<and> sound (remove1 p ps) ls as)"

fun fatal_part :: "setup_action \<Rightarrow> part option" where
  "fatal_part (Create p _ True) = Some p"
| "fatal_part _ = None"

fun trusted_part :: "setup_action \<Rightarrow> part option" where
  "trusted_part (Create p _ False) = Some p"
| "trusted_part _ = None"

definition fatal_ok :: "(part \<Rightarrow> bool) \<Rightarrow> setup_action list \<Rightarrow> bool" where
  "fatal_ok av as \<longleftrightarrow> list_all (\<lambda>a. case fatal_part a of None \<Rightarrow> True | Some p \<Rightarrow> av p) as"

definition trusted_ok :: "(part \<Rightarrow> bool) \<Rightarrow> setup_action list \<Rightarrow> bool" where
  "trusted_ok av as \<longleftrightarrow> list_all (\<lambda>a. case trusted_part a of None \<Rightarrow> True | Some p \<Rightarrow> av p) as"

lemma list_ok_simps [simp]:
  "fatal_ok av [] " "fatal_ok av (a # as) \<longleftrightarrow> (case fatal_part a of None \<Rightarrow> True | Some p \<Rightarrow> av p) \<and> fatal_ok av as"
  "trusted_ok av []" "trusted_ok av (a # as) \<longleftrightarrow> (case trusted_part a of None \<Rightarrow> True | Some p \<Rightarrow> av p) \<and> trusted_ok av as"
  by (simp_all add: fatal_ok_def trusted_ok_def)

lemma sound_performs:
  "sound (parts w) (lists w) as \<Longrightarrow> trusted_ok av as \<Longrightarrow>
     perform_all av as w = (if fatal_ok av as then perform_all (\<lambda>_. True) as w else Exit 1) \<and>
     (\<exists>w'. perform_all (\<lambda>_. True) as w = Ready w')"
proof (induction as arbitrary: w)
  case Nil
  then show ?case by simp
next
  case (Cons a as)
  show ?case
  proof (cases a)
    case (Create p needs fatal)
    have "sound (parts (w\<lparr>parts := parts w @ [p]\<rparr>)) (lists (w\<lparr>parts := parts w @ [p]\<rparr>)) as" using Cons.prems Create by simp
    from Cons.IH [OF this] Cons.prems Create show ?thesis by (cases fatal) auto
  next
    case (Kill p)
    have "sound (parts (w\<lparr>parts := remove1 p (parts w)\<rparr>)) (lists (w\<lparr>parts := remove1 p (parts w)\<rparr>)) as" using Cons.prems Kill by simp
    from Cons.IH [OF this] Cons.prems Kill show ?thesis by auto
  qed (use Cons in auto)
qed

lemma perform_all_append:
  "perform_all av (as @ bs) w = (case perform_all av as w of Ready w' \<Rightarrow> perform_all av bs w' | Exit n \<Rightarrow> Exit n | Crash \<Rightarrow> Crash)"
  by (induction as arbitrary: w) (auto split: start.split)

text \<open>The parts whose creation the code checks.\<close>

definition checked_parts :: "part list" where
  "checked_parts = [Display, Backend, Renderer, Allocator, Scene_Root]"

text \<open>The libraries create every object whose creation is not checked.\<close>

definition unchecked_created :: "(part \<Rightarrow> bool) \<Rightarrow> bool" where
  "unchecked_created av \<longleftrightarrow> (\<forall>p. p \<notin> set (Xwayland_Server # checked_parts) \<longrightarrow> av p)"

definition always_actions :: "setup_action list" where
  "always_actions = server_init_actions (\<lambda>_. False) False"

lemma init_actions: "server_init_actions av xw = always_actions @ (if xw then xwayland_init av else [])"
  by (simp add: server_init_actions_def always_actions_def)

lemma always_sound: "sound [] [] always_actions"
  by code_simp

definition wired :: wiring where
  "wired = (case perform_all (\<lambda>_. True) always_actions no_wiring of Ready w \<Rightarrow> w | _ \<Rightarrow> no_wiring)"

lemma fatal_ok_parts: "fatal_ok av as \<longleftrightarrow> list_all av (List.map_filter fatal_part as)"
  by (induction as) (auto simp: List.map_filter_simps split: option.split)

lemma trusted_ok_parts: "trusted_ok av as \<longleftrightarrow> list_all av (List.map_filter trusted_part as)"
  by (induction as) (auto simp: List.map_filter_simps split: option.split)

lemma always_parts:
  "List.map_filter fatal_part always_actions = checked_parts"
  "list_all (\<lambda>p. p \<notin> set (Xwayland_Server # checked_parts)) (List.map_filter trusted_part always_actions)"
  by code_simp+

lemma always_performs:
  assumes "unchecked_created av"
  shows "perform_all av always_actions no_wiring = (if list_all av checked_parts then Ready wired else Exit 1)"
proof -
  have "trusted_ok av always_actions"
    using always_parts(2) assms by (auto simp: trusted_ok_parts unchecked_created_def list_all_iff)
  moreover have "sound (parts no_wiring) (lists no_wiring) always_actions" by (simp add: no_wiring_def always_sound)
  ultimately show ?thesis
    using sound_performs [of no_wiring always_actions av] by (auto simp: fatal_ok_parts always_parts(1) wired_def)
qed

text \<open>With an X server, the wiring has its listeners and its display as well.\<close>

definition wired_with :: "bool \<Rightarrow> wiring" where
  "wired_with x =
     (if x then wired\<lparr>parts := parts wired @ [Xwayland_Server],
        listeners := listeners wired @
          [(''xwayland_ready'', Xwayland_Server, ''ready'', ''handle_xwayland_ready''),
           (''new_xwayland_surface'', Xwayland_Server, ''new_surface'', ''handle_new_xwayland_surface'')],
        exported := exported wired @ [''DISPLAY'']\<rparr>
      else wired)"

lemma wired_made: "Display \<in> set (parts wired)" "Compositor \<in> set (parts wired)"
  by code_simp+

lemma init_performs:
  assumes "unchecked_created av"
  shows "perform_all av (server_init_actions av xw) no_wiring =
     (if list_all av checked_parts then Ready (wired_with (xw \<and> av Xwayland_Server)) else Exit 1)"
  using always_performs [OF assms]
  by (simp add: init_actions perform_all_append xwayland_init_def wired_with_def wired_made)

text \<open>The listeners and lists that are members of \<open>kum_server\<close>.\<close>

definition server_members :: "bool \<Rightarrow> string list" where
  "server_members xwayland =
     [''new_session_lock'', ''new_output'', ''new_xdg_toplevel'', ''new_xdg_popup'', ''new_layer_surface'', ''new_input'',
      ''cursor_motion'', ''cursor_motion_absolute'', ''cursor_button'', ''cursor_axis'', ''cursor_frame'',
      ''request_cursor'', ''request_set_selection''] @
     (if xwayland then [''xwayland_ready'', ''new_xwayland_surface''] else [])"

definition server_lists :: "server_list list" where
  "server_lists = [Outputs, Toplevels, Keyboards, Pointers, Keybinds, Ipc_Clients, Layer_Surfaces, Rules_List, Xwayland_Surfaces] @
     map Workspace_Toplevels [0..<9]"

lemma wired_complete:
  "distinct (map fst (listeners (wired_with x)))" "set (map fst (listeners (wired_with x))) = set (server_members x)"
  "list_all (\<lambda>(_, p, _, _). p \<in> set (parts (wired_with x))) (listeners (wired_with x))"
  "distinct (lists (wired_with x))" "set (lists (wired_with x)) = set server_lists"
  by (cases x; simp only:; code_simp)+

text \<open>
  Start-up. When the libraries create every object whose creation the code does not check,
  initialisation follows no null pointer: it leaves with status 1 exactly when one of the five
  checked objects cannot be created, and otherwise every listener of the server is linked
  once, into an object that exists, and every list is initialised once, whether X11 support
  is configured and available or not.
\<close>

theorem startup_wires_everything:
  assumes "unchecked_created av"
  shows "case perform_all av (server_init_actions av xw) no_wiring of
       Crash \<Rightarrow> False
     | Exit n \<Rightarrow> n = 1 \<and> \<not> list_all av checked_parts
     | Ready w \<Rightarrow> list_all av checked_parts \<and>
         mset (map fst (listeners w)) = mset (server_members (xw \<and> av Xwayland_Server)) \<and>
         list_all (\<lambda>(_, p, _, _). p \<in> set (parts w)) (listeners w) \<and>
         mset (lists w) = mset server_lists"
proof -
  have d: "distinct (server_members x)" for x by (cases x; simp only:; code_simp)
  have "distinct server_lists" by code_simp
  moreover have "distinct (server_members x)" for x by (rule d)
  ultimately have "mset (map fst (listeners (wired_with x))) = mset (server_members x) \<and> mset (lists (wired_with x)) = mset server_lists" for x
    using wired_complete [of x] by (metis set_eq_iff_mset_eq_distinct)
  then show ?thesis using wired_complete(3) by (simp add: init_performs [OF assms])
qed

definition ex_no_xwayland :: "part \<Rightarrow> bool" where
  "ex_no_xwayland p \<longleftrightarrow> p \<noteq> Xwayland_Server"

lemma startup_wires_everything_witness:
  "case perform_all ex_no_xwayland (server_init_actions ex_no_xwayland True) no_wiring of
       Crash \<Rightarrow> False | Exit n \<Rightarrow> False | Ready w \<Rightarrow> mset (map fst (listeners w)) = mset (server_members False)"
proof -
  have "unchecked_created ex_no_xwayland" by (simp add: unchecked_created_def ex_no_xwayland_def)
  from startup_wires_everything [OF this, of True] show ?thesis
    by (auto simp: ex_no_xwayland_def checked_parts_def split: start.split)
qed

section \<open>The whole run\<close>

definition running :: "bool \<Rightarrow> wiring" where
  "running x = (wired_with x)\<lparr>exported := exported (wired_with x) @ [''WAYLAND_DISPLAY'']\<rparr>"

lemma finish_sound: "sound (parts (running x)) (lists (running x)) (server_finish_actions b (running x))"
  by (cases x; cases b; simp only:; code_simp)

lemma finish_parts:
  "case perform_all (\<lambda>_. True) (server_finish_actions b (running x)) (running x) of
     Ready w \<Rightarrow> list_all (\<lambda>p. p \<notin> set (parts w)) (Cursor # Cursor_Mgr # checked_parts) \<and>
       (Xwayland_Server \<in> set (parts w) \<longleftrightarrow> x \<and> \<not> b)
   | _ \<Rightarrow> False"
  by (cases x; cases b; simp only:; code_simp)

lemma finish_performs:
  "\<exists>w. perform_all av (server_finish_actions b (running x)) (running x) = Ready w \<and>
     list_all (\<lambda>p. p \<notin> set (parts w)) (Cursor # Cursor_Mgr # checked_parts) \<and> (Xwayland_Server \<in> set (parts w) \<longleftrightarrow> x \<and> \<not> b)"
proof -
  have "trusted_ok av (server_finish_actions b (running x))" "fatal_ok av (server_finish_actions b (running x))"
    by (simp_all add: server_finish_actions_def xwayland_finish_def trusted_ok_def fatal_ok_def)
  with sound_performs [OF finish_sound [where b = b and x = x], of av] finish_parts [where b = b and x = x] show ?thesis by (auto split: start.split_asm)
qed

text \<open>
  C8. The life of the process. Without arguments, and with the libraries creating what the code
  does not check, the compositor never follows a null pointer from its first call to its
  last: it fails with status 1 exactly when a checked object, the display socket or the
  backend fails, and otherwise it runs its session from the initial state and destroys
  each object it owns once, the X server unless the configuration was changed under it.
\<close>

theorem main_runs_to_the_end:
  assumes "unchecked_created av"
  shows "case kum_main E av socket started loop [] of
       Finished w s \<Rightarrow>
         list_all av checked_parts \<and> socket \<and> started \<and>
         s = kum_server_finish (loop (kum_server_run E (kum_server_init E))) \<and>
         list_all (\<lambda>p. p \<notin> set (parts w)) (Cursor # Cursor_Mgr # checked_parts) \<and>
         (Xwayland_Server \<in> set (parts w) \<longrightarrow>
            \<not> cfg_xwayland (cfg (loop (kum_server_run E (kum_server_init E)))) \<and> cfg_xwayland (cfg (kum_server_init E)))
     | Failed n \<Rightarrow> n = 1 \<and> \<not> (list_all av checked_parts \<and> socket \<and> started)
     | _ \<Rightarrow> False"
proof -
  let ?s0 = "kum_server_init E"
  let ?s1 = "loop (kum_server_run E ?s0)"
  let ?x = "cfg_xwayland (cfg ?s0) \<and> av Xwayland_Server"
  show ?thesis
  proof (cases "list_all av checked_parts \<and> socket \<and> started")
    case False
    then show ?thesis by (auto simp: kum_main_def Let_def init_performs [OF assms] server_run_actions_def)
  next
    case True
    obtain w where w: "perform_all av (server_finish_actions (cfg_xwayland (cfg ?s1)) (running ?x)) (running ?x) = Ready w"
      "list_all (\<lambda>p. p \<notin> set (parts w)) (Cursor # Cursor_Mgr # checked_parts)"
      "Xwayland_Server \<in> set (parts w) \<longleftrightarrow> ?x \<and> \<not> cfg_xwayland (cfg ?s1)"
      using finish_performs [of av "cfg_xwayland (cfg ?s1)" ?x] by blast
    have "kum_main E av socket started loop [] = Finished w (kum_server_finish ?s1)"
      using True w(1) by (simp add: kum_main_def Let_def init_performs [OF assms] server_run_actions_def running_def)
    then show ?thesis using True w by simp
  qed
qed

lemma main_runs_to_the_end_witness:
  "case kum_main ex_env ex_no_xwayland True True (\<lambda>s. s) [] of Finished w s \<Rightarrow> Display \<notin> set (parts w) | _ \<Rightarrow> False"
proof -
  have u: "unchecked_created ex_no_xwayland" by (simp add: unchecked_created_def ex_no_xwayland_def)
  from main_runs_to_the_end [OF u, where E = ex_env and socket = True and started = True and loop = "\<lambda>s. s"] show ?thesis
    by (auto simp: ex_no_xwayland_def checked_parts_def split: outcome.split)
qed

text \<open>An argument is read before anything is created: the first one decides.\<close>

lemma main_arguments:
  "kum_main E av socket started loop (''-h'' # as) = Printed_Usage 0"
  "kum_main E av socket started loop (''-v'' # as) = Printed_Version"
  "a \<noteq> ''-h'' \<Longrightarrow> a \<noteq> ''-v'' \<Longrightarrow> kum_main E av socket started loop (a # as) = Printed_Usage 1"
  by (simp_all add: kum_main_def)

text \<open>
  An object that is created without a check and fails takes the program with it: the listener
  is linked into a signal of a null pointer.
\<close>

lemma unchecked_failure_crashes:
  "list_all (\<lambda>p. perform_all (\<lambda>q. q \<noteq> p) (server_init_actions (\<lambda>q. q \<noteq> p) False) no_wiring = Crash)
     [Output_Layout, Xdg_Shell, Layer_Shell, Session_Lock_Manager, Cursor, Seat, Normal_Tree]"
  by code_simp

end
