(* ===== verification/Sockets.thy ===== *)
theory Sockets
  imports Kumde_Msg Client_Keys
begin

text \<open>
  The sockets the programs meet at: how the compositor (\<open>ipc.c\<close>) and the notification daemon
  bind theirs, how the tool, the bar and the sender of a notification find them, and what
  \<open>kumde-msg\<close> does on its connection.
\<close>

section \<open>Names of sockets\<close>

text \<open>
  What the kernel holds: the process bound to each name of the file system, and the open
  descriptors of the program. A bound name stays after its descriptor is closed.
\<close>

record sockets =
  bound :: "string \<Rightarrow> nat option"
  open_fds :: "int list"

record socket_env =
  sk_socket :: "int option"         \<comment> \<open>the descriptor \<open>socket\<close> returns\<close>
  sk_bind :: "string \<Rightarrow> bool"       \<comment> \<open>the directory exists and may be written to\<close>
  sk_listen :: bool

text \<open>\<open>sun_path\<close> holds 107 bytes and the NUL.\<close>

definition sun_path :: "string \<Rightarrow> string" where
  "sun_path p = strncpy 107 p"

definition unlink :: "string \<Rightarrow> sockets \<Rightarrow> sockets" where
  "unlink p k = k\<lparr>bound := (bound k)(p := None)\<rparr>"

definition close_fd :: "int \<Rightarrow> sockets \<Rightarrow> sockets" where
  "close_fd fd k = k\<lparr>open_fds := remove1 fd (open_fds k)\<rparr>"

text \<open>\<open>bind\<close> fails on a name that is taken.\<close>

definition bind_name :: "socket_env \<Rightarrow> nat \<Rightarrow> string \<Rightarrow> sockets \<Rightarrow> sockets option" where
  "bind_name N me a k = (if bound k a \<noteq> None \<or> \<not> sk_bind N a then None else Some (k\<lparr>bound := (bound k)(a \<mapsto> me)\<rparr>))"

section \<open>The compositor's socket\<close>

record kum_ipc =
  ipc_fd :: int
  ipc_path :: string
  ipc_source :: bool

definition KUM_IPC_SOCKET_NAME :: string where "KUM_IPC_SOCKET_NAME = ''kumde-ipc''"

definition ipc_socket_dir :: "string option \<Rightarrow> string" where
  "ipc_socket_dir runtime = (case runtime of None \<Rightarrow> ''/tmp'' | Some d \<Rightarrow> d)"

text \<open>The result has the value the children find in \<open>KUMDE_IPC\<close>, if it was set.\<close>

definition kum_ipc_init :: "socket_env \<Rightarrow> string option \<Rightarrow> nat \<Rightarrow> sockets \<Rightarrow> kum_ipc \<times> string option \<times> sockets" where
  "kum_ipc_init N runtime me k =
     (let path = snprintf 256 (ipc_socket_dir runtime @ ''/'' @ KUM_IPC_SOCKET_NAME);
          ipc = \<lparr>ipc_fd = 0, ipc_path = path, ipc_source = False\<rparr>;
          k1 = unlink path k
      in case sk_socket N of
           None \<Rightarrow> (ipc, None, k1)
         | Some fd \<Rightarrow>
             let k2 = k1\<lparr>open_fds := fd # open_fds k1\<rparr>
             in case bind_name N me (sun_path path) k2 of
                  None \<Rightarrow> (ipc, None, close_fd fd k2)
                | Some k3 \<Rightarrow>
                    if \<not> sk_listen N then (ipc, None, close_fd fd k3)
                    else (ipc\<lparr>ipc_fd := fd, ipc_source := True\<rparr>, Some path, k3))"

text \<open>\<open>kum_ipc_finish\<close> without the clients, which \<open>Ipc\<close> has.\<close>

definition ipc_socket_finish :: "kum_ipc \<Rightarrow> sockets \<Rightarrow> sockets" where
  "ipc_socket_finish ipc k = unlink (ipc_path ipc) (if 0 < ipc_fd ipc then close_fd (ipc_fd ipc) k else k)"

text \<open>The tool and the bar connect to the name in the variable; the result is the process they reach.\<close>

definition connect_ipc :: "socket_env \<Rightarrow> string option \<Rightarrow> sockets \<Rightarrow> nat option" where
  "connect_ipc N var k =
     (case var of None \<Rightarrow> None | Some path \<Rightarrow> (case sk_socket N of None \<Rightarrow> None | Some _ \<Rightarrow> bound k (sun_path path)))"

section \<open>The notification daemon's socket\<close>

definition notify_bind :: "socket_env \<Rightarrow> string option \<Rightarrow> nat \<Rightarrow> sockets \<Rightarrow> int \<times> string option \<times> sockets" where
  "notify_bind N runtime me k =
     (case runtime of
        None \<Rightarrow> (-1, None, k)
      | Some d \<Rightarrow>
          let path = snprintf 256 (d @ ''/kumnotify.sock''); k1 = unlink path k
          in case sk_socket N of
               None \<Rightarrow> (-1, None, k1)
             | Some fd \<Rightarrow>
                 let k2 = k1\<lparr>open_fds := fd # open_fds k1\<rparr>
                 in case bind_name N me (sun_path path) k2 of
                      None \<Rightarrow> (-1, None, close_fd fd k2)
                    | Some k3 \<Rightarrow> (fd, Some path, k3))"

text \<open>Where the tool sends a notification: the variable, or the default name.\<close>

definition notify_path :: "string option \<Rightarrow> string option \<Rightarrow> string option" where
  "notify_path var runtime =
     (case var of Some p \<Rightarrow> Some p
      | None \<Rightarrow> (case runtime of None \<Rightarrow> None | Some d \<Rightarrow> Some (snprintf 256 (d @ ''/kumnotify.sock''))))"

text \<open>The process that gets the datagram, and the datagram.\<close>

definition deliver_notify ::
  "socket_env \<Rightarrow> string option \<Rightarrow> string option \<Rightarrow> string \<Rightarrow> string \<Rightarrow> string \<Rightarrow> int \<Rightarrow> int \<Rightarrow> sockets \<Rightarrow> (nat \<times> string) option" where
  "deliver_notify N var runtime app summary body urgency timeout k =
     (case notify_path var runtime of
        None \<Rightarrow> None
      | Some p \<Rightarrow> (case sk_socket N of None \<Rightarrow> None | Some _ \<Rightarrow>
          map_option (\<lambda>d. (d, send_notify app summary body urgency timeout)) (bound k (sun_path p))))"

section \<open>The tool on its connection\<close>

text \<open>One command is sent and one read of at most 511 bytes is printed, up to a NUL.\<close>

definition send_recv :: "string \<Rightarrow> string option \<Rightarrow> string \<times> string" where
  "send_recv msg answer = (msg, (case answer of None \<Rightarrow> [] | Some d \<Rightarrow> c_str (take 511 d)))"

text \<open>What \<open>poll\<close> and then \<open>recv\<close> report, one turn of the loop each.\<close>

datatype poll =
    Poll_Error
  | Poll (hang_up: bool) (input: "string option option")     \<comment> \<open>\<open>POLLIN\<close> with what \<open>recv\<close> returns, if anything\<close>

text \<open>What is printed, and whether the loop has ended when the reports are used up.\<close>

fun do_subscribe :: "poll list \<Rightarrow> string \<times> bool" where
  "do_subscribe [] = ([], False)"
| "do_subscribe (Poll_Error # ps) = ([], True)"
| "do_subscribe (Poll hup i # ps) =
     (if hup then ([], True)
      else case i of
        None \<Rightarrow> do_subscribe ps
      | Some None \<Rightarrow> ([], True)
      | Some (Some d) \<Rightarrow> if d = [] then ([], True) else (let (out, ended) = do_subscribe ps in (c_str d @ out, ended)))"

definition subscribe_msg :: string where
  "subscribe_msg = msg_simple ''subscribe''"

section \<open>Who reaches whom\<close>

text \<open>Nothing stands in the way of a socket: what may fail does not.\<close>

definition sockets_work :: "socket_env \<Rightarrow> bool" where
  "sockets_work N \<longleftrightarrow> sk_socket N \<noteq> None \<and> sk_listen N \<and> sk_bind N = (\<lambda>_. True)"

abbreviation ipc_name :: "string option \<Rightarrow> string" where
  "ipc_name runtime \<equiv> snprintf 256 (ipc_socket_dir runtime @ ''/'' @ KUM_IPC_SOCKET_NAME)"

lemma init_bound:
  assumes "sockets_work N"
  shows "kum_ipc_init N runtime me k =
     (let path = ipc_name runtime; fd = the (sk_socket N); k1 = (unlink path k)\<lparr>open_fds := fd # open_fds k\<rparr>
      in if bound k1 (sun_path path) = None
         then (\<lparr>ipc_fd = fd, ipc_path = path, ipc_source = True\<rparr>, Some path, k1\<lparr>bound := (bound k1)(sun_path path \<mapsto> me)\<rparr>)
         else (\<lparr>ipc_fd = 0, ipc_path = path, ipc_source = False\<rparr>, None, close_fd fd k1))"
  using assms by (auto simp: kum_ipc_init_def sockets_work_def bind_name_def unlink_def Let_def)

lemma sun_path_short: "sun_path p = p \<longleftrightarrow> length p \<le> 107"
  by (auto simp: sun_path_def strncpy_def)

lemma sun_path_idem [simp]: "sun_path (sun_path p) = sun_path p"
  by (simp add: sun_path_def strncpy_def)


text \<open>
  A second compositor in the same runtime directory unlinks the name of the first and takes it; when it
  finishes, the first can be reached by nobody.
\<close>

lemma second_instance_steals:
  assumes "sockets_work N" and "length (ipc_name runtime) \<le> 107" and "kum_ipc_init N runtime first k = (ipc, var, k1)"
    and "kum_ipc_init N runtime second k1 = (ipc2, var2, k2)"
  shows "connect_ipc N var k1 = Some first \<and> connect_ipc N var k2 = Some second \<and>
     connect_ipc N var (ipc_socket_finish ipc2 k2) = None"
proof -
  have "sun_path (ipc_name runtime) = ipc_name runtime" using assms(2) sun_path_short by blast
  then show ?thesis using assms(1,3,4)
    by (auto simp: init_bound [OF assms(1)] unlink_def close_fd_def ipc_socket_finish_def Let_def connect_ipc_def
        sockets_work_def split: option.split)
qed

text \<open>A compositor that could not make its socket still removes the name on its way out.\<close>

lemma failed_init_unlinks:
  assumes "sk_socket N = None" and "kum_ipc_init N runtime me k = (ipc, var, k1)"
  shows "var = None \<and> bound (ipc_socket_finish ipc (k1\<lparr>bound := (bound k1)(ipc_name runtime \<mapsto> other)\<rparr>)) (ipc_name runtime) = None"
  using assms by (auto simp: kum_ipc_init_def ipc_socket_finish_def unlink_def Let_def)

text \<open>
  Notifications arrive. With both in the same runtime directory and no variable set for the
  sender, the datagram of the tool is delivered to the daemon, whatever the length of the path.
\<close>

theorem notification_reaches_daemon:
  assumes "sockets_work N" and "bound k (sun_path (snprintf 256 (d @ ''/kumnotify.sock''))) = None"
  shows "\<exists>fd k1. notify_bind N (Some d) me k = (fd, Some (snprintf 256 (d @ ''/kumnotify.sock'')), k1) \<and>
     deliver_notify N None (Some d) app summary body urgency timeout k1 = Some (me, send_notify app summary body urgency timeout)"
  using assms
  by (auto simp: notify_bind_def deliver_notify_def notify_path_def bind_name_def unlink_def sockets_work_def Let_def split: option.split)

section \<open>The stream of events\<close>

text \<open>One turn with data, as long as the compositor is there.\<close>

definition data_turn :: "string \<Rightarrow> poll" where
  "data_turn d = Poll False (Some (Some d))"

lemma subscribe_turns:
  "list_all (\<lambda>d. d \<noteq> [] \<and> CHR 0x00 \<notin> set d) ds \<Longrightarrow>
     do_subscribe (map data_turn ds @ ps) = (concat ds @ fst (do_subscribe ps), snd (do_subscribe ps))"
  by (induction ds) (auto simp: data_turn_def c_str_id split: prod.split)

text \<open>
  What the compositor sent right before it closed the connection is lost: the kernel reports the
  hang-up together with the data that is still to be read.
\<close>

lemma subscribe_drops_tail:
  "list_all (\<lambda>d. d \<noteq> [] \<and> CHR 0x00 \<notin> set d) ds \<Longrightarrow>
     do_subscribe (map data_turn ds @ [Poll True (Some (Some last_words))]) = (concat ds, True)"
  by (simp add: subscribe_turns)

lemma subscribe_copies:
  "list_all (\<lambda>d. d \<noteq> [] \<and> CHR 0x00 \<notin> set d) ds \<Longrightarrow> do_subscribe (map data_turn ds) = (concat ds, False)"
  using subscribe_turns [of ds "[]"] by simp

section \<open>Examples\<close>

definition ex_net :: socket_env where
  "ex_net = \<lparr>sk_socket = Some 7, sk_bind = (\<lambda>_. True), sk_listen = True\<rparr>"

definition ex_sockets :: sockets where
  "ex_sockets = \<lparr>bound = Map.empty, open_fds = []\<rparr>"

lemma ex_net_works: "sockets_work ex_net"
  by (simp add: sockets_work_def ex_net_def)


lemma notification_reaches_daemon_witness:
  "\<exists>fd k1. notify_bind ex_net (Some ''/run'') 3 ex_sockets = (fd, Some (snprintf 256 (''/run'' @ ''/kumnotify.sock'')), k1) \<and>
     deliver_notify ex_net None (Some ''/run'') ''app'' ''hello'' [] 1 (-1) k1 = Some (3, send_notify ''app'' ''hello'' [] 1 (-1))"
  by (rule notification_reaches_daemon [OF ex_net_works]) (simp add: ex_sockets_def)

end
