(* ===== verification/Kumbar_Loop.thy ===== *)
theory Kumbar_Loop
  imports Kumbar
begin

text \<open>
  The bar as a process (\<open>kumbar/src/main.c\<close>): the globals it binds, its start and the turns of
  its event loop, with the reconnection to the compositor.
\<close>

section \<open>Globals\<close>

record bar_globals =
  bg_compositor :: "nat option"
  bg_shm :: "nat option"
  bg_seat :: "nat option"
  bg_layer_shell :: "nat option"
  bg_xdg_output_manager :: "nat option"
  bg_pointer :: bool

definition no_globals :: bar_globals where
  "no_globals = \<lparr>bg_compositor = None, bg_shm = None, bg_seat = None, bg_layer_shell = None, bg_xdg_output_manager = None,
     bg_pointer = False\<rparr>"

definition registry_global :: "nat \<times> string \<Rightarrow> bar_globals \<times> bar \<Rightarrow> bar_globals \<times> bar" where
  "registry_global = (\<lambda>(name, iface) (g, b).
     if iface = ''wl_compositor'' then (g\<lparr>bg_compositor := Some name\<rparr>, b)
     else if iface = ''wl_shm'' then (g\<lparr>bg_shm := Some name\<rparr>, b)
     else if iface = ''wl_seat'' then (g\<lparr>bg_seat := Some name\<rparr>, b)
     else if iface = ''zwlr_layer_shell_v1'' then (g\<lparr>bg_layer_shell := Some name\<rparr>, b)
     else if iface = ''zxdg_output_manager_v1'' then (g\<lparr>bg_xdg_output_manager := Some name\<rparr>, b)
     else if iface = ''wl_output'' then (g, bar_registry_output name b)
     else (g, b))"

text \<open>The pointer is taken once, when the seat has one.\<close>

definition seat_capabilities :: "bool \<Rightarrow> bar_globals \<Rightarrow> bar_globals" where
  "seat_capabilities has_pointer g = (if has_pointer \<and> \<not> bg_pointer g then g\<lparr>bg_pointer := True\<rparr> else g)"

section \<open>Events of the display\<close>

datatype bar_event =
    Bar_Configure nat int
  | Bar_Closed nat
  | Bar_Output_Name nat string
  | Bar_Output_Mode nat bool int
  | Bar_Output_Scale nat int
  | Bar_Enter nat rat
  | Bar_Leave
  | Bar_Motion rat
  | Bar_Button bool
  | Bar_Other               \<comment> \<open>the events whose listener is empty\<close>

fun bar_event_step :: "bar_event \<Rightarrow> bar \<Rightarrow> bar" where
  "bar_event_step (Bar_Configure i w) = bar_layer_configure i w"
| "bar_event_step (Bar_Closed i) = bar_layer_closed i"
| "bar_event_step (Bar_Output_Name i n) = bar_output_name i n"
| "bar_event_step (Bar_Output_Mode i current w) = bar_output_mode i current w"
| "bar_event_step (Bar_Output_Scale i k) = bar_output_scale i k"
| "bar_event_step (Bar_Enter sf x) = bar_ptr_enter sf x"
| "bar_event_step Bar_Leave = bar_ptr_leave"
| "bar_event_step (Bar_Motion x) = bar_ptr_motion x"
| "bar_event_step (Bar_Button pressed) = bar_ptr_button pressed"
| "bar_event_step Bar_Other = (\<lambda>b. b)"

section \<open>The loop\<close>

definition bar_poll_timeout :: "bar \<Rightarrow> int" where
  "bar_poll_timeout b = (if br_connected b then 1000 else IPC_RECONNECT_INTERVAL_S * 1000)"

text \<open>
  What \<open>poll\<close> reports and what is there to be read: its result, the events the display has
  when it is readable, and what the socket yields when it is readable or hung up. Times are
  seconds.
\<close>

record bar_turn =
  bt_ret :: int
  bt_display :: "bar_event list option"
  bt_ipc :: "received option"
  bt_now :: int
  bt_reach :: bool            \<comment> \<open>a connection to the compositor would succeed\<close>

text \<open>\<open>None\<close> when the loop is left. The socket is polled when it was open before the turn.\<close>

definition kumbar_turn :: "bar_env \<Rightarrow> bar_turn \<Rightarrow> bar \<Rightarrow> bar option" where
  "kumbar_turn E r b =
     (if bt_ret r < 0 then None
      else
        let b1 = (case bt_display r of None \<Rightarrow> b | Some es \<Rightarrow> fold bar_event_step es b);
            b2 = (if br_connected b \<and> bt_ipc r \<noteq> None
                  then kumbar_ipc_dispatch (bt_reach r) (bt_now r) (the (bt_ipc r)) b1
                  else if bt_ret r = 0 \<and> \<not> br_connected b1
                  then kumbar_ipc_dispatch (bt_reach r) (bt_now r) Again b1
                  else b1)
        in Some (kumbar_redraw E (bt_ret r = 0) b2))"

datatype bar_exit = Bar_Status nat | Bar_Running bar

text \<open>
  The program: the globals announced in the two roundtrips, then the surfaces, the first
  connection and the turns.
\<close>

definition kumbar_main ::
  "bar_env \<Rightarrow> bool \<Rightarrow> (nat \<times> string) list \<Rightarrow> (nat \<Rightarrow> nat) \<Rightarrow> bool \<Rightarrow> int \<Rightarrow> bar_turn list \<Rightarrow> bar_exit" where
  "kumbar_main E display announced addr reach now turns =
     (if \<not> display then Bar_Status 1
      else
        let b0 = \<lparr>br_outputs = [], br_pointer_output = None, br_pointer_x = 0, br_connected = False, br_last_attempt = 0,
               br_ibuf = [], br_out = []\<rparr>;
            (g, b1) = fold registry_global announced (no_globals, b0)
        in if bg_compositor g = None \<or> bg_shm g = None \<or> bg_layer_shell g = None then Bar_Status 1
           else case run (kumbar_turn E) turns (kumbar_start E addr reach now b1) of
             None \<Rightarrow> Bar_Status 0
           | Some b \<Rightarrow> Bar_Running b)"

section \<open>Reconnection\<close>

lemma upd_bar_output_fields [simp]:
  "br_connected (upd_bar_output i f b) = br_connected b" "br_last_attempt (upd_bar_output i f b) = br_last_attempt b"
  "br_ibuf (upd_bar_output i f b) = br_ibuf b"
  by (simp_all add: upd_bar_output_def map_outputs_def)

lemma br_emit_fields [simp]:
  "br_connected (br_emit r b) = br_connected b" "br_last_attempt (br_emit r b) = br_last_attempt b"
  "br_ibuf (br_emit r b) = br_ibuf b" "br_outputs (br_emit r b) = br_outputs b"
  by (simp_all add: br_emit_def)

text \<open>What belongs to the connection.\<close>

definition link_of :: "bar \<Rightarrow> bool \<times> int \<times> string" where
  "link_of b = (br_connected b, br_last_attempt b, br_ibuf b)"

lemma event_link: "link_of (bar_event_step e b) = link_of b"
  by (cases e) (simp_all add: link_of_def bar_layer_configure_def bar_layer_closed_def bar_output_name_def bar_output_mode_def
      bar_output_scale_def bar_ptr_enter_def bar_ptr_leave_def bar_ptr_motion_def bar_ptr_button_def split: option.split)

lemma events_link: "link_of (fold bar_event_step es b) = link_of b"
  by (induction es arbitrary: b) (simp_all add: event_link)

lemma render_link: "link_of (kumbar_render_output E p b) = link_of b"
  by (simp add: link_of_def kumbar_render_output_def Let_def)

lemma redraw_link: "link_of (kumbar_redraw E silence b) = link_of b"
proof -
  have 1: "link_of (fold (kumbar_render_output E) ps b) = link_of b" for ps b
    by (induction ps arbitrary: b) (simp_all add: render_link)
  have 2: "link_of (fold (\<lambda>p b. if bo_dirty p then kumbar_render_output E p b else b) ps b) = link_of b" for ps b
    by (induction ps arbitrary: b) (simp_all add: render_link)
  show ?thesis by (simp add: kumbar_redraw_def Let_def 1 2)
qed

lemma connected_link: "link_of b = link_of c \<Longrightarrow> br_connected b = br_connected c" "link_of b = link_of c \<Longrightarrow> br_last_attempt b = br_last_attempt c"
  by (simp_all add: link_of_def)

lemma mark_dirty_link [simp]: "link_of (mark_dirty b) = link_of b"
  by (simp add: link_of_def mark_dirty_def map_outputs_def)

text \<open>Without a connection a turn makes one exactly after a silent wait, and not too soon after the last attempt.\<close>

lemma turn_connects:
  assumes "kumbar_turn E r b = Some c" and "\<not> br_connected b"
  shows "br_connected c \<longleftrightarrow>
     bt_ret r = 0 \<and> bt_reach r \<and> IPC_RECONNECT_INTERVAL_S \<le> bt_now r - br_last_attempt b"
proof -
  define b1 where "b1 = (case bt_display r of None \<Rightarrow> b | Some es \<Rightarrow> fold bar_event_step es b)"
  have l: "link_of b1 = link_of b" by (simp add: b1_def events_link split: option.split)
  define b2 where "b2 = (if bt_ret r = 0 \<and> \<not> br_connected b1 then kumbar_ipc_dispatch (bt_reach r) (bt_now r) Again b1 else b1)"
  have c: "c = kumbar_redraw E (bt_ret r = 0) b2"
    using assms by (auto simp: kumbar_turn_def Let_def b1_def [symmetric] b2_def split: if_split_asm)
  have "br_connected c = br_connected b2" unfolding c by (rule connected_link(1) [OF redraw_link])
  moreover have "br_connected b1 = br_connected b" "br_last_attempt b1 = br_last_attempt b"
    using l connected_link by blast+
  ultimately show ?thesis using assms(2)
    by (auto simp: b2_def kumbar_ipc_dispatch_def kumbar_ipc_connect_def mark_dirty_def map_outputs_def)
qed

lemma busy_turn:
  assumes "\<not> br_connected b" and "0 < bt_ret r"
  shows "\<exists>c. kumbar_turn E r b = Some c \<and> link_of c = link_of b"
  using assms events_link [of _ b] by (auto simp: kumbar_turn_def redraw_link Let_def split: option.split)

lemma busy_turns:
  "\<not> br_connected b \<Longrightarrow> list_all (\<lambda>r. 0 < bt_ret r) ts \<Longrightarrow> \<exists>c. run (kumbar_turn E) ts b = Some c \<and> link_of c = link_of b"
proof (induction ts arbitrary: b)
  case Nil
  then show ?case by simp
next
  case (Cons r ts)
  then obtain c where c: "kumbar_turn E r b = Some c" "link_of c = link_of b" using busy_turn by fastforce
  have "\<not> br_connected c" using c(2) Cons.prems(1) connected_link(1) by blast
  with Cons.IH [of c] Cons.prems(2) c show ?case by auto
qed

text \<open>
  Reconnection. A bar that lost the compositor makes no attempt while events of the display keep
  coming, however long that takes; the first wait that ends in silence, three seconds or more
  after the last attempt, connects it again when the compositor can be reached, with an empty
  line buffer.
\<close>

theorem bar_reconnects_after_silence:
  assumes "\<not> br_connected b" and "list_all (\<lambda>r. 0 < bt_ret r) ts"
    and "bt_ret r = 0" and "bt_reach r" and "IPC_RECONNECT_INTERVAL_S \<le> bt_now r - br_last_attempt b"
  shows "\<exists>c d. run (kumbar_turn E) ts b = Some c \<and> \<not> br_connected c \<and>
     kumbar_turn E r c = Some d \<and> br_connected d \<and> br_ibuf d = []"
proof -
  obtain c where c: "run (kumbar_turn E) ts b = Some c" "link_of c = link_of b" using busy_turns assms(1,2) by blast
  then have n: "\<not> br_connected c" "br_last_attempt c = br_last_attempt b"
    using assms(1) connected_link by blast+
  obtain d where d: "kumbar_turn E r c = Some d" using assms(3) by (simp add: kumbar_turn_def Let_def)
  have "br_connected d" using turn_connects [OF d n(1)] assms(3-5) n(2) by simp
  moreover have "br_ibuf d = []"
  proof -
    define b1 where "b1 = (case bt_display r of None \<Rightarrow> c | Some es \<Rightarrow> fold bar_event_step es c)"
    have l: "link_of b1 = link_of c" by (simp add: b1_def events_link split: option.split)
    then have b1: "\<not> br_connected b1" "br_last_attempt b1 = br_last_attempt b" using n connected_link by metis+
    have "d = kumbar_redraw E True (kumbar_ipc_dispatch (bt_reach r) (bt_now r) Again b1)"
      using d assms(3) n(1) b1(1) by (auto simp: kumbar_turn_def Let_def b1_def [symmetric] split: if_split_asm)
    then have "link_of d = link_of (kumbar_ipc_dispatch (bt_reach r) (bt_now r) Again b1)" by (simp add: redraw_link)
    then show ?thesis using b1 assms(4,5)
      by (simp add: kumbar_ipc_dispatch_def kumbar_ipc_connect_def link_of_def mark_dirty_def map_outputs_def)
  qed
  ultimately show ?thesis using c(1) n(1) d by blast
qed

text \<open>
  When the compositor is gone the display is readable for ever and has no events: the loop turns
  without waiting, changes nothing and never ends.
\<close>

lemma redraw_clean: "list_all (\<lambda>p. \<not> bo_dirty p) (br_outputs b) \<Longrightarrow> kumbar_redraw E False b = b"
proof -
  have "list_all (\<lambda>p. \<not> bo_dirty p) ps \<Longrightarrow> fold (\<lambda>p b. if bo_dirty p then kumbar_render_output E p b else b) ps b = b" for ps
    by (induction ps arbitrary: b) simp_all
  then show "list_all (\<lambda>p. \<not> bo_dirty p) (br_outputs b) \<Longrightarrow> ?thesis" by (simp add: kumbar_redraw_def)
qed

lemma dead_display_spins:
  assumes "\<not> br_connected b" and "list_all (\<lambda>p. \<not> bo_dirty p) (br_outputs b)"
    and "list_all (\<lambda>r. 0 < bt_ret r \<and> (bt_display r = None \<or> bt_display r = Some [])) ts"
  shows "run (kumbar_turn E) ts b = Some b"
  using assms(3)
proof (induction ts)
  case (Cons r ts)
  have "kumbar_turn E r b = Some b"
    using Cons.prems assms(1,2) by (auto simp: kumbar_turn_def Let_def redraw_clean)
  with Cons show ?case by simp
qed simp

section \<open>The start\<close>

lemma registry_binds:
  "bg_compositor (fst (fold registry_global as (g, b))) = None \<longleftrightarrow> bg_compositor g = None \<and> ''wl_compositor'' \<notin> snd ` set as"
  "bg_shm (fst (fold registry_global as (g, b))) = None \<longleftrightarrow> bg_shm g = None \<and> ''wl_shm'' \<notin> snd ` set as"
  "bg_layer_shell (fst (fold registry_global as (g, b))) = None \<longleftrightarrow> bg_layer_shell g = None \<and> ''zwlr_layer_shell_v1'' \<notin> snd ` set as"
  by (induction as arbitrary: g b) (auto simp: registry_global_def split: prod.split)

lemma kumbar_main_requires:
  "kumbar_main E display announced addr reach now [] = Bar_Status 1 \<longleftrightarrow>
     \<not> (display \<and> {''wl_compositor'', ''wl_shm'', ''zwlr_layer_shell_v1''} \<subseteq> snd ` set announced)"
proof -
  define b0 where "b0 = \<lparr>br_outputs = [], br_pointer_output = None, br_pointer_x = 0, br_connected = False, br_last_attempt = 0,
      br_ibuf = [], br_out = []\<rparr>"
  obtain g b1 where f: "fold registry_global announced (no_globals, b0) = (g, b1)" by fastforce
  have "bg_compositor no_globals = None" "bg_shm no_globals = None" "bg_layer_shell no_globals = None"
    by (simp_all add: no_globals_def)
  then have "bg_compositor g = None \<longleftrightarrow> ''wl_compositor'' \<notin> snd ` set announced" "bg_shm g = None \<longleftrightarrow> ''wl_shm'' \<notin> snd ` set announced"
    "bg_layer_shell g = None \<longleftrightarrow> ''zwlr_layer_shell_v1'' \<notin> snd ` set announced"
    using registry_binds [where as = announced and g = no_globals and b = b0] f by simp_all
  then show ?thesis by (simp add: kumbar_main_def b0_def [symmetric] f)
qed

section \<open>An example\<close>

definition ex_bar_env :: bar_env where
  "ex_bar_env = \<lparr>b_extents = (\<lambda>_ _ _. (0, 0, 0, 0)), b_clock = ''12:00'', b_shm = (\<lambda>_. True)\<rparr>"

definition ex_turn :: "int \<Rightarrow> int \<Rightarrow> bar_turn" where
  "ex_turn ret now = \<lparr>bt_ret = ret, bt_display = (if ret = 0 then None else Some [Bar_Motion 5]), bt_ipc = None, bt_now = now, bt_reach = True\<rparr>"

definition ex_lost :: bar where
  "ex_lost = ex_bar\<lparr>br_connected := False, br_last_attempt := 100\<rparr>"

lemma bar_reconnects_after_silence_witness:
  "\<exists>c d. run (kumbar_turn ex_bar_env) [ex_turn 1 101, ex_turn 1 300] ex_lost = Some c \<and> \<not> br_connected c \<and>
     kumbar_turn ex_bar_env (ex_turn 0 303) c = Some d \<and> br_connected d \<and> br_ibuf d = []"
  by (rule bar_reconnects_after_silence) (simp_all add: ex_lost_def ex_turn_def IPC_RECONNECT_INTERVAL_S_def)

end
