(* ===== verification/Client_Shm.thy ===== *)
theory Client_Shm
  imports Kum_Prelude
begin

text \<open>
  The memory the clients share with the compositor: how each program makes the buffer of a
  frame (\<open>create_shm_file\<close>, \<open>create_buffer\<close>, \<open>make_buffer\<close> and the frames of \<open>kumbar\<close>,
  \<open>kumlauncher\<close>, \<open>kumnotify\<close>, \<open>kumlock\<close>, \<open>kumwall\<close> and \<open>kumshot\<close>), reads a keymap
  (\<open>kb_keymap\<close>), and what it gives back to the kernel.
\<close>

section \<open>Descriptors, mappings and buffers\<close>

record kernel =
  kn_names :: "string list"     \<comment> \<open>shared memory objects that have a name\<close>
  kn_fds :: "int list"
  kn_maps :: "nat list"
  kn_buffers :: "nat list"
  kn_next :: nat

text \<open>The answers to one attempt: the descriptor \<open>shm_open\<close> gives, \<open>ftruncate\<close> and \<open>mmap\<close>.\<close>

record shm_env =
  sm_fd :: "int option"
  sm_truncate :: bool
  sm_map :: bool

definition shm_close :: "int \<Rightarrow> kernel \<Rightarrow> kernel" where
  "shm_close fd k = k\<lparr>kn_fds := remove1 fd (kn_fds k)\<rparr>"

definition munmap :: "nat \<Rightarrow> kernel \<Rightarrow> kernel" where
  "munmap m k = k\<lparr>kn_maps := remove1 m (kn_maps k)\<rparr>"

definition wl_buffer_destroy :: "nat \<Rightarrow> kernel \<Rightarrow> kernel" where
  "wl_buffer_destroy b k = k\<lparr>kn_buffers := remove1 b (kn_buffers k)\<rparr>"

text \<open>\<open>shm_open\<close> with \<open>O_EXCL\<close>: the \<open>XXXXXX\<close> of the name is not replaced.\<close>

definition create_shm_file :: "string \<Rightarrow> shm_env \<Rightarrow> kernel \<Rightarrow> int option \<times> kernel" where
  "create_shm_file name E k =
     (case sm_fd E of
        None \<Rightarrow> (None, k)
      | Some fd \<Rightarrow>
          if name \<in> set (kn_names k) then (None, k)
          else
            let k1 = k\<lparr>kn_fds := fd # kn_fds k, kn_names := name # kn_names k\<rparr>;
                k2 = k1\<lparr>kn_names := remove1 name (kn_names k1)\<rparr>
            in if \<not> sm_truncate E then (None, shm_close fd k2) else (Some fd, k2))"

text \<open>The buffer and the mapping it is drawn through get the same number.\<close>

definition make_buffer :: "string \<Rightarrow> shm_env \<Rightarrow> kernel \<Rightarrow> nat option \<times> kernel" where
  "make_buffer name E k =
     (case create_shm_file name E k of
        (None, k1) \<Rightarrow> (None, k1)
      | (Some fd, k1) \<Rightarrow>
          if \<not> sm_map E then (None, shm_close fd k1)
          else
            let i = kn_next k1;
                k2 = k1\<lparr>kn_maps := i # kn_maps k1, kn_buffers := i # kn_buffers k1, kn_next := i + 1\<rparr>
            in (Some i, shm_close fd k2))"

section \<open>One frame of each program\<close>

text \<open>The state is the buffer the program holds and the kernel's.\<close>

type_synonym canvas = "nat option \<times> kernel"

definition drop_buffer :: "nat option \<Rightarrow> kernel \<Rightarrow> kernel" where
  "drop_buffer b k = (case b of None \<Rightarrow> k | Some i \<Rightarrow> wl_buffer_destroy i k)"

definition kumbar_shm_file :: "shm_env \<Rightarrow> kernel \<Rightarrow> int option \<times> kernel" where
  "kumbar_shm_file = create_shm_file ''/kumbar-XXXXXX''"

definition create_buffer :: "shm_env \<Rightarrow> kernel \<Rightarrow> nat option \<times> kernel" where
  "create_buffer = make_buffer ''/kumbar-XXXXXX''"

definition kumbar_frame :: "shm_env \<Rightarrow> canvas \<Rightarrow> canvas" where
  "kumbar_frame E = (\<lambda>(b, k). case create_buffer E (drop_buffer b k) of
       (None, k1) \<Rightarrow> (None, k1)
     | (Some i, k1) \<Rightarrow> (Some i, munmap i k1))"

definition launcher_shm_file :: "shm_env \<Rightarrow> kernel \<Rightarrow> int option \<times> kernel" where
  "launcher_shm_file = create_shm_file ''/kumlauncher-XXXXXX''"

definition launcher_make_buffer :: "shm_env \<Rightarrow> kernel \<Rightarrow> nat option \<times> kernel" where
  "launcher_make_buffer = make_buffer ''/kumlauncher-XXXXXX''"

text \<open>The launcher has no \<open>munmap\<close>.\<close>

definition launcher_frame :: "shm_env \<Rightarrow> canvas \<Rightarrow> canvas" where
  "launcher_frame E = (\<lambda>(b, k). launcher_make_buffer E (drop_buffer b k))"

definition notify_shm_file :: "shm_env \<Rightarrow> kernel \<Rightarrow> int option \<times> kernel" where
  "notify_shm_file = create_shm_file ''/kumnotify-XXXXXX''"

definition make_buf :: "shm_env \<Rightarrow> kernel \<Rightarrow> nat option \<times> kernel" where
  "make_buf = make_buffer ''/kumnotify-XXXXXX''"

definition notify_frame :: "shm_env \<Rightarrow> canvas \<Rightarrow> canvas" where
  "notify_frame E = (\<lambda>(b, k). case make_buf E (drop_buffer b k) of
       (None, k1) \<Rightarrow> (None, k1)
     | (Some i, k1) \<Rightarrow> (Some i, munmap i k1))"

text \<open>The other three draw first and drop the old buffer when the new one is there.\<close>

definition redraw_frame :: "string \<Rightarrow> shm_env \<Rightarrow> canvas \<Rightarrow> canvas" where
  "redraw_frame name E = (\<lambda>(b, k). case make_buffer name E k of
       (None, k1) \<Rightarrow> (b, k1)
     | (Some i, k1) \<Rightarrow> (Some i, munmap i (drop_buffer b k1)))"

definition locker_shm_file :: "shm_env \<Rightarrow> kernel \<Rightarrow> int option \<times> kernel" where
  "locker_shm_file = create_shm_file ''/kumlock-XXXXXX''"

definition locker_frame :: "shm_env \<Rightarrow> canvas \<Rightarrow> canvas" where
  "locker_frame = redraw_frame ''/kumlock-XXXXXX''"

definition wall_shm_file :: "shm_env \<Rightarrow> kernel \<Rightarrow> int option \<times> kernel" where
  "wall_shm_file = create_shm_file ''/kumwall-XXXXXX''"

definition wall_buffer_frame :: "shm_env \<Rightarrow> canvas \<Rightarrow> canvas" where
  "wall_buffer_frame = redraw_frame ''/kumwall-XXXXXX''"

definition overlay_shm_file :: "shm_env \<Rightarrow> kernel \<Rightarrow> int option \<times> kernel" where
  "overlay_shm_file = create_shm_file ''/kumshot-overlay-XXXXXX''"

definition overlay_buffer_frame :: "shm_env \<Rightarrow> canvas \<Rightarrow> canvas" where
  "overlay_buffer_frame = redraw_frame ''/kumshot-overlay-XXXXXX''"

section \<open>Keymaps\<close>

text \<open>
  The compositor sends a keymap as a descriptor. The programs hold at most one keymap and its
  state; \<open>parsed\<close> is what xkbcommon makes of the text. The states have numbers.
\<close>

record keyboard_state =
  kb_map :: "nat option"
  kb_state :: "nat option"

definition kb_keymap :: "int \<Rightarrow> bool \<Rightarrow> nat \<Rightarrow> keyboard_state \<times> kernel \<Rightarrow> keyboard_state \<times> kernel" where
  "kb_keymap fd mapped parsed = (\<lambda>(st, k).
     if \<not> mapped then (st, shm_close fd k)
     else
       let i = kn_next k;
           k1 = k\<lparr>kn_maps := i # kn_maps k, kn_next := i + 1\<rparr>
       in (\<lparr>kb_map = Some parsed, kb_state = Some parsed\<rparr>, shm_close fd (munmap i k1)))"

definition locker_kb_keymap :: "int \<Rightarrow> bool \<Rightarrow> nat \<Rightarrow> keyboard_state \<times> kernel \<Rightarrow> keyboard_state \<times> kernel" where
  "locker_kb_keymap = kb_keymap"

definition shot_kb_keymap :: "int \<Rightarrow> bool \<Rightarrow> nat \<Rightarrow> keyboard_state \<times> kernel \<Rightarrow> keyboard_state \<times> kernel" where
  "shot_kb_keymap = kb_keymap"

section \<open>Frames give back what they take\<close>

text \<open>What the program holds besides its one buffer is what it held before its first frame.\<close>

definition tidy :: "kernel \<Rightarrow> canvas \<Rightarrow> bool" where
  "tidy k0 = (\<lambda>(b, k).
     kn_names k = kn_names k0 \<and> kn_fds k = kn_fds k0 \<and> kn_maps k = kn_maps k0 \<and>
     kn_buffers k = (case b of None \<Rightarrow> [] | Some i \<Rightarrow> [i]) @ kn_buffers k0 \<and>
     (case b of None \<Rightarrow> True | Some i \<Rightarrow> i < kn_next k))"

lemma create_shm_file_cases:
  "create_shm_file name E k = (None, k) \<or>
   (\<exists>fd. create_shm_file name E k = (Some fd, k\<lparr>kn_fds := fd # kn_fds k\<rparr>))"
  by (cases "sm_fd E") (auto simp: create_shm_file_def shm_close_def Let_def)

lemma make_buffer_cases:
  "make_buffer name E k = (None, k) \<or>
   make_buffer name E k =
      (Some (kn_next k), k\<lparr>kn_maps := kn_next k # kn_maps k, kn_buffers := kn_next k # kn_buffers k, kn_next := kn_next k + 1\<rparr>)"
  using create_shm_file_cases [of name E k] by (cases k) (auto simp: make_buffer_def shm_close_def Let_def)

lemma make_buffer_made:
  assumes "sm_fd E = Some fd" and "sm_truncate E" and "sm_map E" and "name \<notin> set (kn_names k)"
  shows "make_buffer name E k =
      (Some (kn_next k), k\<lparr>kn_maps := kn_next k # kn_maps k, kn_buffers := kn_next k # kn_buffers k, kn_next := kn_next k + 1\<rparr>)"
  using assms by (cases k) (simp add: make_buffer_def create_shm_file_def shm_close_def Let_def)

locale frame_drawer =
  fixes draw :: "shm_env \<Rightarrow> canvas \<Rightarrow> canvas"
  assumes tidies: "tidy k0 c \<Longrightarrow> tidy k0 (draw E c)"
begin

lemma frames_tidy: "tidy k0 c \<Longrightarrow> tidy k0 (fold draw Es c)"
  by (induction Es arbitrary: c) (simp_all add: tidies)

end

lemma drop_first_tidy:
  assumes "tidy k0 (b, k)"
  shows "tidy k0 (case make_buffer name E (drop_buffer b k) of (None, k1) \<Rightarrow> (None, k1) | (Some i, k1) \<Rightarrow> (Some i, munmap i k1))"
  using make_buffer_cases [of name E "drop_buffer b k"] assms
  by (auto simp: tidy_def drop_buffer_def wl_buffer_destroy_def munmap_def split: option.split)

lemma redraw_tidy:
  assumes "tidy k0 (b, k)"
  shows "tidy k0 (redraw_frame name E (b, k))"
  using make_buffer_cases [of name E k] assms
  by (auto simp: redraw_frame_def tidy_def drop_buffer_def wl_buffer_destroy_def munmap_def split: option.split)

interpretation kumbar_frames: frame_drawer kumbar_frame
proof
  show "tidy k0 (kumbar_frame E c)" if "tidy k0 c" for k0 c E
    using that drop_first_tidy [of k0 "fst c" "snd c"] by (cases c) (simp add: kumbar_frame_def create_buffer_def)
qed

interpretation notify_frames: frame_drawer notify_frame
proof
  show "tidy k0 (notify_frame E c)" if "tidy k0 c" for k0 c E
    using that drop_first_tidy [of k0 "fst c" "snd c"] by (cases c) (simp add: notify_frame_def make_buf_def)
qed

interpretation locker_frames: frame_drawer locker_frame
  by unfold_locales (auto simp: locker_frame_def redraw_tidy)

interpretation wall_frames: frame_drawer wall_buffer_frame
  by unfold_locales (auto simp: wall_buffer_frame_def redraw_tidy)

interpretation overlay_frames: frame_drawer overlay_buffer_frame
  by unfold_locales (auto simp: overlay_buffer_frame_def redraw_tidy)

text \<open>
  C30. Frames and memory. However many frames the bar, the notification daemon, the locker, the wallpaper
  and the overlay of the screenshot client draw, and whichever of the kernel's answers fail on
  the way, each of them holds no descriptor, no mapping and no name more than before its
  first frame, and one buffer at most.
\<close>

theorem frames_release_memory:
  assumes "draw \<in> {kumbar_frame, notify_frame, locker_frame, wall_buffer_frame, overlay_buffer_frame}"
    and "kn_buffers k = []" and "fold draw Es (None, k) = (b, k')"
  shows "kn_names k' = kn_names k \<and> kn_fds k' = kn_fds k \<and> kn_maps k' = kn_maps k \<and>
     kn_buffers k' = (case b of None \<Rightarrow> [] | Some i \<Rightarrow> [i])"
proof -
  have "tidy k (None, k)" by (simp add: tidy_def)
  then have "tidy k (fold draw Es (None, k))"
    using assms(1) kumbar_frames.frames_tidy notify_frames.frames_tidy locker_frames.frames_tidy wall_frames.frames_tidy
      overlay_frames.frames_tidy by blast
  with assms(2,3) show ?thesis by (auto simp: tidy_def)
qed

text \<open>
  The launcher leaks: each frame it draws, one for every key and every motion over a new row,
  leaves a mapping of the size of the window behind.
\<close>

lemma launcher_leaks_frames:
  assumes "list_all (\<lambda>E. sm_fd E \<noteq> None \<and> sm_truncate E \<and> sm_map E) Es" and "''/kumlauncher-XXXXXX'' \<notin> set (kn_names k)"
    and "fold launcher_frame Es (b, k) = (b', k')"
  shows "length (kn_maps k') = length (kn_maps k) + length Es"
  using assms
proof (induction Es arbitrary: b k)
  case Nil
  then show ?case by simp
next
  case (Cons E Es)
  obtain fd where E: "sm_fd E = Some fd" "sm_truncate E" "sm_map E" using Cons.prems(1) by auto
  obtain b1 k1 where f: "launcher_frame E (b, k) = (b1, k1)" by fastforce
  have n: "''/kumlauncher-XXXXXX'' \<notin> set (kn_names (drop_buffer b k))" and m: "kn_maps (drop_buffer b k) = kn_maps k"
      "kn_names (drop_buffer b k) = kn_names k"
    using Cons.prems(2) by (simp_all add: drop_buffer_def wl_buffer_destroy_def split: option.split)
  have "k1 = snd (launcher_make_buffer E (drop_buffer b k))" using f by (simp add: launcher_frame_def)
  then have k1: "length (kn_maps k1) = length (kn_maps k) + 1" "kn_names k1 = kn_names k"
    using make_buffer_made [OF E n] m by (simp_all add: launcher_make_buffer_def)
  have "fold launcher_frame Es (b1, k1) = (b', k')" using Cons.prems(3) f by simp
  moreover have "list_all (\<lambda>E. sm_fd E \<noteq> None \<and> sm_truncate E \<and> sm_map E) Es" using Cons.prems(1) by simp
  ultimately have "length (kn_maps k') = length (kn_maps k1) + length Es"
    using Cons.IH [where b = b1 and k = k1] Cons.prems(2) unfolding k1(2) by blast
  with k1(1) show ?case by simp
qed

lemma keymap_releases:
  assumes "kb_keymap fd mapped parsed (st, k\<lparr>kn_fds := fd # kn_fds k\<rparr>) = (st', k')"
  shows "kn_fds k' = kn_fds k \<and> kn_maps k' = kn_maps k \<and> (mapped \<longrightarrow> kb_state st' = Some parsed) \<and> (\<not> mapped \<longrightarrow> st' = st)"
  using assms by (auto simp: kb_keymap_def munmap_def shm_close_def Let_def split: if_split_asm)

section \<open>An example\<close>

definition ex_kernel :: kernel where
  "ex_kernel = \<lparr>kn_names = [], kn_fds = [3], kn_maps = [0], kn_buffers = [], kn_next = 1\<rparr>"

definition ex_answers :: "shm_env list" where
  "ex_answers = [\<lparr>sm_fd = Some 4, sm_truncate = True, sm_map = True\<rparr>, \<lparr>sm_fd = Some 4, sm_truncate = True, sm_map = False\<rparr>,
     \<lparr>sm_fd = Some 4, sm_truncate = True, sm_map = True\<rparr>]"

lemma frames_release_memory_witness:
  "case fold locker_frame ex_answers (None, ex_kernel) of (b, k) \<Rightarrow> kn_fds k = [3] \<and> kn_maps k = [0] \<and> length (kn_buffers k) = 1"
proof -
  obtain b k where f: "fold locker_frame ex_answers (None, ex_kernel) = (b, k)" by fastforce
  have "fst (fold locker_frame ex_answers (None, ex_kernel)) \<noteq> None" by code_simp
  then have "b \<noteq> None" using f by simp
  then show ?thesis using frames_release_memory [OF _ _ f] f by (auto simp: ex_kernel_def)
qed

end
