(* ===== verification/Kumlauncher.thy ===== *)
theory Kumlauncher
  imports Client_Keys "HOL-Library.Multiset"
begin

text \<open>
  The application launcher (\<open>kumlauncher\<close>): the entries it collects from desktop files
  and from \<open>PATH\<close>, the filter, the list with its selection and scroll position, what is
  drawn, and the keyboard and pointer handlers. The client is a state machine whose
  handlers are \<open>None\<close> when they read or write outside an array.
\<close>

section \<open>The C library calls of the client\<close>

definition to_lower :: "char \<Rightarrow> char" where
  "to_lower c = (if 65 \<le> byte c \<and> byte c \<le> 90 then char_of (byte c + 32) else c)"

text \<open>\<open>strcasecmp\<close>: the difference of the first bytes that differ, 0 for equal strings.\<close>

fun strcasecmp :: "string \<Rightarrow> string \<Rightarrow> int" where
  "strcasecmp [] [] = 0"
| "strcasecmp [] (d # ds) = - int (byte (to_lower d))"
| "strcasecmp (c # cs) [] = int (byte (to_lower c))"
| "strcasecmp (c # cs) (d # ds) =
     (if to_lower c = to_lower d then strcasecmp cs ds else int (byte (to_lower c)) - int (byte (to_lower d)))"

definition strncasecmp_eq :: "string \<Rightarrow> string \<Rightarrow> nat \<Rightarrow> bool" where
  "strncasecmp_eq a b n \<longleftrightarrow> strncmp_eq (map to_lower a) (map to_lower b) n"

definition strcasestr :: "string \<Rightarrow> string \<Rightarrow> bool" where
  "strcasestr a b \<longleftrightarrow> list_ex (\<lambda>k. take (length b) (drop k (map to_lower a)) = map to_lower b) [0..<Suc (length a)]"

section \<open>Desktop files\<close>

definition MAX_ENTRIES :: nat where "MAX_ENTRIES = 1024"
definition MAX_QUERY :: nat where "MAX_QUERY = 128"
definition ITEM_HEIGHT :: int where "ITEM_HEIGHT = 38"
definition VISIBLE_ROWS :: int where "VISIBLE_ROWS = 10"
definition LAUNCHER_WIDTH :: int where "LAUNCHER_WIDTH = 520"

record entry =
  e_name :: string
  e_exec :: string
  e_comment :: string
  e_desktop :: bool

fun strip_from :: "nat \<Rightarrow> string \<Rightarrow> string" where
  "strip_from k [] = []"
| "strip_from k (c # cs) =
     (if k = 0 then []
      else if c = CHR ''%'' \<and> cs \<noteq> [] then strip_from k (tl cs)
      else c # strip_from (k - 1) cs)"

definition strip_field_codes :: "string \<Rightarrow> string" where
  "strip_field_codes ex = trim (strip_from 510 ex)"

record desktop =
  d_in_entry :: bool
  d_no_display :: bool
  d_entry :: entry

datatype desktop_step = Continue desktop | Break desktop | Return

definition desktop_key :: "string \<Rightarrow> string \<Rightarrow> desktop \<Rightarrow> desktop_step" where
  "desktop_key key val d =
     (let e = d_entry d in
      if key = ''Name'' \<and> e_name e = [] then Continue (d\<lparr>d_entry := e\<lparr>e_name := strncpy 255 val\<rparr>\<rparr>)
      else if key = ''Exec'' \<and> e_exec e = [] then Continue (d\<lparr>d_entry := e\<lparr>e_exec := strncpy 511 val\<rparr>\<rparr>)
      else if key = ''Comment'' \<and> e_comment e = [] then Continue (d\<lparr>d_entry := e\<lparr>e_comment := strncpy 255 val\<rparr>\<rparr>)
      else if key = ''NoDisplay'' then Continue (d\<lparr>d_no_display := (val = ''true'')\<rparr>)
      else if key = ''Type'' \<and> val \<noteq> ''Application'' then Return
      else Continue d)"

definition desktop_line :: "string \<Rightarrow> desktop \<Rightarrow> desktop_step" where
  "desktop_line line d =
     (let s = trim line in
      if s \<noteq> [] \<and> hd s = CHR ''['' then
        (if strncmp_eq s ''[Desktop Entry]'' 15 then Continue (d\<lparr>d_in_entry := True\<rparr>)
         else if d_in_entry d then Break d else Continue d)
      else if \<not> d_in_entry d \<or> (s \<noteq> [] \<and> hd s = CHR ''#'') then Continue d
      else case strchr_split CHR ''='' s of
        None \<Rightarrow> Continue d
      | Some (k, v) \<Rightarrow> desktop_key (trim k) (trim v) d)"

fun desktop_lines :: "string list \<Rightarrow> desktop \<Rightarrow> desktop option" where
  "desktop_lines [] d = Some d"
| "desktop_lines (l # ls) d =
     (case desktop_line l d of Continue d' \<Rightarrow> desktop_lines ls d' | Break d' \<Rightarrow> Some d' | Return \<Rightarrow> None)"

definition blank_entry :: entry where
  "blank_entry = \<lparr>e_name = [], e_exec = [], e_comment = [], e_desktop = True\<rparr>"

definition parse_desktop_file :: "string option \<Rightarrow> entry list \<Rightarrow> entry list" where
  "parse_desktop_file file es =
     (if MAX_ENTRIES \<le> length es then es
      else case file of
        None \<Rightarrow> es
      | Some text \<Rightarrow>
          (case desktop_lines (fgets_lines 512 text) \<lparr>d_in_entry = False, d_no_display = False, d_entry = blank_entry\<rparr> of
             None \<Rightarrow> es
           | Some d \<Rightarrow>
               let e = d_entry d in
               if \<not> d_in_entry d \<or> e_name e = [] \<or> e_exec e = [] \<or> d_no_display d then es
               else
                 let e' = e\<lparr>e_exec := strip_field_codes (e_exec e)\<rparr> in
                 if list_ex (\<lambda>f. e_name f = e_name e') es then es else es @ [e']))"

section \<open>Collecting the entries\<close>

text \<open>What the client reads from the system: its environment, directories, files, and the execute bit.\<close>

record launcher_env =
  l_getenv :: "string \<Rightarrow> string option"
  l_readdir :: "string \<Rightarrow> string list option"
  l_file :: "string \<Rightarrow> string option"
  l_executable :: "string \<Rightarrow> bool"
  l_buffer :: "int \<Rightarrow> int \<Rightarrow> bool"     \<comment> \<open>shared memory for a buffer of this size\<close>
  l_advance :: "string \<Rightarrow> bool \<Rightarrow> rat"  \<comment> \<open>width of a text in the plain or bold font\<close>

definition is_desktop_name :: "string \<Rightarrow> bool" where
  "is_desktop_name n \<longleftrightarrow> 9 \<le> length n \<and> drop (length n - 8) n = ''.desktop''"

definition home_apps :: "launcher_env \<Rightarrow> string" where
  "home_apps E =
     (case l_getenv E ''XDG_DATA_HOME'' of
        Some d \<Rightarrow> snprintf 512 (d @ ''/applications'')
      | None \<Rightarrow> (case l_getenv E ''HOME'' of
          Some h \<Rightarrow> snprintf 512 (h @ ''/.local/share/applications'')
        | None \<Rightarrow> []))"

text \<open>
  \<open>None\<close>: \<open>strncpy\<close> filled the array to its last but one byte and the last one, which
  was never written, is read as part of the string.
\<close>

definition copied :: "nat \<Rightarrow> string \<Rightarrow> string option" where
  "copied n s = (if length s < n - 1 then Some s else None)"

definition search_dirs :: "launcher_env \<Rightarrow> string list option" where
  "search_dirs E =
     (let data = (case l_getenv E ''XDG_DATA_DIRS'' of Some d \<Rightarrow> d | None \<Rightarrow> ''/usr/local/share:/usr/share'');
          home = home_apps E in
      map_option (strtok_all CHR '':'')
        (if home \<noteq> [] then Some (snprintf 4096 (home @ '':'' @ data)) else copied 4096 data))"

definition desktop_dir :: "launcher_env \<Rightarrow> string \<Rightarrow> entry list \<Rightarrow> entry list" where
  "desktop_dir E token es =
     (if MAX_ENTRIES \<le> length es then es
      else let appdir = snprintf 512 (token @ ''/applications'') in
      case l_readdir E appdir of
        None \<Rightarrow> es
      | Some names \<Rightarrow>
          fold (\<lambda>n es. if length es < MAX_ENTRIES \<and> is_desktop_name n
                        then parse_desktop_file (l_file E (snprintf 768 (appdir @ ''/'' @ n))) es else es) names es)"

definition collect_desktop_entries :: "launcher_env \<Rightarrow> entry list \<Rightarrow> entry list option" where
  "collect_desktop_entries E es = map_option (\<lambda>dirs. fold (desktop_dir E) dirs es) (search_dirs E)"

definition path_file :: "launcher_env \<Rightarrow> string \<Rightarrow> string \<Rightarrow> entry list \<Rightarrow> entry list" where
  "path_file E dir n es =
     (if MAX_ENTRIES \<le> length es then es
      else if n \<noteq> [] \<and> hd n = CHR ''.'' then es
      else if list_ex (\<lambda>e. (if e_desktop e then e_exec e else e_name e) = n) es then es
      else if l_executable E (snprintf 512 (dir @ ''/'' @ n))
      then es @ [\<lparr>e_name = strncpy 255 n, e_exec = strncpy 511 n, e_comment = [], e_desktop = False\<rparr>]
      else es)"

definition path_dir :: "launcher_env \<Rightarrow> string \<Rightarrow> entry list \<Rightarrow> entry list" where
  "path_dir E dir es =
     (if MAX_ENTRIES \<le> length es then es
      else case l_readdir E dir of None \<Rightarrow> es | Some names \<Rightarrow> fold (path_file E dir) names es)"

definition collect_path_entries :: "launcher_env \<Rightarrow> entry list \<Rightarrow> entry list option" where
  "collect_path_entries E es =
     (case l_getenv E ''PATH'' of
        None \<Rightarrow> Some es
      | Some p \<Rightarrow> map_option (\<lambda>path. fold (path_dir E) (strtok_all CHR '':'' path) es) (copied 4096 p))"

definition entry_cmp :: "entry \<Rightarrow> entry \<Rightarrow> int" where
  "entry_cmp a b =
     (if e_desktop a \<noteq> e_desktop b then (if e_desktop a then -1 else 1) else strcasecmp (e_name a) (e_name b))"

section \<open>The client's state\<close>

datatype launcher_draw =
    Background int int
  | SearchBox int int
  | Prompt string bool
  | Highlight int int int int
  | Label string bool rat rat
  | Comment string rat rat
  | Thumb int int int int

datatype launcher_out = Frame int int "launcher_draw list" | NoBuffer | Exec string

record launcher =
  la_running :: bool
  la_configured :: bool
  la_width :: int
  la_keymap :: bool
  la_query :: string
  la_entries :: "entry list"
  la_filtered :: "nat list"
  la_selected :: int
  la_scroll :: int
  la_pointer_y :: rat
  la_out :: "launcher_out list"

definition filtered_count :: "launcher \<Rightarrow> int" where
  "filtered_count s = int (length (la_filtered s))"

definition prefix_match :: "launcher \<Rightarrow> nat \<Rightarrow> bool" where
  "prefix_match s i = strncasecmp_eq (e_name (la_entries s ! i)) (c_str (la_query s)) (length (la_query s))"

definition inner_match :: "launcher \<Rightarrow> nat \<Rightarrow> bool" where
  "inner_match s i = strcasestr (e_name (la_entries s ! i)) (c_str (la_query s))"

definition filter_entries :: "launcher \<Rightarrow> launcher" where
  "filter_entries s =
     (let s0 = s\<lparr>la_selected := 0, la_scroll := 0\<rparr>;
          all = [0..<length (la_entries s)] in
      if la_query s = [] then s0\<lparr>la_filtered := all\<rparr>
      else
        let first = filter (prefix_match s) all in
        s0\<lparr>la_filtered := fold (\<lambda>i f. if i \<notin> set f \<and> inner_match s i then f @ [i] else f) all first\<rparr>)"

definition launch_selected :: "launcher \<Rightarrow> launcher option" where
  "launch_selected s =
     (if la_filtered s = [] then Some s
      else if la_selected s < 0 \<or> filtered_count s \<le> la_selected s then None
      else Some (s\<lparr>la_out := Exec (e_exec (la_entries s ! (la_filtered s ! nat (la_selected s)))) # la_out s,
                  la_running := False\<rparr>))"

section \<open>Drawing\<close>

definition draw_row :: "launcher_env \<Rightarrow> launcher \<Rightarrow> int \<Rightarrow> launcher_draw list" where
  "draw_row E s i =
     (let idx = la_scroll s + i;
          e = la_entries s ! (la_filtered s ! nat idx);
          sel = (idx = la_selected s);
          y = ITEM_HEIGHT + i * ITEM_HEIGHT;
          base = f64 (of_int y + f64 (of_int ITEM_HEIGHT * f64 (62 / 100)))
      in (if sel then [Highlight 2 (y + 2) (la_width s - 4) (ITEM_HEIGHT - 4)] else []) @
         [Label (e_name e) sel 14 base] @
         (if e_comment e \<noteq> [] then [Comment (e_comment e) (f64 (f64 (14 + l_advance E (e_name e) sel) + 10)) base] else []))"

definition draw_thumb :: "launcher \<Rightarrow> int \<Rightarrow> launcher_draw list" where
  "draw_thumb s h =
     (if VISIBLE_ROWS < filtered_count s then
        (let track_h = h - ITEM_HEIGHT;
             thumb_h = max 20 (track_h * VISIBLE_ROWS div filtered_count s);
             thumb_y = ITEM_HEIGHT + (track_h - thumb_h) * la_scroll s div (filtered_count s - VISIBLE_ROWS)
         in [Thumb (la_width s - 4) thumb_y 3 thumb_h])
      else [])"

definition launcher_rows :: "launcher \<Rightarrow> int" where
  "launcher_rows s = min (filtered_count s) VISIBLE_ROWS"

text \<open>\<open>None\<close>: a row reads before the start of the array.\<close>

definition launcher_render :: "launcher_env \<Rightarrow> launcher \<Rightarrow> launcher option" where
  "launcher_render E s =
     (if \<not> la_configured s \<or> la_width s = 0 then Some s
      else
        let rows = launcher_rows s; h = ITEM_HEIGHT + rows * ITEM_HEIGHT + 4 in
        if \<not> l_buffer E (la_width s) h then Some (s\<lparr>la_out := NoBuffer # la_out s\<rparr>)
        else if 0 < rows \<and> la_scroll s < 0 then None
        else Some (s\<lparr>la_out := Frame (la_width s) h
            ([Background (la_width s) h, SearchBox (la_width s) ITEM_HEIGHT,
              Prompt (if la_query s \<noteq> [] then c_str (la_query s) @ ''|'' else ''Search...|'') (la_query s \<noteq> [])] @
             concat (map (draw_row E s) (takeWhile (\<lambda>i. la_scroll s + i < filtered_count s) [0..rows - 1])) @
             draw_thumb s h) # la_out s\<rparr>))"

section \<open>Handlers\<close>

text \<open>A key comes with what xkbcommon says of it, its keysym and its text.\<close>

definition type_text :: "launcher_env \<Rightarrow> string \<Rightarrow> launcher \<Rightarrow> launcher option" where
  "type_text E u s =
     (if u \<noteq> [] \<and> length (la_query s) + length u < MAX_QUERY - 1 then
        do { b \<leftarrow> key_bytes u; launcher_render E (filter_entries (s\<lparr>la_query := la_query s @ b\<rparr>)) }
      else Some s)"

definition select_up :: "launcher_env \<Rightarrow> launcher \<Rightarrow> launcher option" where
  "select_up E s =
     (if 0 < la_selected s then
        let k = la_selected s - 1 in
        launcher_render E (s\<lparr>la_selected := k, la_scroll := (if k < la_scroll s then k else la_scroll s)\<rparr>)
      else Some s)"

definition select_down :: "launcher_env \<Rightarrow> launcher \<Rightarrow> launcher option" where
  "select_down E s =
     (if la_selected s < filtered_count s - 1 then
        let k = la_selected s + 1 in
        launcher_render E (s\<lparr>la_selected := k,
          la_scroll := (if la_scroll s + VISIBLE_ROWS \<le> k then k - VISIBLE_ROWS + 1 else la_scroll s)\<rparr>)
      else Some s)"

definition page_up :: "launcher_env \<Rightarrow> launcher \<Rightarrow> launcher option" where
  "page_up E s =
     (let k = max 0 (la_selected s - VISIBLE_ROWS) in
      launcher_render E (s\<lparr>la_selected := k, la_scroll := (if k < la_scroll s then k else la_scroll s)\<rparr>))"

definition page_down :: "launcher_env \<Rightarrow> launcher \<Rightarrow> launcher option" where
  "page_down E s =
     (let k = (if filtered_count s \<le> la_selected s + VISIBLE_ROWS then filtered_count s - 1
               else la_selected s + VISIBLE_ROWS) in
      launcher_render E (s\<lparr>la_selected := k,
        la_scroll := (if la_scroll s + VISIBLE_ROWS \<le> k then k - VISIBLE_ROWS + 1 else la_scroll s)\<rparr>))"

definition launcher_handle_key :: "launcher_env \<Rightarrow> string \<Rightarrow> string \<Rightarrow> bool \<Rightarrow> launcher \<Rightarrow> launcher option" where
  "launcher_handle_key E ks utf8 pressed s =
     (if \<not> pressed then Some s
      else if \<not> la_keymap s then None
      else if ks = ''Escape'' then Some (s\<lparr>la_running := False\<rparr>)
      else if ks = ''Return'' \<or> ks = ''KP_Enter'' then launch_selected s
      else if ks = ''BackSpace'' then
        (if la_query s \<noteq> [] then launcher_render E (filter_entries (s\<lparr>la_query := butlast (la_query s)\<rparr>)) else Some s)
      else if ks = ''Up'' then select_up E s
      else if ks = ''Down'' then select_down E s
      else if ks = ''Page_Up'' then page_up E s
      else if ks = ''Page_Down'' then page_down E s
      else type_text E utf8 s)"

definition row_at :: "launcher \<Rightarrow> rat \<Rightarrow> int" where
  "row_at s y =
     (if y < of_int ITEM_HEIGHT then -1
      else
        let row = trunc (f64 (f64 (y - of_int ITEM_HEIGHT) / of_int ITEM_HEIGHT));
            idx = la_scroll s + row
        in if row < 0 \<or> filtered_count s \<le> idx then -1
           else if launcher_rows s \<le> row then -1
           else idx)"

definition launcher_motion :: "launcher_env \<Rightarrow> rat \<Rightarrow> launcher \<Rightarrow> launcher option" where
  "launcher_motion E y s =
     (let s1 = s\<lparr>la_pointer_y := y\<rparr>; idx = row_at s1 y in
      if 0 \<le> idx \<and> idx \<noteq> la_selected s1 then launcher_render E (s1\<lparr>la_selected := idx\<rparr>) else Some s1)"

definition launcher_button :: "bool \<Rightarrow> bool \<Rightarrow> launcher \<Rightarrow> launcher option" where
  "launcher_button left pressed s =
     (if \<not> left \<or> \<not> pressed then Some s
      else let idx = row_at s (la_pointer_y s) in
        if idx < 0 then Some s else launch_selected (s\<lparr>la_selected := idx\<rparr>))"

definition launcher_axis :: "launcher_env \<Rightarrow> bool \<Rightarrow> int \<Rightarrow> launcher \<Rightarrow> launcher option" where
  "launcher_axis E vertical v s =
     (if \<not> vertical then Some s
      else if 0 < v \<and> la_selected s < filtered_count s - 1 then select_down E s
      else if v < 0 \<and> 0 < la_selected s then select_up E s
      else Some s)"

definition launcher_configure :: "launcher_env \<Rightarrow> int \<Rightarrow> launcher \<Rightarrow> launcher option" where
  "launcher_configure E w s =
     launcher_render E (s\<lparr>la_width := (if w \<noteq> 0 then w else LAUNCHER_WIDTH), la_configured := True\<rparr>)"

datatype launcher_event =
    LKeymap bool               \<comment> \<open>a keymap; whether it could be mapped\<close>
  | LKey string string bool
  | LEnter rat
  | LMotion rat
  | LButton bool bool
  | LAxis bool int
  | LConfigure int
  | LClosed

fun launcher_step :: "launcher_env \<Rightarrow> launcher_event \<Rightarrow> launcher \<Rightarrow> launcher option" where
  "launcher_step E (LKeymap mapped) s = Some (if mapped then s\<lparr>la_keymap := True\<rparr> else s)"
| "launcher_step E (LKey ks u p) s = launcher_handle_key E ks u p s"
| "launcher_step E (LEnter y) s = Some (s\<lparr>la_pointer_y := y\<rparr>)"
| "launcher_step E (LMotion y) s = launcher_motion E y s"
| "launcher_step E (LButton l p) s = launcher_button l p s"
| "launcher_step E (LAxis vert v) s = launcher_axis E vert v s"
| "launcher_step E (LConfigure w) s = launcher_configure E w s"
| "launcher_step E LClosed s = Some (s\<lparr>la_running := False\<rparr>)"

text \<open>\<open>main\<close> up to its event loop; \<open>qs\<close> is the library's \<open>qsort\<close> with the comparison of the entries.\<close>

definition launcher_start :: "launcher_env \<Rightarrow> ((entry \<Rightarrow> entry \<Rightarrow> int) \<Rightarrow> entry list \<Rightarrow> entry list) \<Rightarrow> launcher option" where
  "launcher_start E qs =
     do { es \<leftarrow> collect_desktop_entries E [];
          es' \<leftarrow> collect_path_entries E es;
          Some (filter_entries
            \<lparr>la_running = True, la_configured = False, la_width = LAUNCHER_WIDTH, la_keymap = False, la_query = [],
             la_entries = qs entry_cmp es', la_filtered = [], la_selected = 0, la_scroll = 0, la_pointer_y = 0,
             la_out = []\<rparr>) }"

section \<open>The filter\<close>

lemma fold_add_new:
  "distinct xs \<Longrightarrow> fold (\<lambda>i f. if i \<notin> set f \<and> P i then f @ [i] else f) xs f0
     = f0 @ filter (\<lambda>i. i \<notin> set f0 \<and> P i) xs"
proof (induction xs arbitrary: f0)
  case (Cons x xs)
  then have "filter (\<lambda>i. i \<notin> set (f0 @ [x]) \<and> P i) xs = filter (\<lambda>i. i \<notin> set f0 \<and> P i) xs"
    by (intro filter_cong) auto
  with Cons show ?case by auto
qed simp

lemma filter_entries_fields [simp]:
  "la_entries (filter_entries s) = la_entries s" "la_query (filter_entries s) = la_query s"
  "la_selected (filter_entries s) = 0" "la_scroll (filter_entries s) = 0" "la_keymap (filter_entries s) = la_keymap s"
  by (simp_all add: filter_entries_def Let_def)

lemma filtered_eq:
  "la_filtered (filter_entries s) =
     (let all = [0..<length (la_entries s)] in
      if la_query s = [] then all
      else filter (prefix_match s) all @ filter (\<lambda>i. \<not> prefix_match s i \<and> inner_match s i) all)"
proof (cases "la_query s = []")
  case False
  have "filter (\<lambda>i. i \<notin> set (filter (prefix_match s) [0..<n]) \<and> inner_match s i) [0..<n]
      = filter (\<lambda>i. \<not> prefix_match s i \<and> inner_match s i) [0..<n]" for n
    by (intro filter_cong) auto
  with False show ?thesis by (simp add: filter_entries_def Let_def fold_add_new)
qed (simp add: filter_entries_def)

lemma filtered_distinct [simp]: "distinct (la_filtered (filter_entries s))"
  by (auto simp: filtered_eq Let_def)

lemma filtered_bound: "i \<in> set (la_filtered (filter_entries s)) \<Longrightarrow> i < length (la_entries s)"
  by (auto simp: filtered_eq Let_def split: if_splits)

text \<open>A prefix match is an inner match, so the matches of the filter are the substring matches.\<close>

lemma strncmp_prefix: "CHR 0x00 \<notin> set q \<Longrightarrow> strncmp_eq a q (length q) \<Longrightarrow> take (length q) a = q"
proof -
  assume q: "CHR 0x00 \<notin> set q" and e: "strncmp_eq a q (length q)"
  have t: "take (length q) (a @ [CHR 0x00]) = q" using e by (simp add: strncmp_eq_def)
  have "length q \<le> length a"
  proof (rule ccontr)
    assume "\<not> length q \<le> length a"
    then have "q = take (length q) (a @ [CHR 0x00])" "length a < length q" using t by auto
    then have "q = a @ [CHR 0x00]" by (metis Suc_leI length_append_singleton take_all)
    with q show False by simp
  qed
  with t show ?thesis by simp
qed

lemma to_lower_NUL [simp]: "to_lower c = CHR 0x00 \<longleftrightarrow> c = CHR 0x00"
proof (cases "65 \<le> byte c \<and> byte c \<le> 90")
  case True
  then have "byte (to_lower c) \<noteq> byte CHR 0x00" by (simp add: to_lower_def byte_def)
  moreover have "byte c \<noteq> byte CHR 0x00" using True by (simp add: byte_def)
  ultimately show ?thesis by auto
next
  case False
  then show ?thesis by (simp only: to_lower_def if_False)
qed

lemma strcasestr_prefix: "take (length q) (map to_lower a) = map to_lower q \<Longrightarrow> strcasestr a q"
  unfolding strcasestr_def list_ex_iff by (rule bexI [of _ 0]) auto

lemma prefix_inner:
  assumes "CHR 0x00 \<notin> set (la_query s)" and "prefix_match s i"
  shows "inner_match s i"
proof -
  have "CHR 0x00 \<notin> set (map to_lower (la_query s))" using assms(1) by (auto dest: sym)
  from strncmp_prefix [OF this, of "map to_lower (e_name (la_entries s ! i))"] show ?thesis
    using assms by (simp add: prefix_match_def inner_match_def strncasecmp_eq_def c_str_id strcasestr_prefix)
qed

lemma two_valued_sort:
  "sort_key (\<lambda>i. if P i then 0 else 1 :: nat) xs = filter P xs @ filter (\<lambda>i. \<not> P i) xs"
proof (rule properties_for_sort_key)
  have "mset (filter P xs) + mset (filter (\<lambda>i. \<not> P i) xs) = mset xs" by (simp add: mset_filter)
  then show "mset (filter P xs @ filter (\<lambda>i. \<not> P i) xs) = mset xs" by simp
  have "sorted (map (\<lambda>i. if P i then 0 else 1 :: nat) (filter P xs))"
    "sorted (map (\<lambda>i. if P i then 0 else 1 :: nat) (filter (\<lambda>i. \<not> P i) xs))" by (induction xs) auto
  then show "sorted (map (\<lambda>i. if P i then 0 else 1 :: nat) (filter P xs @ filter (\<lambda>i. \<not> P i) xs))"
    by (auto simp: sorted_append)
qed (auto simp: filter_empty_conv intro: filter_cong)

text \<open>
  C24. The launcher lists, in the order of its entries, first those whose name starts with
  the query and then those that contain it anywhere, whatever the case of the letters:
  a stable sort by rank of the entries whose name contains the query.
\<close>

theorem filter_ranks_matches:
  assumes "la_query s \<noteq> []" and "CHR 0x00 \<notin> set (la_query s)"
  shows "la_filtered (filter_entries s) =
     sort_key (\<lambda>i. if take (length (la_query s)) (map to_lower (e_name (la_entries s ! i))) = map to_lower (la_query s)
                    then 0 else 1 :: nat)
       (filter (\<lambda>i. strcasestr (e_name (la_entries s ! i)) (la_query s)) [0..<length (la_entries s)])"
proof -
  have m: "inner_match s i \<longleftrightarrow> strcasestr (e_name (la_entries s ! i)) (la_query s)" for i
    using assms by (simp add: inner_match_def c_str_id)
  have nz: "CHR 0x00 \<notin> set (map to_lower (la_query s))" using assms(2) by (auto dest: sym)
  have p: "prefix_match s i \<longleftrightarrow> take (length (la_query s)) (map to_lower (e_name (la_entries s ! i))) = map to_lower (la_query s)" for i
  proof
    assume "prefix_match s i"
    then show "take (length (la_query s)) (map to_lower (e_name (la_entries s ! i))) = map to_lower (la_query s)"
      using strncmp_prefix [OF nz] assms(2) by (simp add: prefix_match_def strncasecmp_eq_def c_str_id)
  next
    assume t: "take (length (la_query s)) (map to_lower (e_name (la_entries s ! i))) = map to_lower (la_query s)"
    then have "length (la_query s) \<le> length (e_name (la_entries s ! i))"
      by (metis length_map length_take min.absorb_iff2)
    then show "prefix_match s i"
      using t assms(2) by (simp add: prefix_match_def strncasecmp_eq_def c_str_id strncmp_eq_def)
  qed
  have f: "filter (prefix_match s) (filter (inner_match s) xs) = filter (prefix_match s) xs"
    "filter (\<lambda>i. \<not> prefix_match s i) (filter (inner_match s) xs) = filter (\<lambda>i. \<not> prefix_match s i \<and> inner_match s i) xs" for xs
    using prefix_inner [OF assms(2)] by (auto intro: filter_cong)
  show ?thesis
    unfolding m [symmetric] p [symmetric] two_valued_sort f using assms(1) by (simp add: filtered_eq Let_def)
qed

definition ex_launcher :: launcher where
  "ex_launcher =
    \<lparr>la_running = True, la_configured = True, la_width = 520, la_keymap = True, la_query = ''fi'',
     la_entries = map (\<lambda>n. \<lparr>e_name = n, e_exec = n, e_comment = [], e_desktop = False\<rparr>) [''gfind'', ''Firefox'', ''ls'', ''File''],
     la_filtered = [], la_selected = 0, la_scroll = 0, la_pointer_y = 0, la_out = []\<rparr>"

lemma ex_launcher_query: "la_query ex_launcher \<noteq> []" "CHR 0x00 \<notin> set (la_query ex_launcher)"
  by (simp_all add: ex_launcher_def)

lemma filter_ranks_matches_witness:
  "la_filtered (filter_entries ex_launcher) = [1, 3, 0]"
  unfolding filter_ranks_matches [OF ex_launcher_query] by code_simp

section \<open>The selection is always a row on the screen\<close>

definition launcher_ok :: "launcher \<Rightarrow> bool" where
  "launcher_ok s \<longleftrightarrow>
     la_keymap s \<and> length (la_entries s) \<le> MAX_ENTRIES \<and> length (la_query s) < MAX_QUERY \<and>
     distinct (la_filtered s) \<and> (\<forall>i \<in> set (la_filtered s). i < length (la_entries s)) \<and>
     0 \<le> la_scroll s \<and> la_scroll s \<le> max 0 (filtered_count s - VISIBLE_ROWS) \<and>
     (la_filtered s \<noteq> [] \<longrightarrow>
        0 \<le> la_selected s \<and> la_selected s < filtered_count s \<and>
        la_scroll s \<le> la_selected s \<and> la_selected s < la_scroll s + VISIBLE_ROWS) \<and>
     (la_filtered s = [] \<longrightarrow> -1 \<le> la_selected s \<and> la_selected s \<le> 0)"

text \<open>The fields the invariant speaks of; drawing only adds to the output.\<close>

lemma render_effect:
  assumes "0 \<le> la_scroll s"
  shows "\<exists>o'. launcher_render E s = Some (s\<lparr>la_out := o'\<rparr>)"
  using assms by (auto simp: launcher_render_def Let_def intro: exI [of _ "la_out s"])

lemma ok_out [simp]: "launcher_ok (s\<lparr>la_out := o'\<rparr>) = launcher_ok s"
  by (simp add: launcher_ok_def filtered_count_def)

lemma render_ok:
  assumes "launcher_ok s"
  shows "\<exists>t. launcher_render E s = Some t \<and> launcher_ok t"
  using assms render_effect [of s E] by (auto simp: launcher_ok_def filtered_count_def)

lemma filter_ok:
  assumes "la_keymap s" and "length (la_entries s) \<le> MAX_ENTRIES" and "length (la_query s) < MAX_QUERY"
  shows "launcher_ok (filter_entries s)"
  using assms by (auto simp: launcher_ok_def filtered_count_def VISIBLE_ROWS_def dest: filtered_bound)

lemma moved_ok:
  assumes "launcher_ok s" and "0 \<le> k'" and "k' \<le> max 0 (filtered_count s - VISIBLE_ROWS)"
    and "la_filtered s \<noteq> [] \<Longrightarrow> 0 \<le> k \<and> k < filtered_count s \<and> k' \<le> k \<and> k < k' + VISIBLE_ROWS"
    and "la_filtered s = [] \<Longrightarrow> -1 \<le> k \<and> k \<le> 0"
  shows "\<exists>t. launcher_render E (s\<lparr>la_selected := k, la_scroll := k'\<rparr>) = Some t \<and> launcher_ok t"
  by (rule render_ok) (use assms in \<open>auto simp: launcher_ok_def filtered_count_def\<close>)

lemma ok_bounds:
  assumes "launcher_ok s" and "la_filtered s \<noteq> []"
  shows "0 \<le> la_selected s" "la_selected s < filtered_count s" "la_scroll s \<le> la_selected s"
    "la_selected s < la_scroll s + 10" "0 \<le> la_scroll s" "la_scroll s \<le> max 0 (filtered_count s - 10)"
  using assms by (simp_all add: launcher_ok_def VISIBLE_ROWS_def)

lemma ok_empty:
  assumes "launcher_ok s" and "la_filtered s = []"
  shows "la_selected s \<le> 0" "la_scroll s = 0" "filtered_count s = 0" "-1 \<le> la_selected s"
  using assms by (simp_all add: launcher_ok_def filtered_count_def VISIBLE_ROWS_def)

lemma select_ok:
  assumes "launcher_ok s"
  shows "\<exists>t. select_up E s = Some t \<and> launcher_ok t" and "\<exists>t. select_down E s = Some t \<and> launcher_ok t"
    and "\<exists>t. page_up E s = Some t \<and> launcher_ok t" and "\<exists>t. page_down E s = Some t \<and> launcher_ok t"
proof -
  note b = ok_bounds [OF assms] ok_empty [OF assms]
  show "\<exists>t. select_up E s = Some t \<and> launcher_ok t"
  proof (cases "0 < la_selected s")
    case True
    then have "la_filtered s \<noteq> []" using b by force
    then show ?thesis unfolding select_up_def Let_def using True b(1-6)
      by (simp only: if_True) (rule moved_ok [OF assms]; auto simp: VISIBLE_ROWS_def)
  qed (use assms in \<open>simp add: select_up_def\<close>)
  show "\<exists>t. select_down E s = Some t \<and> launcher_ok t"
  proof (cases "la_selected s < filtered_count s - 1 \<and> la_filtered s \<noteq> []")
    case True
    then show ?thesis unfolding select_down_def Let_def using b(1-6)
      by (simp only: if_True) (rule moved_ok [OF assms]; auto simp: VISIBLE_ROWS_def)
  next
    case False
    then have "\<not> la_selected s < filtered_count s - 1" using b by force
    then show ?thesis using assms by (simp add: select_down_def)
  qed
  show "\<exists>t. page_up E s = Some t \<and> launcher_ok t"
    unfolding page_up_def Let_def
    by (rule moved_ok [OF assms]; cases "la_filtered s = []"; use b in \<open>auto simp: VISIBLE_ROWS_def\<close>)
  show "\<exists>t. page_down E s = Some t \<and> launcher_ok t"
    unfolding page_down_def Let_def
    by (rule moved_ok [OF assms]; cases "la_filtered s = []"; use b in \<open>auto simp: VISIBLE_ROWS_def\<close>)
qed

lemma launch_ok:
  assumes "launcher_ok s"
  shows "\<exists>t. launch_selected s = Some t \<and> launcher_ok t"
  using assms by (auto simp: launch_selected_def launcher_ok_def filtered_count_def)

lemma row_at_range: "0 \<le> row_at s y \<Longrightarrow>
    la_scroll s \<le> row_at s y \<and> row_at s y < filtered_count s \<and> row_at s y < la_scroll s + VISIBLE_ROWS"
  by (auto simp: row_at_def Let_def launcher_rows_def split: if_splits)

lemma ok_point [simp]: "launcher_ok (s\<lparr>la_pointer_y := y\<rparr>) = launcher_ok s"
  "row_at (s\<lparr>la_pointer_y := y\<rparr>) z = row_at s z"
  by (simp_all add: launcher_ok_def filtered_count_def row_at_def launcher_rows_def Let_def)

lemma ok_select:
  assumes "launcher_ok s" and "0 \<le> row_at s y"
  shows "launcher_ok (s\<lparr>la_selected := row_at s y\<rparr>)"
  using assms row_at_range [OF assms(2)] by (auto simp: launcher_ok_def filtered_count_def)

lemma motion_ok: "launcher_ok s \<Longrightarrow> \<exists>t. launcher_motion E y s = Some t \<and> launcher_ok t"
  using ok_select [of "s\<lparr>la_pointer_y := y\<rparr>" y] by (auto simp: launcher_motion_def Let_def intro!: render_ok)

lemma button_ok: "launcher_ok s \<Longrightarrow> \<exists>t. launcher_button l p s = Some t \<and> launcher_ok t"
  by (auto simp: launcher_button_def Let_def intro!: launch_ok ok_select)

lemma refilter_ok:
  assumes "launcher_ok s" and "length q < MAX_QUERY"
  shows "\<exists>t. launcher_render E (filter_entries (s\<lparr>la_query := q\<rparr>)) = Some t \<and> launcher_ok t"
  by (intro render_ok filter_ok) (use assms in \<open>simp_all add: launcher_ok_def\<close>)

lemma key_ok:
  assumes "launcher_ok s" and "length u \<le> 8"
  shows "\<exists>t. launcher_handle_key E ks u p s = Some t \<and> launcher_ok t"
proof -
  have q: "length (la_query s) < MAX_QUERY" and k: "la_keymap s" using assms(1) by (simp_all add: launcher_ok_def)
  have esc: "launcher_ok (s\<lparr>la_running := False\<rparr>)" using assms(1) by (simp add: launcher_ok_def filtered_count_def)
  have tx: "\<exists>t. type_text E u s = Some t \<and> launcher_ok t"
    using assms by (auto simp: type_text_def key_bytes_def MAX_QUERY_def intro!: refilter_ok)
  have bs: "\<exists>t. launcher_render E (filter_entries (s\<lparr>la_query := butlast (la_query s)\<rparr>)) = Some t \<and> launcher_ok t"
    using assms(1) q by (intro refilter_ok) auto
  show ?thesis
    unfolding launcher_handle_key_def
    using k esc tx bs launch_ok [OF assms(1)] select_ok [OF assms(1), of E] assms(1) by simp
qed

text \<open>
  Two facts of xkbcommon and of the protocol: the text of one key has at most eight bytes, and
  the keymap precedes the keys.
\<close>

definition key_text_ok :: "launcher_event \<Rightarrow> bool" where
  "key_text_ok e = (case e of LKey _ u _ \<Rightarrow> length u \<le> 8 | _ \<Rightarrow> True)"

lemma launcher_step_ok:
  assumes "launcher_ok s" and "key_text_ok e"
  shows "\<exists>t. launcher_step E e s = Some t \<and> launcher_ok t"
proof (cases e)
  case (LKey ks u p)
  then show ?thesis using assms key_ok by (simp add: key_text_ok_def)
next
  case (LMotion y)
  then show ?thesis using assms motion_ok by simp
next
  case (LButton l p)
  then show ?thesis using assms button_ok by simp
next
  case (LAxis vert v)
  then show ?thesis using assms select_ok [OF assms(1), of E] by (auto simp: launcher_axis_def)
next
  case (LConfigure w)
  have "\<exists>t. launcher_configure E w s = Some t \<and> launcher_ok t"
    unfolding launcher_configure_def by (rule render_ok) (use assms in \<open>simp add: launcher_ok_def filtered_count_def\<close>)
  then show ?thesis using LConfigure by simp
qed (use assms in \<open>simp_all add: launcher_ok_def filtered_count_def\<close>)

text \<open>
  The machine that runs on acceptable events only: its step is the client's, refused for
  a key whose text does not fit the buffer.
\<close>

definition launcher_accepts :: "launcher_env \<Rightarrow> launcher_event \<Rightarrow> launcher \<Rightarrow> launcher option" where
  "launcher_accepts E e s = (if key_text_ok e then launcher_step E e s else None)"

interpretation launcher: total_event_machine "launcher_accepts E" launcher_ok key_text_ok for E
proof
  fix s t :: launcher and e
  assume "launcher_ok s" and "launcher_accepts E e s = Some t"
  then show "launcher_ok t" using launcher_step_ok [of s e E] by (auto simp: launcher_accepts_def split: if_splits)
next
  fix s :: launcher and e
  assume "launcher_ok s" and "key_text_ok e"
  then show "launcher_accepts E e s \<noteq> None" using launcher_step_ok [of s e E] by (auto simp: launcher_accepts_def)
qed

lemma run_accepts: "list_all key_text_ok es \<Longrightarrow> run (launcher_accepts E) es s = run (launcher_step E) es s"
proof (induction es arbitrary: s)
  case (Cons e es)
  then show ?case by (cases "launcher_step E e s") (simp_all add: launcher_accepts_def)
qed simp

section \<open>Starting up\<close>

lemma fold_length_bound:
  assumes "\<And>x es. length (es :: 'a list) \<le> m \<Longrightarrow> length (f x es) \<le> m" and "length es \<le> m"
  shows "length (fold f xs es) \<le> m"
  using assms(2) by (induction xs arbitrary: es) (auto intro: assms(1))

lemma parse_desktop_bound: "length es \<le> MAX_ENTRIES \<Longrightarrow> length (parse_desktop_file file es) \<le> MAX_ENTRIES"
  by (auto simp: parse_desktop_file_def Let_def split: option.splits)

lemma desktop_dir_bound: "length es \<le> MAX_ENTRIES \<Longrightarrow> length (desktop_dir E token es) \<le> MAX_ENTRIES"
  by (auto simp: desktop_dir_def Let_def split: option.splits intro!: fold_length_bound parse_desktop_bound)

lemma path_dir_bound: "length es \<le> MAX_ENTRIES \<Longrightarrow> length (path_dir E dir es) \<le> MAX_ENTRIES"
  by (auto simp: path_dir_def path_file_def split: option.splits intro!: fold_length_bound)

lemma collect_bound:
  "collect_desktop_entries E [] = Some es \<Longrightarrow> length es \<le> MAX_ENTRIES"
  "collect_path_entries E es = Some es' \<Longrightarrow> length es \<le> MAX_ENTRIES \<Longrightarrow> length es' \<le> MAX_ENTRIES"
  by (auto simp: collect_desktop_entries_def collect_path_entries_def split: option.splits
      intro!: fold_length_bound desktop_dir_bound path_dir_bound)

lemma launcher_start_ok:
  assumes "launcher_start E qs = Some s" and "\<And>xs. mset (qs entry_cmp xs) = mset xs"
  shows "launcher_ok (s\<lparr>la_keymap := True\<rparr>)"
proof -
  obtain es es' where e: "collect_desktop_entries E [] = Some es" "collect_path_entries E es = Some es'"
    using assms(1) by (auto simp: launcher_start_def split: Option.bind_splits)
  let ?i = "\<lparr>la_running = True, la_configured = False, la_width = LAUNCHER_WIDTH, la_keymap = True, la_query = [],
     la_entries = qs entry_cmp es', la_filtered = [], la_selected = 0, la_scroll = 0, la_pointer_y = 0, la_out = []\<rparr>"
  have "length (qs entry_cmp es') \<le> MAX_ENTRIES"
    using collect_bound(2) [OF e(2) collect_bound(1) [OF e(1)]] assms(2) [of es'] by (metis size_mset)
  then have "launcher_ok (filter_entries ?i)" by (intro filter_ok) (simp_all add: MAX_QUERY_def)
  moreover have "s\<lparr>la_keymap := True\<rparr> = filter_entries ?i"
    using assms(1) e by (auto simp: launcher_start_def filter_entries_def)
  ultimately show ?thesis by simp
qed


text \<open>A sort of the C library, and a system with two programs.\<close>

fun put_sorted :: "('a \<Rightarrow> 'a \<Rightarrow> int) \<Rightarrow> 'a \<Rightarrow> 'a list \<Rightarrow> 'a list" where
  "put_sorted cmp x [] = [x]"
| "put_sorted cmp x (y # ys) = (if cmp x y \<le> 0 then x # y # ys else y # put_sorted cmp x ys)"

definition sort_by :: "('a \<Rightarrow> 'a \<Rightarrow> int) \<Rightarrow> 'a list \<Rightarrow> 'a list" where
  "sort_by cmp xs = foldr (put_sorted cmp) xs []"

lemma mset_put_sorted: "mset (put_sorted cmp x ys) = add_mset x (mset ys)"
  by (induction ys) auto

lemma mset_sort_by: "mset (sort_by cmp xs) = mset xs"
  by (induction xs) (simp_all add: sort_by_def mset_put_sorted)

definition ex_system :: launcher_env where
  "ex_system =
    \<lparr>l_getenv = (\<lambda>n. if n = ''PATH'' then Some ''/bin'' else if n = ''HOME'' then Some ''/home/u'' else None),
     l_readdir = (\<lambda>d. if d = ''/bin'' then Some [''.x'', ''ls'', ''foot''] else if d = ''/usr/share/applications'' then Some [''f.desktop''] else None),
     l_file = (\<lambda>f. if f = ''/usr/share/applications/f.desktop''
        then Some (''[Desktop Entry]'' @ [NL] @ ''Name = Foot'' @ [NL] @ ''Exec=foot %U'' @ [NL]) else None),
     l_executable = (\<lambda>_. True), l_buffer = (\<lambda>_ _. True), l_advance = (\<lambda>_ _. 0)\<rparr>"

definition ex_launcher_start :: launcher where
  "ex_launcher_start = the (launcher_start ex_system sort_by)"

lemma ex_launcher_start: "launcher_start ex_system sort_by = Some ex_launcher_start"
proof -
  have "\<not> Option.is_none (launcher_start ex_system sort_by)" by code_simp
  then show ?thesis by (simp add: ex_launcher_start_def Option.is_none_def)
qed


section \<open>The scroll bar and the rows under the pointer\<close>

text \<open>
  The thumb of the scroll bar lies inside its track, at the top of it when the list is
  not scrolled and at its bottom when the last entry is shown.
\<close>

theorem thumb_in_track:
  assumes "VISIBLE_ROWS < filtered_count s" and "0 \<le> la_scroll s" and "la_scroll s \<le> filtered_count s - VISIBLE_ROWS"
    and "h = ITEM_HEIGHT + launcher_rows s * ITEM_HEIGHT + 4"
  shows "\<exists>y th. draw_thumb s h = [Thumb (la_width s - 4) y 3 th] \<and> 20 \<le> th \<and> ITEM_HEIGHT \<le> y \<and> y + th \<le> h \<and>
     (la_scroll s = 0 \<longrightarrow> y = ITEM_HEIGHT) \<and> (la_scroll s = filtered_count s - VISIBLE_ROWS \<longrightarrow> y + th = h)"
proof -
  let ?n = "filtered_count s" let ?th = "max 20 (384 * 10 div ?n)" let ?k = "la_scroll s"
  have h: "h = 422" using assms(1,4) by (simp add: launcher_rows_def ITEM_HEIGHT_def VISIBLE_ROWS_def)
  have n: "10 < ?n" "0 \<le> ?k" "?k \<le> ?n - 10" using assms(1-3) by (simp_all add: VISIBLE_ROWS_def)
  have "3840 div ?n \<le> 3840 div 11" using n by (intro zdiv_mono2) auto
  then have t: "20 \<le> ?th" "?th \<le> 384" by auto
  have "(384 - ?th) * ?k \<le> (384 - ?th) * (?n - 10)" using n t by (intro mult_left_mono) auto
  then have "(384 - ?th) * ?k div (?n - 10) \<le> (384 - ?th) * (?n - 10) div (?n - 10)" using n by (intro zdiv_mono1) auto
  also have "\<dots> = 384 - ?th" using n by simp
  finally have hi: "(384 - ?th) * ?k div (?n - 10) \<le> 384 - ?th" .
  have lo: "0 \<le> (384 - ?th) * ?k div (?n - 10)" using n t by (simp add: pos_imp_zdiv_nonneg_iff)
  have "draw_thumb s h = [Thumb (la_width s - 4) (38 + (384 - ?th) * ?k div (?n - 10)) 3 ?th]"
    using assms(1) h by (simp add: draw_thumb_def ITEM_HEIGHT_def VISIBLE_ROWS_def Let_def)
  then show ?thesis using hi lo t(1) h n by (auto simp: ITEM_HEIGHT_def VISIBLE_ROWS_def)
qed

lemma thumb_in_track_witness:
  "\<exists>y th. draw_thumb (ex_launcher\<lparr>la_filtered := [0..<12], la_scroll := 2\<rparr>) 422 = [Thumb 516 y 3 th] \<and> y + th = 422"
proof -
  let ?s = "ex_launcher\<lparr>la_filtered := [0..<12], la_scroll := 2\<rparr>"
  have w: "la_width ?s = 520" "la_scroll ?s = 2" "filtered_count ?s = 12"
    by (simp_all add: ex_launcher_def filtered_count_def)
  have r: "launcher_rows ?s = 10" unfolding launcher_rows_def w by (simp add: VISIBLE_ROWS_def)
  show ?thesis using thumb_in_track [of ?s 422] unfolding w r by (auto simp: VISIBLE_ROWS_def ITEM_HEIGHT_def)
qed

lemma f64_dyadic:
  assumes "\<bar>k\<bar> \<le> 2 ^ 53" and "n \<le> 1000"
  shows "f64 (of_int k / 2 ^ n) = of_int k / 2 ^ n"
proof -
  have "of_int k / 2 ^ n = (of_int k * 2 powi (- int n) :: rat)" by (simp add: power_int_minus divide_inverse)
  then have "representable 53 (-1022) (of_int k / 2 ^ n)"
    unfolding representable_def using assms by (intro exI [of _ k] exI [of _ "- int n"]) auto
  then show ?thesis unfolding f64_def by (intro rnd_exact) auto
qed

text \<open>The quotient of a pointer position by the row height truncates to the row, rounding included.\<close>

lemma row_quotient:
  assumes "0 \<le> k" and "k < 2 ^ 31"
  shows "trunc (f64 (f64 (of_int k / 256) / 38)) = k div 9728"
proof -
  let ?m = "k div 9728" let ?q = "(of_int k / 256 / 38 :: rat)"
  have e: "f64 (of_int k / 256) = of_int k / 256"
    using f64_dyadic [of k 8] assms by simp
  have m: "0 \<le> ?m" "?m < 2 ^ 31" "9728 * ?m \<le> k" "k \<le> 9728 * ?m + 9727" using assms by auto
  have "of_int ?m \<le> ?q" using m(3) by (simp add: pos_le_divide_eq)
  then have lo: "of_int ?m \<le> f64 ?q" using flt64.fl_mono [of "of_int ?m" ?q] flt64.fl_int [of ?m] m(1,2) by simp
  define u where "u = 16384 * ?m + 16383"
  have r: "f64 (of_int u / 16384) = of_int u / 16384"
    using f64_dyadic [of u 14] m(1,2) by (simp add: u_def)
  have "k * 16384 \<le> 9728 * u" using m(4) by (simp add: u_def)
  then have "(of_int (k * 16384) :: rat) \<le> of_int (9728 * u)" by (simp only: of_int_le_iff)
  then have "?q \<le> of_int u / 16384" by (simp add: field_simps)
  then have "f64 ?q \<le> of_int u / 16384" using flt64.fl_mono [of ?q "of_int u / 16384"] r by simp
  also have "\<dots> < of_int (?m + 1)" by (simp add: u_def field_simps)
  finally have hi: "f64 ?q < of_int (?m + 1)" .
  have "\<lfloor>f64 ?q\<rfloor> = ?m" using lo hi by (intro floor_unique) auto
  moreover have "0 \<le> f64 ?q" using lo m(1) by (meson of_int_0_le_iff order_trans)
  ultimately show ?thesis by (simp add: e trunc_def)
qed

text \<open>
  The row a pointer position selects is the row drawn there: for every position the
  protocol can report (a multiple of 1/256), the handler gives the list index of the drawn
  row whose band contains it, and -1 above the rows and below the last one.
\<close>

theorem pointer_hits_drawn_row:
  assumes "launcher_ok s" and "\<bar>k\<bar> < 2 ^ 30" and "y = of_int k / 256"
  shows "(\<forall>i. 0 \<le> i \<and> i < launcher_rows s \<and> of_int (ITEM_HEIGHT + i * ITEM_HEIGHT) \<le> y \<and>
              y < of_int (ITEM_HEIGHT + (i + 1) * ITEM_HEIGHT) \<longrightarrow> row_at s y = la_scroll s + i) \<and>
     ((\<forall>i. 0 \<le> i \<and> i < launcher_rows s \<longrightarrow>
         \<not> (of_int (ITEM_HEIGHT + i * ITEM_HEIGHT) \<le> y \<and> y < of_int (ITEM_HEIGHT + (i + 1) * ITEM_HEIGHT)))
      \<longrightarrow> row_at s y = -1)"
proof (cases "k < 9728")
  case True
  then have "y < 38" using assms(3) by simp
  then have b: "y < of_int (ITEM_HEIGHT + i * ITEM_HEIGHT)" if "0 \<le> i" for i
    using that by (simp add: ITEM_HEIGHT_def)
  have "row_at s y = -1" using \<open>y < 38\<close> by (simp add: row_at_def ITEM_HEIGHT_def)
  moreover have "\<not> of_int (ITEM_HEIGHT + i * ITEM_HEIGHT) \<le> y" if "0 \<le> i" for i
    using b [OF that] by (simp only: not_le)
  ultimately show ?thesis by blast
next
  case False
  let ?m = "(k - 9728) div 9728"
  have y: "y - 38 = of_int (k - 9728) / 256" using assms(3) by (simp add: field_simps)
  have t: "trunc (f64 (f64 (y - 38) / 38)) = ?m"
    unfolding y by (rule row_quotient) (use False assms(2) in auto)
  have band: "(of_int (ITEM_HEIGHT + i * ITEM_HEIGHT) \<le> y \<and> y < of_int (ITEM_HEIGHT + (i + 1) * ITEM_HEIGHT)) \<longleftrightarrow> i = ?m" for i
  proof -
    have "of_int (ITEM_HEIGHT + i * ITEM_HEIGHT) \<le> y \<longleftrightarrow> (of_int (9728 + i * 9728) :: rat) \<le> of_int k"
      by (simp add: assms(3) ITEM_HEIGHT_def field_simps)
    moreover have "y < of_int (ITEM_HEIGHT + (i + 1) * ITEM_HEIGHT) \<longleftrightarrow> (of_int k :: rat) < of_int (9728 + (i + 1) * 9728)"
      by (simp add: assms(3) ITEM_HEIGHT_def field_simps)
    moreover have "9728 + i * 9728 \<le> k \<and> k < 9728 + (i + 1) * 9728 \<longleftrightarrow> i = ?m" by auto
    ultimately show ?thesis by (simp only: of_int_le_iff of_int_less_iff)
  qed
  have m: "0 \<le> ?m" using False by auto
  have "\<not> y < 38" using False assms(3) by simp
  then have r: "row_at s y = (if ?m < launcher_rows s \<and> la_scroll s + ?m < filtered_count s then la_scroll s + ?m else -1)"
    using t m by (auto simp: row_at_def ITEM_HEIGHT_def Let_def)
  have "la_scroll s + i < filtered_count s" if "i < launcher_rows s" for i
    using that assms(1) by (auto simp: launcher_rows_def launcher_ok_def)
  then show ?thesis unfolding band r using m by auto
qed

lemma pointer_hits_drawn_row_witness:
  "launcher_ok (filter_entries ex_launcher) \<and> row_at (filter_entries ex_launcher) 50 = 0"
proof
  show ok: "launcher_ok (filter_entries ex_launcher)"
    by (rule filter_ok) (simp_all add: ex_launcher_def MAX_ENTRIES_def MAX_QUERY_def)
  have "la_filtered (filter_entries ex_launcher) = [1, 3, 0]" by code_simp
  then have "launcher_rows (filter_entries ex_launcher) = 3"
    by (simp add: launcher_rows_def filtered_count_def VISIBLE_ROWS_def)
  then show "row_at (filter_entries ex_launcher) 50 = 0"
    using pointer_hits_drawn_row [OF ok, of 12800 50] by (auto simp: ITEM_HEIGHT_def)
qed

section \<open>The directory of the user's own applications\<close>

lemma split_on_append: "c \<notin> set a \<Longrightarrow> split_on c (a @ c # b) = a # split_on c b"
  by (induction a) auto

lemma split_on_last: "c \<notin> set a \<Longrightarrow> split_on c a = [a]"
  by (induction a) auto

lemma default_search_dirs:
  assumes "l_getenv E ''XDG_DATA_HOME'' = None" and "l_getenv E ''HOME'' = Some h" and "l_getenv E ''XDG_DATA_DIRS'' = None"
    and "CHR '':'' \<notin> set h" and "length h < 400"
  shows "search_dirs E = Some [h @ ''/.local/share/applications'', ''/usr/local/share'', ''/usr/share'']"
proof -
  let ?u = "h @ ''/.local/share/applications''"
  have u: "home_apps E = ?u" using assms by (simp add: home_apps_def snprintf_fits)
  have c: "CHR '':'' \<notin> set ?u" using assms(4) by simp
  have "search_dirs E = Some (strtok_all CHR '':'' (?u @ CHR '':'' # ''/usr/local/share:/usr/share''))"
    using assms(3,5) by (simp add: search_dirs_def u snprintf_fits)
  also have "\<dots> = Some [?u, ''/usr/local/share'', ''/usr/share'']"
    unfolding strtok_all_def split_on_append [OF c] by simp
  finally show ?thesis .
qed

lemma desktop_dir_cong:
  assumes "d \<noteq> snprintf 512 (token @ ''/applications'')"
  shows "desktop_dir (E\<lparr>l_readdir := (l_readdir E)(d := x)\<rparr>) token es = desktop_dir E token es"
  using assms by (simp add: desktop_dir_def Let_def cong: if_cong option.case_cong)

lemma dir_suffix_neq:
  "h @ ''/.local/share/applications'' \<noteq> ''/usr/local/share/applications''"
  "h @ ''/.local/share/applications'' \<noteq> ''/usr/share/applications''"
  by (rule notI, drule arg_cong [where f = rev], simp)+

text \<open>
  The launcher never looks into the user's application directory: it already appends
  \<open>/applications\<close> to the data directory of the user and then appends it again, so with the
  default environment what \<open>~/.local/share/applications\<close> contains makes no difference.
\<close>

theorem user_applications_ignored:
  assumes "l_getenv E ''XDG_DATA_HOME'' = None" and "l_getenv E ''HOME'' = Some h" and "l_getenv E ''XDG_DATA_DIRS'' = None"
    and "CHR '':'' \<notin> set h" and "length h < 400"
  shows "collect_desktop_entries (E\<lparr>l_readdir := (l_readdir E)(h @ ''/.local/share/applications'' := names)\<rparr>) es
     = collect_desktop_entries E es"
proof -
  let ?u = "h @ ''/.local/share/applications''" let ?E = "E\<lparr>l_readdir := (l_readdir E)(?u := names)\<rparr>"
  have "search_dirs ?E = search_dirs E" by (simp add: search_dirs_def home_apps_def Let_def cong: if_cong option.case_cong)
  then have s: "search_dirs ?E = Some [?u, ''/usr/local/share'', ''/usr/share'']"
    "search_dirs E = Some [?u, ''/usr/local/share'', ''/usr/share'']"
    using default_search_dirs [OF assms] by simp_all
  have "?u \<noteq> snprintf 512 (t @ ''/applications'')" if "t \<in> {?u, ''/usr/local/share'', ''/usr/share''}" for t
    using that assms(5) dir_suffix_neq [of h] by (auto simp: snprintf_fits)
  then have "desktop_dir ?E t es = desktop_dir E t es" if "t \<in> {?u, ''/usr/local/share'', ''/usr/share''}" for t es
    using that desktop_dir_cong [of ?u t E names es] by blast
  then show ?thesis by (simp add: collect_desktop_entries_def s)
qed

lemma user_applications_ignored_witness:
  "collect_desktop_entries (ex_system\<lparr>l_readdir := (l_readdir ex_system)(''/home/u/.local/share/applications'' := Some [''x.desktop''])\<rparr>) []
     = collect_desktop_entries ex_system []"
  using user_applications_ignored [of ex_system "''/home/u''" "Some [''x.desktop'']" "[]"] by (simp add: ex_system_def)

end
