(* ===== verification/Kumnotify.thy ===== *)
theory Kumnotify
  imports Kumde_Msg Cfloat
begin

text \<open>
  The notification daemon (\<open>kumnotify\<close>): eight slots, the stack of their surfaces on the
  screen, the datagrams that fill them, and their expiry. A surface is named by its
  address, which the allocator chooses (\<open>addr\<close>); the time is an argument.
\<close>

section \<open>State\<close>

definition NOTIF_W :: int where "NOTIF_W = 360"
definition NOTIF_H :: int where "NOTIF_H = 72"
definition NOTIF_PAD :: int where "NOTIF_PAD = 14"
definition NOTIF_GAP :: int where "NOTIF_GAP = 8"
definition NOTIF_DUR :: int where "NOTIF_DUR = 5000"
definition NOTIF_MAX :: nat where "NOTIF_MAX = 8"
definition INT64_MAX :: int where "INT64_MAX = 2 ^ 63 - 1"

record notif =
  n_summary :: string
  n_body :: string
  n_app_name :: string
  n_urgency :: int
  n_expire :: int
  n_id :: nat
  n_active :: bool
  n_configured :: bool
  n_height :: int
  n_surface :: nat

datatype notif_draw =
    NBackground int int
  | NAccent "rat \<times> rat \<times> rat" int
  | NText string rat rat

datatype notif_out =
    NCreate nat
  | NMargin nat int
  | NDestroy nat
  | NFrame nat "notif_draw list"

record notifier =
  nf_slots :: "notif list"
  nf_next_id :: nat
  nf_pointer :: "nat option"
  nf_out :: "notif_out list"

definition nf_emit :: "notif_out \<Rightarrow> notifier \<Rightarrow> notifier" where
  "nf_emit c s = s\<lparr>nf_out := c # nf_out s\<rparr>"

definition upd_slot :: "nat \<Rightarrow> (notif \<Rightarrow> notif) \<Rightarrow> notifier \<Rightarrow> notifier" where
  "upd_slot i f s = s\<lparr>nf_slots := (nf_slots s)[i := f (nf_slots s ! i)]\<rparr>"

section \<open>The stack on the screen\<close>

definition restack_one :: "nat \<Rightarrow> int \<times> notifier \<Rightarrow> int \<times> notifier" where
  "restack_one i ys =
     (let (y, s) = ys; n = nf_slots s ! i in
      if \<not> n_active n then (y, s)
      else (y + n_height n + NOTIF_GAP, nf_emit (NMargin (n_surface n) y) s))"

definition restack :: "notifier \<Rightarrow> notifier" where
  "restack s = snd (fold restack_one (rev [0..<NOTIF_MAX]) (NOTIF_GAP, s))"

definition dismiss :: "nat \<Rightarrow> notifier \<Rightarrow> notifier" where
  "dismiss i s =
     (let n = nf_slots s ! i in
      if \<not> n_active n then s
      else restack (upd_slot i (\<lambda>n. n\<lparr>n_active := False, n_configured := False\<rparr>) (nf_emit (NDestroy (n_surface n)) s)))"

section \<open>Showing a notification\<close>

fun slot_scan :: "nat \<Rightarrow> int \<Rightarrow> int \<Rightarrow> notif list \<Rightarrow> nat option \<times> int" where
  "slot_scan i oexp oldest [] = (None, oldest)"
| "slot_scan i oexp oldest (n # ns) =
     (if \<not> n_active n then (Some i, oldest)
      else if n_expire n < oexp then slot_scan (Suc i) (n_expire n) (int i) ns
      else slot_scan (Suc i) oexp oldest ns)"

definition fill_slot :: "nat \<Rightarrow> nat \<Rightarrow> int \<Rightarrow> string \<Rightarrow> string \<Rightarrow> string \<Rightarrow> int \<Rightarrow> int \<Rightarrow> notifier \<Rightarrow> notifier" where
  "fill_slot i addr now app_n smy body urg timeout s =
     (let k = (nf_next_id s + 1) mod 2 ^ 32;
          n = \<lparr>n_summary = strncpy 255 smy, n_body = strncpy 511 body, n_app_name = strncpy 127 app_n, n_urgency = urg,
               n_expire = now + (if 0 < timeout then timeout else NOTIF_DUR), n_id = k, n_active = True,
               n_configured = False, n_height = NOTIF_H, n_surface = addr\<rparr>
      in restack (nf_emit (NMargin addr NOTIF_GAP) (nf_emit (NCreate addr)
           (upd_slot i (\<lambda>_. n) (s\<lparr>nf_next_id := k\<rparr>)))))"

text \<open>\<open>None\<close>: no slot is free and none expires before the end of time, so the slot -1 is used.\<close>

definition notif_show ::
    "nat \<Rightarrow> int \<Rightarrow> string \<Rightarrow> string \<Rightarrow> string \<Rightarrow> int \<Rightarrow> int \<Rightarrow> notifier \<Rightarrow> notifier option" where
  "notif_show addr now app_n smy body urg timeout s =
     (case slot_scan 0 INT64_MAX (-1) (nf_slots s) of
        (Some i, _) \<Rightarrow> Some (fill_slot i addr now app_n smy body urg timeout s)
      | (None, oldest) \<Rightarrow>
          if oldest < 0 then None
          else Some (fill_slot (nat oldest) addr now app_n smy body urg timeout (dismiss (nat oldest) s)))"

definition handle_msg :: "nat \<Rightarrow> int \<Rightarrow> string \<Rightarrow> notifier \<Rightarrow> notifier option" where
  "handle_msg addr now msg s =
     (let bar = CHR ''|'';
          vs = sscanf [CLit ''NOTIFY '', CNot 127 bar, CLit [bar], CNot 255 bar, CLit [bar], CNot 511 bar, CLit [bar],
                       CInt, CLit [bar], CInt] msg;
          smy = got_str vs 1 []
      in if smy \<noteq> [] then notif_show addr now (got_str vs 0 []) smy (got_str vs 2 []) (got_int vs 3 1) (got_int vs 4 (-1)) s
         else Some s)"

section \<open>Drawing and pointer\<close>

definition accent :: "int \<Rightarrow> rat \<times> rat \<times> rat" where
  "accent urg =
     (let ar = f32 (45 / 100); ag = f32 (60 / 100); ab = f32 (95 / 100) in
      if urg = 2 then (f32 (90 / 100), f32 (35 / 100), f32 (35 / 100))
      else if urg = 0 then (f32 (ar * f32 (6 / 10)), f32 (ag * f32 (6 / 10)), f32 (ab * f32 (6 / 10)))
      else (ar, ag, ab))"

text \<open>\<open>shm\<close> says whether a buffer could be allocated, \<open>width\<close> is what cairo says of a text.\<close>

definition notif_render :: "bool \<Rightarrow> (string \<Rightarrow> rat) \<Rightarrow> nat \<Rightarrow> notifier \<Rightarrow> notifier" where
  "notif_render shm width i s =
     (let n = nf_slots s ! i in
      if \<not> n_configured n \<or> \<not> shm then s
      else nf_emit (NFrame (n_surface n)
        ([NBackground NOTIF_W (n_height n), NAccent (accent (n_urgency n)) (n_height n),
          NText (n_summary n) (of_int NOTIF_PAD) 26] @
         (if n_body n \<noteq> [] then [NText (n_body n) (of_int NOTIF_PAD) 48] else []) @
         (if n_app_name n \<noteq> []
          then [NText (n_app_name n) (f64 (f64 (of_int NOTIF_W - width (n_app_name n)) - of_int NOTIF_PAD)) 26] else []))) s)"

definition notif_configure :: "bool \<Rightarrow> (string \<Rightarrow> rat) \<Rightarrow> nat \<Rightarrow> notifier \<Rightarrow> notifier" where
  "notif_configure shm width i s =
     notif_render shm width i (upd_slot i (\<lambda>n. n\<lparr>n_height := NOTIF_H, n_configured := True\<rparr>) s)"

definition notif_button :: "bool \<Rightarrow> notifier \<Rightarrow> notifier" where
  "notif_button pressed s =
     (case nf_pointer s of
        None \<Rightarrow> s
      | Some p \<Rightarrow>
          if \<not> pressed then s
          else case List.find (\<lambda>i. n_active (nf_slots s ! i) \<and> n_surface (nf_slots s ! i) = p) [0..<NOTIF_MAX] of
            None \<Rightarrow> s
          | Some i \<Rightarrow> (dismiss i s)\<lparr>nf_pointer := None\<rparr>)"

section \<open>The main loop\<close>

definition next_expiry :: "notifier \<Rightarrow> int" where
  "next_expiry s = fold (\<lambda>i nxt. if n_active (nf_slots s ! i) \<and> n_expire (nf_slots s ! i) < nxt
     then n_expire (nf_slots s ! i) else nxt) [0..<NOTIF_MAX] INT64_MAX"

definition poll_timeout :: "int \<Rightarrow> notifier \<Rightarrow> int" where
  "poll_timeout now s =
     (let nxt = next_expiry s in if nxt = INT64_MAX then -1 else if 0 < nxt - now then nxt - now else 0)"

definition expire :: "int \<Rightarrow> notifier \<Rightarrow> notifier" where
  "expire now s = fold (\<lambda>i s. if n_active (nf_slots s ! i) \<and> n_expire (nf_slots s ! i) \<le> now then dismiss i s else s)
     [0..<NOTIF_MAX] s"

text \<open>What \<open>wl_display_dispatch\<close> can deliver.\<close>

datatype notif_event =
    NConfigure bool "string \<Rightarrow> rat" nat
  | NClosed nat
  | NEnter nat
  | NLeave
  | NButton bool

fun notif_dispatch :: "notif_event \<Rightarrow> notifier \<Rightarrow> notifier" where
  "notif_dispatch (NConfigure shm width i) s = notif_configure shm width i s"
| "notif_dispatch (NClosed i) s = dismiss i s"
| "notif_dispatch (NEnter p) s = s\<lparr>nf_pointer := Some p\<rparr>"
| "notif_dispatch NLeave s = s\<lparr>nf_pointer := None\<rparr>"
| "notif_dispatch (NButton pressed) s = notif_button pressed s"

text \<open>
  One turn: the events of the display, at most one datagram of up to 767 bytes, then the
  expired notifications.
\<close>

definition notif_turn :: "notif_event list \<Rightarrow> nat \<Rightarrow> int \<Rightarrow> string option \<Rightarrow> int \<Rightarrow> notifier \<Rightarrow> notifier option" where
  "notif_turn es addr t msg now s =
     (let s1 = fold notif_dispatch es s in
      map_option (expire now)
        (case msg of None \<Rightarrow> Some s1
         | Some m \<Rightarrow> if m = [] then Some s1 else handle_msg addr t (take 767 m) s1))"

section \<open>What the operations leave alone\<close>

lemma nf_emit_fields [simp]:
  "nf_slots (nf_emit c s) = nf_slots s" "nf_next_id (nf_emit c s) = nf_next_id s" "nf_pointer (nf_emit c s) = nf_pointer s"
  "nf_out (nf_emit c s) = c # nf_out s"
  by (simp_all add: nf_emit_def)

lemma restack_fold_fields:
  "nf_slots (snd (fold restack_one is ys)) = nf_slots (snd ys)"
  "nf_next_id (snd (fold restack_one is ys)) = nf_next_id (snd ys)"
  "nf_pointer (snd (fold restack_one is ys)) = nf_pointer (snd ys)"
  by (induction "is" arbitrary: ys) (auto simp: restack_one_def Let_def split: prod.splits)

lemma restack_fields [simp]:
  "nf_slots (restack s) = nf_slots s" "nf_next_id (restack s) = nf_next_id s" "nf_pointer (restack s) = nf_pointer s"
  by (simp_all add: restack_def restack_fold_fields)

lemma upd_slot_fields [simp]:
  "nf_slots (upd_slot i f s) = (nf_slots s)[i := f (nf_slots s ! i)]" "nf_out (upd_slot i f s) = nf_out s"
  "nf_next_id (upd_slot i f s) = nf_next_id s"
  by (simp_all add: upd_slot_def)

definition retired :: "notif \<Rightarrow> notif" where
  "retired n = (if n_active n then n\<lparr>n_active := False, n_configured := False\<rparr> else n)"

lemma retired_idle [simp]: "n_active (retired n) = False"
  by (simp add: retired_def)

lemma dismiss_slots: "nf_slots (dismiss i s) = (nf_slots s)[i := retired (nf_slots s ! i)]"
  by (simp add: dismiss_def retired_def Let_def)

lemma dismiss_id [simp]: "nf_next_id (dismiss i s) = nf_next_id s"
  by (simp add: dismiss_def Let_def)

lemma fill_slots:
  "nf_slots (fill_slot i addr now app_n smy body urg timeout s) = (nf_slots s)[i :=
     \<lparr>n_summary = strncpy 255 smy, n_body = strncpy 511 body, n_app_name = strncpy 127 app_n, n_urgency = urg,
      n_expire = now + (if 0 < timeout then timeout else NOTIF_DUR), n_id = (nf_next_id s + 1) mod 2 ^ 32,
      n_active = True, n_configured = False, n_height = NOTIF_H, n_surface = addr\<rparr>]"
  by (simp add: fill_slot_def Let_def)

lemma length_slots [simp]:
  "length (nf_slots (dismiss i s)) = length (nf_slots s)"
  "length (nf_slots (fill_slot i addr now app_n smy body urg timeout s)) = length (nf_slots s)"
  by (simp_all add: dismiss_slots fill_slots)

lemma length_show: "notif_show addr now app_n smy body urg timeout s = Some s' \<Longrightarrow> length (nf_slots s') = length (nf_slots s)"
  by (auto simp: notif_show_def split: prod.splits option.splits if_splits)

lemma handle_msg_form:
  "\<exists>p a b c u t. handle_msg addr now msg s = (if p then notif_show addr now a b c u t s else Some s)"
  unfolding handle_msg_def Let_def by (intro exI, rule refl)

lemma length_msg: "handle_msg addr now msg s = Some s' \<Longrightarrow> length (nf_slots s') = length (nf_slots s)"
  using handle_msg_form [of addr now msg s] by (auto simp: length_show split: if_split_asm)

lemma length_dispatch [simp]: "length (nf_slots (notif_dispatch e s)) = length (nf_slots s)"
  by (cases e) (auto simp: notif_configure_def notif_render_def notif_button_def Let_def split: option.splits)

lemma length_dispatches [simp]: "length (nf_slots (fold notif_dispatch es s)) = length (nf_slots s)"
  by (induction es arbitrary: s) simp_all

section \<open>Expiry\<close>

definition expired_at :: "int \<Rightarrow> notif \<Rightarrow> bool" where
  "expired_at now n \<longleftrightarrow> n_active n \<and> n_expire n \<le> now"

lemma expire_prefix:
  assumes "k \<le> length (nf_slots s)"
  shows "nf_slots (fold (\<lambda>i s. if n_active (nf_slots s ! i) \<and> n_expire (nf_slots s ! i) \<le> now then dismiss i s else s) [0..<k] s)
     = map (\<lambda>n. if expired_at now n then retired n else n) (take k (nf_slots s)) @ drop k (nf_slots s)"
  using assms
proof (induction k)
  case (Suc k)
  let ?f = "\<lambda>n. if expired_at now n then retired n else n"
  let ?s = "fold (\<lambda>i s. if n_active (nf_slots s ! i) \<and> n_expire (nf_slots s ! i) \<le> now then dismiss i s else s) [0..<k] s"
  define P where "P = map ?f (take k (nf_slots s))"
  define x where "x = nf_slots s ! k"
  define D where "D = drop (Suc k) (nf_slots s)"
  have l: "length P = k" using Suc.prems by (simp add: P_def)
  have ih: "nf_slots ?s = P @ x # D" using Suc by (simp add: P_def x_def D_def Cons_nth_drop_Suc)
  then have x: "nf_slots ?s ! k = x" using l by (metis nth_append_length)
  have "(P @ x # D)[k := y] = P @ y # D" for y using l by (metis list_update_length)
  then have "nf_slots (if n_active (nf_slots ?s ! k) \<and> n_expire (nf_slots ?s ! k) \<le> now then dismiss k ?s else ?s) = P @ ?f x # D"
    unfolding x by (simp add: dismiss_slots ih x [unfolded ih] expired_at_def)
  moreover have "map ?f (take (Suc k) (nf_slots s)) @ drop (Suc k) (nf_slots s) = P @ ?f x # D"
    using Suc.prems by (simp add: take_Suc_conv_app_nth P_def x_def D_def)
  ultimately show ?case by simp
qed simp

lemma expire_slots:
  assumes "length (nf_slots s) = NOTIF_MAX"
  shows "nf_slots (expire now s) = map (\<lambda>n. if expired_at now n then retired n else n) (nf_slots s)"
  using expire_prefix [of NOTIF_MAX s now] assms by (simp add: expire_def)

definition live_expiries :: "notifier \<Rightarrow> int list" where
  "live_expiries s = map n_expire (filter n_active (nf_slots s))"

lemma next_expiry_fold:
  "fold (\<lambda>i nxt. if n_active (ns ! i) \<and> n_expire (ns ! i) < nxt then n_expire (ns ! i) else nxt) is m
     = fold min (map n_expire (filter n_active (map ((!) ns) is))) m"
  by (induction "is" arbitrary: m) (auto simp: min_def)

lemma length_filter_less2:
  assumes "x \<in> set xs" and "Q x" and "\<not> P x" and "\<And>y. P y \<Longrightarrow> Q y"
  shows "length (filter P xs) < length (filter Q xs)"
proof -
  have "filter P xs = filter P (filter Q xs)" using assms(4) by (auto intro: filter_cong)
  also have "length \<dots> < length (filter Q xs)" using assms(1-3) by (intro length_filter_less [of x]) auto
  finally show ?thesis .
qed

lemma next_expiry_eq:
  assumes "length (nf_slots s) = NOTIF_MAX"
  shows "next_expiry s = Min (set (INT64_MAX # live_expiries s))"
proof -
  have "map ((!) (nf_slots s)) [0..<NOTIF_MAX] = nf_slots s" using assms map_nth [of "nf_slots s"] by simp
  then show ?thesis
    unfolding Min.set_eq_fold by (simp add: next_expiry_def next_expiry_fold live_expiries_def)
qed

text \<open>
  C22. Notifications expire on time. After every turn of the main loop no notification on
  the screen is past its time; the daemon then sleeps without limit when none is left, and
  otherwise exactly until the first of them expires, when the next turn takes that one away.
\<close>

theorem notifications_expire_on_time:
  assumes "notif_turn es addr t msg now s = Some s'" and "length (nf_slots s) = NOTIF_MAX"
    and "\<forall>n \<in> set (nf_slots s'). n_expire n < INT64_MAX"
  shows "(\<forall>n \<in> set (nf_slots s'). n_active n \<longrightarrow> now < n_expire n) \<and>
     (if filter n_active (nf_slots s') = [] then poll_timeout now s' = -1
      else 0 < poll_timeout now s' \<and> (\<forall>n \<in> set (nf_slots s'). n_active n \<longrightarrow> now + poll_timeout now s' \<le> n_expire n) \<and>
        length (filter n_active (nf_slots (expire (now + poll_timeout now s') s'))) < length (filter n_active (nf_slots s')))"
proof -
  obtain s1 where s1: "s' = expire now s1" "length (nf_slots s1) = NOTIF_MAX"
    using assms(1,2) by (auto simp: notif_turn_def Let_def length_msg split: option.split_asm if_split_asm)
  then have l: "length (nf_slots s') = NOTIF_MAX" by (simp add: expire_slots)
  have live: "\<forall>n \<in> set (nf_slots s'). n_active n \<longrightarrow> now < n_expire n"
    using s1 by (auto simp: expire_slots expired_at_def)
  let ?L = "live_expiries s'"
  have e: "next_expiry s' = Min (insert INT64_MAX (set ?L))" using next_expiry_eq [OF l] by simp
  show ?thesis
  proof (cases "?L = []")
    case True
    then show ?thesis using live e by (simp add: poll_timeout_def live_expiries_def)
  next
    case False
    then have "Min (set ?L) \<in> set ?L" by simp
    then have "Min (set ?L) < INT64_MAX" using assms(3) by (auto simp: live_expiries_def)
    moreover have "Min (insert INT64_MAX (set ?L)) = min INT64_MAX (Min (set ?L))" by (rule Min_insert) (use False in auto)
    ultimately have "Min (insert INT64_MAX (set ?L)) = Min (set ?L)" by (simp only: min_def not_le [symmetric] if_False)
    then have n: "next_expiry s' \<in> set ?L" "\<forall>x \<in> set ?L. next_expiry s' \<le> x" using False e by (auto simp del: Min_insert)
    then obtain n where n0: "n \<in> set (nf_slots s')" "n_active n" "n_expire n = next_expiry s'" by (auto simp: live_expiries_def)
    then have d: "poll_timeout now s' = next_expiry s' - now" "now < next_expiry s'"
      using live assms(3) by (auto simp: poll_timeout_def Let_def)
    let ?k = "next_expiry s'" let ?P = "\<lambda>n. n_active n \<and> \<not> n_expire n \<le> ?k"
    have "filter n_active (map (\<lambda>n. if expired_at ?k n then retired n else n) xs) = filter ?P xs" for xs
      by (induction xs) (auto simp: expired_at_def)
    moreover have "length (filter ?P (nf_slots s')) < length (filter n_active (nf_slots s'))"
      by (rule length_filter_less2) (use n0 in auto)
    ultimately show ?thesis using live n d False l by (auto simp: live_expiries_def expire_slots)
  qed
qed

section \<open>The stack has no overlaps\<close>

text \<open>
  The vertical margin of slot \<open>i\<close>: the gap, and above it every active slot of a larger
  index with its gap.
\<close>

definition stack_pos :: "notif list \<Rightarrow> nat \<Rightarrow> int" where
  "stack_pos ns i = NOTIF_GAP + (\<Sum>n \<leftarrow> filter n_active (drop (Suc i) ns). n_height n + NOTIF_GAP)"

lemma restack_fold:
  assumes "k \<le> length (nf_slots s)" and "is = rev [k..<length (nf_slots s)]"
  shows "\<exists>cs. nf_out (snd (fold restack_one is (NOTIF_GAP, s))) = cs @ nf_out s \<and>
     fst (fold restack_one is (NOTIF_GAP, s)) = NOTIF_GAP + (\<Sum>n \<leftarrow> filter n_active (drop k (nf_slots s)). n_height n + NOTIF_GAP) \<and>
     (\<forall>i. k \<le> i \<and> i < length (nf_slots s) \<and> n_active (nf_slots s ! i) \<longrightarrow>
        NMargin (n_surface (nf_slots s ! i)) (stack_pos (nf_slots s) i) \<in> set cs)"
  using assms
proof (induction "length (nf_slots s) - k" arbitrary: k "is")
  case 0
  then show ?case by simp
next
  case (Suc m)
  let ?ns = "nf_slots s" let ?js = "rev [Suc k..<length ?ns]"
  have k: "k < length ?ns" and m: "m = length ?ns - Suc k" using Suc.hyps(2) by simp_all
  obtain cs where ih: "nf_out (snd (fold restack_one ?js (NOTIF_GAP, s))) = cs @ nf_out s"
      "fst (fold restack_one ?js (NOTIF_GAP, s)) = stack_pos ?ns k"
      "\<forall>i. Suc k \<le> i \<and> i < length ?ns \<and> n_active (?ns ! i) \<longrightarrow> NMargin (n_surface (?ns ! i)) (stack_pos ?ns i) \<in> set cs"
    using Suc.hyps(1) [OF m _ refl] k unfolding stack_pos_def by auto
  obtain y t where yt: "fold restack_one ?js (NOTIF_GAP, s) = (y, t)" by (cases "fold restack_one ?js (NOTIF_GAP, s)")
  have t: "nf_slots t = ?ns" using restack_fold_fields(1) [of ?js "(NOTIF_GAP, s)"] yt by simp
  have "is = ?js @ [k]" using Suc.prems k by (simp add: upt_conv_Cons)
  then have f: "fold restack_one is (NOTIF_GAP, s) = restack_one k (y, t)" using yt by simp
  have d: "drop k ?ns = ?ns ! k # drop (Suc k) ?ns" using k by (simp add: Cons_nth_drop_Suc)
  show ?case
  proof (cases "n_active (?ns ! k)")
    case True
    have "nf_out (snd (restack_one k (y, t))) = (NMargin (n_surface (?ns ! k)) (stack_pos ?ns k) # cs) @ nf_out s"
      "fst (restack_one k (y, t)) = NOTIF_GAP + (\<Sum>n \<leftarrow> filter n_active (drop k ?ns). n_height n + NOTIF_GAP)"
      using ih yt t True by (simp_all add: restack_one_def Let_def d stack_pos_def)
    then show ?thesis unfolding f using ih(3) [unfolded Suc_le_eq]
      by (intro exI [of _ "NMargin (n_surface (?ns ! k)) (stack_pos ?ns k) # cs"]) (auto simp: le_less)
  next
    case False
    have "nf_out (snd (restack_one k (y, t))) = cs @ nf_out s"
      "fst (restack_one k (y, t)) = NOTIF_GAP + (\<Sum>n \<leftarrow> filter n_active (drop k ?ns). n_height n + NOTIF_GAP)"
      using ih yt t False by (simp_all add: restack_one_def Let_def d stack_pos_def)
    then show ?thesis unfolding f using ih(3) [unfolded Suc_le_eq] False
      by (intro exI [of _ cs]) (auto simp: le_less)
  qed
qed

lemma stack_pos_mono:
  assumes "i < j" and "j < length ns" and "n_active (ns ! j)" and "\<forall>n \<in> set ns. 0 \<le> n_height n"
  shows "stack_pos ns j + n_height (ns ! j) + NOTIF_GAP \<le> stack_pos ns i"
proof -
  have "drop (Suc i) ns = take (j - Suc i) (drop (Suc i) ns) @ ns ! j # drop (Suc j) ns"
    using assms(1,2) id_take_nth_drop [of "j - Suc i" "drop (Suc i) ns"] by simp
  then have "stack_pos ns i = NOTIF_GAP + (\<Sum>n \<leftarrow> filter n_active (take (j - Suc i) (drop (Suc i) ns)). n_height n + NOTIF_GAP)
      + (n_height (ns ! j) + NOTIF_GAP) + (stack_pos ns j - NOTIF_GAP)"
    using assms(3) unfolding stack_pos_def by (metis (no_types, lifting) add_diff_cancel_left' add.assoc filter.simps(2) filter_append list.map(2) map_append sum_list.Cons sum_list_append)
  moreover have "0 \<le> (\<Sum>n \<leftarrow> filter n_active (take (j - Suc i) (drop (Suc i) ns)). n_height n + NOTIF_GAP)"
    using assms(4) by (intro sum_list_nonneg) (auto simp: NOTIF_GAP_def dest!: in_set_takeD in_set_dropD)
  ultimately show ?thesis by simp
qed

text \<open>
  C28. Whatever mixture of slots is in use, the notifications on the screen do not overlap:
  restacking sends every one of them a margin, and each one ends, with its gap, above the
  next one below it.
\<close>

theorem stack_no_overlap:
  assumes "length (nf_slots s) = NOTIF_MAX" and "\<forall>n \<in> set (nf_slots s). 0 \<le> n_height n"
  shows "\<exists>pos cs. nf_out (restack s) = cs @ nf_out s \<and>
     (\<forall>i < NOTIF_MAX. n_active (nf_slots s ! i) \<longrightarrow> NMargin (n_surface (nf_slots s ! i)) (pos i) \<in> set cs) \<and>
     (\<forall>i < NOTIF_MAX. \<forall>j < NOTIF_MAX. i < j \<and> n_active (nf_slots s ! i) \<and> n_active (nf_slots s ! j) \<longrightarrow>
        pos j + n_height (nf_slots s ! j) + NOTIF_GAP \<le> pos i)"
proof -
  obtain cs where "nf_out (restack s) = cs @ nf_out s"
      "\<forall>i < NOTIF_MAX. n_active (nf_slots s ! i) \<longrightarrow> NMargin (n_surface (nf_slots s ! i)) (stack_pos (nf_slots s) i) \<in> set cs"
    using restack_fold [of 0 s "rev [0..<NOTIF_MAX]"] assms(1) by (auto simp: restack_def)
  then show ?thesis
    using stack_pos_mono [of _ _ "nf_slots s"] assms by (intro exI [of _ "stack_pos (nf_slots s)"] exI [of _ cs]) auto
qed

section \<open>Messages\<close>


section \<open>Which slot is taken\<close>

lemma slot_scan_Some:
  "slot_scan i oexp old ns = (Some k, r) \<Longrightarrow> i \<le> k \<and> k < i + length ns \<and> \<not> n_active (ns ! (k - i))"
proof (induction i oexp old ns rule: slot_scan.induct)
  case (2 i oexp old n ns)
  show ?case
  proof (cases "n_active n")
    case True
    then have "Suc i \<le> k \<and> k < Suc i + length ns \<and> \<not> n_active (ns ! (k - Suc i))"
      using 2 by (auto split: if_split_asm)
    then show ?thesis by (auto simp: nth_Cons' Suc_diff_Suc)
  qed (use 2 in auto)
qed simp

lemma slot_scan_None:
  "slot_scan i oexp old ns = (None, r) \<Longrightarrow> (\<forall>n \<in> set ns. n_active n) \<and>
     ((r = old \<and> (\<forall>n \<in> set ns. oexp \<le> n_expire n)) \<or>
      (\<exists>k < length ns. r = int (i + k) \<and> n_expire (ns ! k) < oexp \<and> (\<forall>n \<in> set ns. n_expire (ns ! k) \<le> n_expire n)))"
proof (induction i oexp old ns rule: slot_scan.induct)
  case (2 i oexp old n ns)
  have a: "n_active n" using 2(3) by (auto split: if_split_asm)
  show ?case
  proof (cases "n_expire n < oexp")
    case True
    then have "slot_scan (Suc i) (n_expire n) (int i) ns = (None, r)" using 2(3) a by simp
    from 2(1) [OF _ True this] a have
      "(\<forall>n \<in> set ns. n_active n)" "(r = int i \<and> (\<forall>m \<in> set ns. n_expire n \<le> n_expire m)) \<or>
        (\<exists>k < length ns. r = int (Suc i + k) \<and> n_expire (ns ! k) < n_expire n \<and> (\<forall>m \<in> set ns. n_expire (ns ! k) \<le> n_expire m))"
      by simp_all
    then show ?thesis
    proof (elim disjE conjE exE)
      assume "r = int i" and "\<forall>m \<in> set ns. n_expire n \<le> n_expire m" and "\<forall>n \<in> set ns. n_active n"
      then show ?thesis using a True by (intro conjI disjI2 exI [of _ 0]) auto
    next
      fix k
      assume "k < length ns" and "r = int (Suc i + k)" and "n_expire (ns ! k) < n_expire n"
        and "\<forall>m \<in> set ns. n_expire (ns ! k) \<le> n_expire m" and "\<forall>n \<in> set ns. n_active n"
      then show ?thesis using a True by (intro conjI disjI2 exI [of _ "Suc k"]) auto
    qed
  next
    case False
    then have "slot_scan (Suc i) oexp old ns = (None, r)" using 2(3) a by simp
    from 2(2) [OF _ False this] a have
      "(\<forall>n \<in> set ns. n_active n)" "(r = old \<and> (\<forall>m \<in> set ns. oexp \<le> n_expire m)) \<or>
        (\<exists>k < length ns. r = int (Suc i + k) \<and> n_expire (ns ! k) < oexp \<and> (\<forall>m \<in> set ns. n_expire (ns ! k) \<le> n_expire m))"
      by simp_all
    then show ?thesis
    proof (elim disjE conjE exE)
      assume "r = old" and "\<forall>m \<in> set ns. oexp \<le> n_expire m" and "\<forall>n \<in> set ns. n_active n"
      then show ?thesis using a False by auto
    next
      fix k
      assume "k < length ns" and "r = int (Suc i + k)" and "n_expire (ns ! k) < oexp"
        and "\<forall>m \<in> set ns. n_expire (ns ! k) \<le> n_expire m" and "\<forall>n \<in> set ns. n_active n"
      then show ?thesis using a False by (intro conjI disjI2 exI [of _ "Suc k"]) auto
    qed
  qed
qed simp

text \<open>
  Showing a notification never fails and touches one slot only: a free one when there
  is one, and otherwise the one that would have expired first. The notification is there
  with the time it was given, five seconds when it was given none.
\<close>

theorem show_takes_one_slot:
  assumes "length (nf_slots s) = NOTIF_MAX" and "\<forall>n \<in> set (nf_slots s). n_expire n < INT64_MAX"
  shows "\<exists>i s'. i < NOTIF_MAX \<and> notif_show addr now app_n smy body urg timeout s = Some s' \<and>
     (\<forall>j. j \<noteq> i \<longrightarrow> nf_slots s' ! j = nf_slots s ! j) \<and>
     (n_active (nf_slots s ! i) \<longrightarrow> (\<forall>n \<in> set (nf_slots s). n_active n \<and> n_expire (nf_slots s ! i) \<le> n_expire n)) \<and>
     n_active (nf_slots s' ! i) \<and> n_summary (nf_slots s' ! i) = strncpy 255 smy \<and> n_surface (nf_slots s' ! i) = addr \<and>
     n_expire (nf_slots s' ! i) = now + (if 0 < timeout then timeout else 5000)"
proof (cases "slot_scan 0 INT64_MAX (-1) (nf_slots s)")
  case (Pair r old)
  show ?thesis
  proof (cases r)
    case (Some i)
    then have "i < NOTIF_MAX" "\<not> n_active (nf_slots s ! i)" using slot_scan_Some Pair assms(1) by fastforce+
    then show ?thesis using Pair Some assms(1)
      by (intro exI [of _ i] exI [of _ "fill_slot i addr now app_n smy body urg timeout s"])
        (simp add: notif_show_def fill_slots NOTIF_DUR_def)
  next
    case None
    have "nf_slots s \<noteq> []" using assms(1) by (auto simp: NOTIF_MAX_def)
    then obtain n where "n \<in> set (nf_slots s)" by (cases "nf_slots s") auto
    then have "\<not> (\<forall>n \<in> set (nf_slots s). INT64_MAX \<le> n_expire n)" using assms(2) by fastforce
    with slot_scan_None [of 0 INT64_MAX "-1" "nf_slots s" old] Pair None obtain k where
      k: "\<forall>n \<in> set (nf_slots s). n_active n" "k < NOTIF_MAX" "old = int k" "\<forall>n \<in> set (nf_slots s). n_expire (nf_slots s ! k) \<le> n_expire n"
      using assms(1) by auto
    then show ?thesis using Pair None assms(1)
      by (intro exI [of _ k] exI [of _ "fill_slot k addr now app_n smy body urg timeout (dismiss k s)"])
        (simp add: notif_show_def fill_slots dismiss_slots NOTIF_DUR_def)
  qed
qed

section \<open>Examples\<close>

definition ex_slot :: "bool \<Rightarrow> int \<Rightarrow> notif" where
  "ex_slot active t = \<lparr>n_summary = ''s'', n_body = [], n_app_name = ''a'', n_urgency = 1, n_expire = t, n_id = 0,
     n_active = active, n_configured = active, n_height = 72, n_surface = nat t\<rparr>"

definition ex_notifier :: notifier where
  "ex_notifier = \<lparr>nf_slots = map (ex_slot True) [70, 30, 90] @ replicate 5 (ex_slot False 0), nf_next_id = 3,
     nf_pointer = None, nf_out = []\<rparr>"

lemma ex_notifier_simps:
  "length (nf_slots ex_notifier) = NOTIF_MAX" "\<forall>n \<in> set (nf_slots ex_notifier). n_expire n < INT64_MAX"
  "\<forall>n \<in> set (nf_slots ex_notifier). 0 \<le> n_height n" "nf_out ex_notifier = []"
  by (simp_all add: ex_notifier_def ex_slot_def NOTIF_MAX_def INT64_MAX_def)

lemma show_takes_one_slot_witness:
  "\<exists>s'. notif_show 5 100 ''a'' ''b'' [] 1 0 ex_notifier = Some s'"
  using show_takes_one_slot [OF ex_notifier_simps(1,2), of 5 100 "''a''" "''b''" "[]" 1 0] by blast

lemma ex_notifier_nth:
  "nf_slots ex_notifier ! 0 = ex_slot True 70" "nf_slots ex_notifier ! 1 = ex_slot True 30" "nf_slots ex_notifier ! 2 = ex_slot True 90"
  by (simp_all add: ex_notifier_def)

lemma stack_no_overlap_witness:
  "\<exists>pos :: nat \<Rightarrow> int. pos 2 + 72 + NOTIF_GAP \<le> pos 1 \<and> pos 1 + 72 + NOTIF_GAP \<le> pos 0"
proof -
  obtain pos where p: "\<forall>i < NOTIF_MAX. \<forall>j < NOTIF_MAX. i < j \<and> n_active (nf_slots ex_notifier ! i) \<and> n_active (nf_slots ex_notifier ! j) \<longrightarrow>
        pos j + n_height (nf_slots ex_notifier ! j) + NOTIF_GAP \<le> pos i"
    using stack_no_overlap [OF ex_notifier_simps(1,3)] by blast
  show ?thesis
    using p [rule_format, of 1 2] p [rule_format, of 0 1] unfolding ex_notifier_nth
    by (intro exI [of _ pos]) (simp add: NOTIF_MAX_def ex_slot_def)
qed


lemma notifications_expire_on_time_witness:
  "\<exists>s'. notif_turn [] 5 0 None 40 ex_notifier = Some s' \<and> 0 < poll_timeout 40 s'"
proof -
  have s: "nf_slots (expire 40 ex_notifier) = [ex_slot True 70, retired (ex_slot True 30), ex_slot True 90] @ replicate 5 (ex_slot False 0)"
    by (simp add: expire_slots [OF ex_notifier_simps(1)]) (simp add: ex_notifier_def expired_at_def ex_slot_def retired_def)
  have t: "notif_turn [] 5 0 None 40 ex_notifier = Some (expire 40 ex_notifier)" by (simp add: notif_turn_def)
  show ?thesis
    using notifications_expire_on_time [OF t ex_notifier_simps(1)] t unfolding s
    by (simp add: ex_slot_def INT64_MAX_def retired_def)
qed

end
