(* ===== verification/Kumlock.thy ===== *)
theory Kumlock
  imports Lock Client_Keys
begin

text \<open>
  The screen locker (\<open>kumlock\<close>): password entry, the lock surfaces of the outputs, and the
  requests it sends. Requests are queued by the Wayland library and leave the process when
  the display is flushed, which the client only does by dispatching or in a round trip.
  PAM is the function \<open>p_auth\<close> of the user name and the password.
\<close>

section \<open>State\<close>

definition INPUT_MAX :: nat where "INPUT_MAX = 256"

record lock_surface =
  sf_output :: nat
  sf_created :: bool       \<comment> \<open>\<open>surface\<close> and \<open>lock_surface\<close> have been created\<close>
  sf_width :: int
  sf_height :: int
  sf_configured :: bool

datatype lock_draw =
    ClockText rat rat
  | DateText rat rat
  | UserText string rat rat
  | Dot int int bool
  | Hint string rat rat bool

datatype lock_request =
    RqLock
  | RqGetLockSurface nat       \<comment> \<open>for the output of this name\<close>
  | RqAttach nat int int "lock_draw list"
  | RqUnlock

text \<open>The extents cairo reports for a text: width, horizontal and vertical bearing.\<close>

record locker_env =
  p_auth :: "string \<Rightarrow> string \<Rightarrow> bool"
  p_shm :: "int \<Rightarrow> int \<Rightarrow> bool"
  p_extents :: "string \<Rightarrow> rat \<times> rat \<times> rat"
  p_clock :: "string \<times> string"

record locker =
  lk_running :: bool
  lk_locked :: bool
  lk_lock :: bool              \<comment> \<open>\<open>app.lock\<close> is not null\<close>
  lk_surfaces :: "lock_surface list"
  lk_keymap :: bool
  lk_input :: string
  lk_error :: bool
  lk_username :: string
  lk_queue :: "lock_request list"
  lk_sent :: "lock_request list"

definition request :: "lock_request \<Rightarrow> locker \<Rightarrow> locker" where
  "request r s = s\<lparr>lk_queue := lk_queue s @ [r]\<rparr>"

definition lk_flush :: "locker \<Rightarrow> locker" where
  "lk_flush s = s\<lparr>lk_sent := lk_sent s @ lk_queue s, lk_queue := []\<rparr>"

section \<open>Drawing\<close>

text \<open>A row of dots, one per byte of the input, at most 32.\<close>

definition dot_count :: "locker \<Rightarrow> int" where
  "dot_count s = min (int (length (lk_input s))) 32"

definition dots_width :: "int \<Rightarrow> int" where
  "dots_width n = (if 0 < n then n * (6 * 2) + (n - 1) * (18 - 6 * 2) else 0)"

definition dots_left :: "int \<Rightarrow> int \<Rightarrow> int" where
  "dots_left width n = trunc (of_int (width - dots_width n) / 2)"

definition dots :: "locker \<Rightarrow> int \<Rightarrow> int \<Rightarrow> lock_draw list" where
  "dots s width oy = map (\<lambda>i. Dot (dots_left width (dot_count s) + i * 18 + 6) oy (lk_error s)) [0..dot_count s - 1]"

definition centred :: "locker_env \<Rightarrow> int \<Rightarrow> string \<Rightarrow> rat" where
  "centred E width t = (let (w, xb, yb) = p_extents E t in f64 (f64 (f64 (of_int width - w) / 2) - xb))"

definition lock_frame :: "locker_env \<Rightarrow> locker \<Rightarrow> int \<Rightarrow> int \<Rightarrow> lock_draw list" where
  "lock_frame E s width height =
     (let (time, date) = p_clock E; yb = (\<lambda>t. snd (snd (p_extents E t)));
          h38 = f64 (of_int height * f64 (38 / 100));
          oy = trunc (f64 (of_int height * f64 (56 / 100)));
          hint = (if lk_error s then ''incorrect password'' else ''enter password'')
      in [ClockText (centred E width time) (f64 (h38 - f64 (yb time / 2))), DateText (centred E width date) (f64 (h38 + 56))] @
         (if lk_username s \<noteq> [] then [UserText (lk_username s) (centred E width (lk_username s)) (f64 (h38 + 84))] else []) @
         dots s width oy @
         (if dot_count s = 0
          then [Hint hint (centred E width hint) (f64 (of_int oy - f64 (yb hint / 2))) (lk_error s)] else []))"

definition render_surface :: "locker_env \<Rightarrow> lock_surface \<Rightarrow> locker \<Rightarrow> locker" where
  "render_surface E f s =
     (if \<not> sf_configured f \<or> sf_width f = 0 \<or> \<not> p_shm E (sf_width f) (sf_height f) then s
      else request (RqAttach (sf_output f) (sf_width f) (sf_height f) (lock_frame E s (sf_width f) (sf_height f))) s)"

definition render_all :: "locker_env \<Rightarrow> locker \<Rightarrow> locker" where
  "render_all E s = fold (render_surface E) (lk_surfaces s) s"

section \<open>Password entry\<close>

text \<open>PAM reads the input as a C string.\<close>

definition verify_password :: "locker_env \<Rightarrow> locker \<Rightarrow> bool" where
  "verify_password E s = p_auth E (lk_username s) (c_str (lk_input s))"

text \<open>\<open>None\<close>: the lock has been given up already, a request on a null object.\<close>

definition attempt_unlock :: "locker_env \<Rightarrow> locker \<Rightarrow> locker option" where
  "attempt_unlock E s =
     (if verify_password E s then
        (if \<not> lk_lock s then None else Some ((request RqUnlock s)\<lparr>lk_lock := False, lk_running := False\<rparr>))
      else Some (render_all E (s\<lparr>lk_error := True, lk_input := []\<rparr>)))"

definition enter_text :: "locker_env \<Rightarrow> string \<Rightarrow> locker \<Rightarrow> locker option" where
  "enter_text E u s =
     (if u \<noteq> [] \<and> length (lk_input s) + length u < INPUT_MAX - 1 then
        do { b \<leftarrow> key_bytes u; Some (render_all E (s\<lparr>lk_input := lk_input s @ b, lk_error := False\<rparr>)) }
      else Some s)"

definition locker_handle_key :: "locker_env \<Rightarrow> string \<Rightarrow> string \<Rightarrow> bool \<Rightarrow> locker \<Rightarrow> locker option" where
  "locker_handle_key E ks utf8 pressed s =
     (if \<not> pressed then Some s
      else if \<not> lk_keymap s then None
      else if ks = ''Return'' \<or> ks = ''KP_Enter'' then attempt_unlock E s
      else if ks = ''BackSpace'' then
        (if lk_input s \<noteq> [] then Some (render_all E (s\<lparr>lk_input := butlast (lk_input s), lk_error := False\<rparr>)) else Some s)
      else if ks = ''Escape'' then Some (render_all E (s\<lparr>lk_input := [], lk_error := False\<rparr>))
      else enter_text E utf8 s)"

section \<open>Surfaces and the lock\<close>

definition output_create_lock_surface :: "nat \<Rightarrow> locker \<Rightarrow> locker" where
  "output_create_lock_surface i s =
     (if \<not> lk_lock s then s
      else request (RqGetLockSurface (sf_output (lk_surfaces s ! i)))
        (s\<lparr>lk_surfaces := (lk_surfaces s)[i := (lk_surfaces s ! i)\<lparr>sf_created := True\<rparr>]\<rparr>))"

definition lock_surface_configure :: "locker_env \<Rightarrow> nat \<Rightarrow> int \<Rightarrow> int \<Rightarrow> locker \<Rightarrow> locker" where
  "lock_surface_configure E i w h s =
     (let f = (lk_surfaces s ! i)\<lparr>sf_width := w, sf_height := h, sf_configured := True\<rparr>
      in render_surface E f (s\<lparr>lk_surfaces := (lk_surfaces s)[i := f]\<rparr>))"

definition session_lock_locked :: "locker_env \<Rightarrow> locker \<Rightarrow> locker" where
  "session_lock_locked E s = render_all E (s\<lparr>lk_locked := True\<rparr>)"

definition registry_output :: "nat \<Rightarrow> locker \<Rightarrow> locker" where
  "registry_output name s = s\<lparr>lk_surfaces := wl_insert
     \<lparr>sf_output = name, sf_created = False, sf_width = 0, sf_height = 0, sf_configured = False\<rparr> (lk_surfaces s)\<rparr>"

datatype lock_event =
    LkKeymap bool
  | LkKey string string bool
  | LkConfigure nat int int      \<comment> \<open>for the surface in this position\<close>
  | LkOutput nat
  | LkOutputDone nat
  | LkLocked
  | LkFinished

fun locker_step :: "locker_env \<Rightarrow> lock_event \<Rightarrow> locker \<Rightarrow> locker option" where
  "locker_step E (LkKeymap mapped) s = Some (if mapped then s\<lparr>lk_keymap := True\<rparr> else s)"
| "locker_step E (LkKey ks u p) s = locker_handle_key E ks u p s"
| "locker_step E (LkConfigure i w h) s =
     (if i < length (lk_surfaces s) then Some (lock_surface_configure E i w h s) else None)"
| "locker_step E (LkOutput name) s = Some (registry_output name s)"
| "locker_step E (LkOutputDone i) s =
     (if i < length (lk_surfaces s) then Some (output_create_lock_surface i s) else None)"
| "locker_step E LkLocked s = Some (session_lock_locked E s)"
| "locker_step E LkFinished s = Some (s\<lparr>lk_running := False\<rparr>)"

section \<open>The program\<close>

text \<open>
  \<open>main\<close> up to its loop: the events of the two round trips, the lock request, a lock surface for
  every output, a third round trip.
\<close>

definition locker_start :: "locker_env \<Rightarrow> string option \<Rightarrow> lock_event list \<Rightarrow> lock_event list \<Rightarrow> locker option" where
  "locker_start E user es fs =
     do { s1 \<leftarrow> run (locker_step E) es
            \<lparr>lk_running = True, lk_locked = False, lk_lock = False, lk_surfaces = [], lk_keymap = False, lk_input = [],
             lk_error = False, lk_username = (case user of None \<Rightarrow> [] | Some u \<Rightarrow> strncpy 63 u), lk_queue = [], lk_sent = []\<rparr>;
          let s2 = (request RqLock s1)\<lparr>lk_lock := True\<rparr>;
          let s3 = fold output_create_lock_surface [0..<length (lk_surfaces s2)] s2;
          run (locker_step E) fs (lk_flush s3) }"

text \<open>
  The loop: while the program runs, a dispatch flushes the queue, waits for a batch of events and
  handles it. The list holds the batches the compositor will deliver; \<open>Some\<close> at its end means
  that the connection failed.
\<close>

fun locker_loop :: "locker_env \<Rightarrow> lock_event list list \<Rightarrow> locker \<Rightarrow> locker option" where
  "locker_loop E [] s = Some (if lk_running s then lk_flush s else s)"
| "locker_loop E (es # ess) s =
     (if \<not> lk_running s then Some s
      else do { t \<leftarrow> run (locker_step E) es (lk_flush s); locker_loop E ess t })"

section \<open>What drawing changes\<close>

text \<open>Drawing only queues frames.\<close>

definition frames_only :: "locker \<Rightarrow> locker \<Rightarrow> bool" where
  "frames_only s t \<longleftrightarrow> (\<exists>rs. (\<forall>r \<in> set rs. \<exists>n w h ds. r = RqAttach n w h ds) \<and> t = s\<lparr>lk_queue := lk_queue s @ rs\<rparr>)"

lemma frames_only_refl [simp]: "frames_only s s"
  unfolding frames_only_def by (rule exI [of _ "[]"]) simp

lemma frames_only_trans: "frames_only s t \<Longrightarrow> frames_only t u \<Longrightarrow> frames_only s u"
  unfolding frames_only_def
proof (elim exE conjE)
  fix rs qs
  assume "\<forall>r \<in> set rs. \<exists>n w h ds. r = RqAttach n w h ds" "t = s\<lparr>lk_queue := lk_queue s @ rs\<rparr>"
    "\<forall>r \<in> set qs. \<exists>n w h ds. r = RqAttach n w h ds" "u = t\<lparr>lk_queue := lk_queue t @ qs\<rparr>"
  then show "\<exists>rs. (\<forall>r \<in> set rs. \<exists>n w h ds. r = RqAttach n w h ds) \<and> u = s\<lparr>lk_queue := lk_queue s @ rs\<rparr>"
    by (intro exI [of _ "rs @ qs"]) auto
qed

lemma frames_render: "frames_only s (render_surface E f s)"
  unfolding render_surface_def request_def frames_only_def
  by (cases "\<not> sf_configured f \<or> sf_width f = 0 \<or> \<not> p_shm E (sf_width f) (sf_height f)") (auto intro: exI [of _ "[]"]
      exI [of _ "[RqAttach (sf_output f) (sf_width f) (sf_height f) (lock_frame E s (sf_width f) (sf_height f))]"])

lemma frames_fold: "frames_only s (fold (render_surface E) fs s)"
  by (induction fs arbitrary: s) (auto intro: frames_only_trans [OF frames_render])

lemma frames_all: "frames_only s (render_all E s)"
  by (simp add: render_all_def frames_fold)

lemma frames_fields:
  assumes "frames_only s t"
  shows "lk_running t = lk_running s" "lk_lock t = lk_lock s" "lk_input t = lk_input s" "lk_sent t = lk_sent s"
    "lk_username t = lk_username s" "lk_keymap t = lk_keymap s" "RqUnlock \<in> set (lk_queue t) \<longleftrightarrow> RqUnlock \<in> set (lk_queue s)"
  using assms by (auto simp: frames_only_def)

lemmas render_all_fields [simp] = frames_fields [OF frames_all]
lemmas render_surface_fields [simp] = frames_fields [OF frames_render]

lemma request_fields [simp]:
  "lk_running (request r s) = lk_running s" "lk_lock (request r s) = lk_lock s" "lk_input (request r s) = lk_input s"
  "lk_sent (request r s) = lk_sent s" "lk_username (request r s) = lk_username s" "lk_keymap (request r s) = lk_keymap s"
  "lk_queue (request r s) = lk_queue s @ [r]"
  by (simp_all add: request_def)

section \<open>The password\<close>

definition unlock_requested :: "locker \<Rightarrow> bool" where
  "unlock_requested s \<longleftrightarrow> RqUnlock \<in> set (lk_queue s) \<or> RqUnlock \<in> set (lk_sent s)"

lemma unlock_step:
  assumes "locker_step E e s = Some t" and "\<not> unlock_requested s" and "unlock_requested t"
  shows "\<exists>ks u. e = LkKey ks u True \<and> (ks = ''Return'' \<or> ks = ''KP_Enter'') \<and> p_auth E (lk_username s) (c_str (lk_input s))"
proof (cases e)
  case (LkKey ks u p)
  then have k: "locker_handle_key E ks u p s = Some t" using assms(1) by simp
  have "p \<and> (ks = ''Return'' \<or> ks = ''KP_Enter'')"
    using k assms(2,3)
    by (auto simp: locker_handle_key_def enter_text_def unlock_requested_def split: if_split_asm Option.bind_split_asm)
  then show ?thesis
    using k LkKey assms(2,3)
    by (auto simp: locker_handle_key_def attempt_unlock_def verify_password_def unlock_requested_def split: if_split_asm)
qed (use assms in \<open>auto simp: unlock_requested_def lock_surface_configure_def output_create_lock_surface_def
    session_lock_locked_def registry_output_def Let_def split: if_split_asm\<close>)

text \<open>
  C21. The screen locker asks for the unlock only after PAM has accepted what was typed:
  in any sequence of events the first unlock request is made by a press of Return or Enter
  with the user's password in the input.
\<close>

theorem unlock_needs_password:
  assumes "run (locker_step E) es s = Some t" and "\<not> unlock_requested s" and "unlock_requested t"
  shows "\<exists>as ks u bs m. es = as @ LkKey ks u True # bs \<and> (ks = ''Return'' \<or> ks = ''KP_Enter'') \<and>
     run (locker_step E) as s = Some m \<and> \<not> unlock_requested m \<and> p_auth E (lk_username m) (c_str (lk_input m))"
  using assms
proof (induction es arbitrary: s)
  case (Cons e es)
  then obtain r where r: "locker_step E e s = Some r" "run (locker_step E) es r = Some t"
    by (cases "locker_step E e s") auto
  show ?case
  proof (cases "unlock_requested r")
    case True
    then show ?thesis using unlock_step [OF r(1)] Cons.prems(2) by (metis append_Nil run.simps(1))
  next
    case False
    from Cons.IH [OF r(2) False Cons.prems(3)] obtain as ks u bs m where
      "es = as @ LkKey ks u True # bs" "ks = ''Return'' \<or> ks = ''KP_Enter''"
      "run (locker_step E) as r = Some m" "\<not> unlock_requested m" "p_auth E (lk_username m) (c_str (lk_input m))" by blast
    then show ?thesis using r(1) by (intro exI [of _ "e # as"] exI [of _ ks] exI [of _ u] exI [of _ bs] exI [of _ m]) simp
  qed
qed simp

text \<open>The input never fills its array.\<close>

definition input_fits :: "locker \<Rightarrow> bool" where
  "input_fits s \<longleftrightarrow> length (lk_input s) < INPUT_MAX - 1"

interpretation locker: event_machine "locker_step E" input_fits for E
proof
  fix s t e
  assume i: "input_fits s" and st: "locker_step E e s = Some t"
  show "input_fits t"
  proof (cases e)
    case (LkKey ks u p)
    then show ?thesis using i st
      by (auto simp: locker_handle_key_def attempt_unlock_def enter_text_def input_fits_def INPUT_MAX_def
          split: if_split_asm Option.bind_split_asm dest: key_bytes_length)
  qed (use i st in \<open>auto simp: input_fits_def lock_surface_configure_def output_create_lock_surface_def
      session_lock_locked_def registry_output_def Let_def split: if_split_asm\<close>)
qed

section \<open>The unlock request is never sent\<close>

text \<open>
  What the compositor makes of a locker that is gone: the unlock, when it was sent, and then the
  destruction of the lock with the client.
\<close>

definition client_gone :: "locker \<Rightarrow> kum_server \<Rightarrow> kum_server" where
  "client_gone t v = active_lock_destroy (if RqUnlock \<in> set (lk_sent t) then active_lock_unlock v else v)"

text \<open>
  C37. The right password does not unlock the session. The press of Return queues the unlock
  and ends the loop, the program exits without another dispatch, round trip or flush, and
  the request is still in the queue (it would only leave it when the library's buffer runs
  full). The compositor sees a lock client that died: the session stays locked and refuses
  every new lock.
\<close>

theorem right_password_stays_locked:
  assumes "verify_password E s" and "lk_running s" and "lk_keymap s" and "lk_lock s" and "\<not> unlock_requested s" and "locked v"
  shows "\<exists>t. locker_loop E ([LkKey ''Return'' u True] # ess) s = Some t \<and> \<not> lk_running t \<and>
     RqUnlock \<in> set (lk_queue t) \<and> RqUnlock \<notin> set (lk_sent t) \<and>
     locked (client_gone t v) \<and> new_session_lock F l (client_gone t v) = emit (System (LockDestroy l)) (client_gone t v)"
proof -
  let ?f = "lk_flush s"
  have f: "lk_keymap ?f" "lk_lock ?f" "verify_password E ?f" "RqUnlock \<notin> set (lk_sent ?f)"
    using assms by (auto simp: lk_flush_def verify_password_def unlock_requested_def)
  let ?t = "(request RqUnlock ?f)\<lparr>lk_lock := False, lk_running := False\<rparr>"
  have "locker_loop E ([LkKey ''Return'' u True] # ess) s = locker_loop E ess ?t"
    using assms(2) f by (simp add: locker_handle_key_def attempt_unlock_def)
  also have "\<dots> = Some ?t" by (cases ess) simp_all
  finally show ?thesis
    using f(4) assms(6) by (intro exI [of _ ?t]) (simp add: client_gone_def active_lock_destroy_def new_session_lock_def)
qed

text \<open>A second \<open>done\<close> event of an output asks for a second lock surface, which the protocol forbids.\<close>

lemma output_done_duplicates:
  assumes "i < length (lk_surfaces s)" and "lk_lock s"
  shows "\<exists>t. locker_step E (LkOutputDone i) s = Some t \<and>
     lk_queue t = lk_queue s @ [RqGetLockSurface (sf_output (lk_surfaces s ! i))]"
  using assms by (simp add: output_create_lock_surface_def)

section \<open>The row of dots\<close>

lemma trunc_half: "trunc (of_int k / 2) = (if 0 \<le> k then k div 2 else - (- k div 2))"
proof (cases "0 \<le> k")
  case True
  have "\<lfloor>of_int k / 2 :: rat\<rfloor> = k div 2" using floor_divide_of_int_eq [of k 2] by simp
  with True show ?thesis by (simp add: trunc_def)
next
  case False
  have "\<lfloor>of_int (- k) / 2 :: rat\<rfloor> = - k div 2" using floor_divide_of_int_eq [of "- k" 2] by simp
  with False show ?thesis by (simp add: trunc_def zero_le_divide_iff)
qed

text \<open>
  The dots stay within a row that is centred on the screen, one pixel off at most, and never more
  than 570 pixels wide: the first 32 bytes of the input are shown.
\<close>

lemma dots_in_row:
  assumes "Dot cx y e \<in> set (dots s width oy)"
  shows "dots_left width (dot_count s) + 6 \<le> cx \<and> cx + 6 \<le> dots_left width (dot_count s) + dots_width (dot_count s) \<and>
     dots_width (dot_count s) \<le> 570 \<and> \<bar>2 * dots_left width (dot_count s) + dots_width (dot_count s) - width\<bar> \<le> 1 \<and> e = lk_error s"
proof -
  obtain i where i: "0 \<le> i" "i \<le> dot_count s - 1" "cx = dots_left width (dot_count s) + i * 18 + 6" "e = lk_error s"
    using assms by (auto simp: dots_def)
  have w: "dots_width (dot_count s) = 18 * dot_count s - 6" "dot_count s \<le> 32" using i(1,2) by (auto simp: dots_width_def dot_count_def)
  have "\<bar>2 * dots_left width (dot_count s) + dots_width (dot_count s) - width\<bar> \<le> 1"
    unfolding dots_left_def trunc_half by auto
  then show ?thesis using i w by auto
qed

section \<open>Examples\<close>

definition ex_locker_env :: locker_env where
  "ex_locker_env = \<lparr>p_auth = (\<lambda>u p. u = ''kim'' \<and> p = ''pw''), p_shm = (\<lambda>_ _. True), p_extents = (\<lambda>_. (0, 0, 0)),
     p_clock = (''12:00'', ''Monday'')\<rparr>"

definition ex_locker :: locker where
  "ex_locker = \<lparr>lk_running = True, lk_locked = True, lk_lock = True, lk_surfaces = [], lk_keymap = True, lk_input = ''p'',
     lk_error = False, lk_username = ''kim'', lk_queue = [], lk_sent = [RqLock]\<rparr>"

lemma ex_locker_simps: "\<not> unlock_requested ex_locker" "\<not> unlock_requested (ex_locker\<lparr>lk_input := ''pw''\<rparr>)"
  by (simp_all add: ex_locker_def unlock_requested_def)

lemma unlock_needs_password_witness:
  "\<exists>as ks u bs m. [LkKey ''w'' ''w'' True, LkKey ''Return'' [] True] = as @ LkKey ks u True # bs \<and>
     run (locker_step ex_locker_env) as ex_locker = Some m \<and> p_auth ex_locker_env (lk_username m) (c_str (lk_input m))"
proof -
  let ?m = "ex_locker\<lparr>lk_input := ''pw''\<rparr>"
  have 1: "locker_step ex_locker_env (LkKey ''w'' ''w'' True) ex_locker = Some ?m"
    by (simp add: locker_handle_key_def enter_text_def key_bytes_def ex_locker_def INPUT_MAX_def render_all_def)
  have 2: "locker_step ex_locker_env (LkKey ''Return'' [] True) ?m = Some ((request RqUnlock ?m)\<lparr>lk_lock := False, lk_running := False\<rparr>)"
    by (simp add: locker_handle_key_def attempt_unlock_def verify_password_def ex_locker_def ex_locker_env_def c_str_def)
  have r: "run (locker_step ex_locker_env) [LkKey ''w'' ''w'' True, LkKey ''Return'' [] True] ex_locker
      = Some ((request RqUnlock ?m)\<lparr>lk_lock := False, lk_running := False\<rparr>)"
    using 1 2 by simp
  have "unlock_requested ((request RqUnlock ?m)\<lparr>lk_lock := False, lk_running := False\<rparr>)" by (simp add: unlock_requested_def)
  from unlock_needs_password [OF r ex_locker_simps(1) this] show ?thesis by blast
qed

lemma right_password_stays_locked_witness:
  "\<exists>t. locker_loop ex_locker_env [[LkKey ''Return'' [] True]] (ex_locker\<lparr>lk_input := ''pw''\<rparr>) = Some t \<and> \<not> lk_running t \<and>
     locked (client_gone t (ex_server\<lparr>locked := True\<rparr>))"
proof -
  have "verify_password ex_locker_env (ex_locker\<lparr>lk_input := ''pw''\<rparr>)" "lk_running (ex_locker\<lparr>lk_input := ''pw''\<rparr>)"
    "lk_keymap (ex_locker\<lparr>lk_input := ''pw''\<rparr>)" "lk_lock (ex_locker\<lparr>lk_input := ''pw''\<rparr>)" "locked (ex_server\<lparr>locked := True\<rparr>)"
    by (simp_all add: verify_password_def ex_locker_def ex_locker_env_def c_str_def)
  from right_password_stays_locked [OF this(1-4) ex_locker_simps(2) this(5), of "[]" "[]"] show ?thesis by blast
qed

end
