(* ===== verification/Kumclip.thy ===== *)
theory Kumclip
  imports CString
begin

text \<open>
  The clipboard daemon (\<open>kumclip\<close>): it reads what another client puts on the clipboard and
  offers it again from a source of its own. Offers and sources are protocol objects with an
  address; \<open>cl_live\<close> is the list of those the client has and has not destroyed, and the use of
  any other one is \<open>None\<close>.
\<close>

section \<open>State\<close>

definition CLIP_MAX :: nat where "CLIP_MAX = 32 * 1024 * 1024"

definition MIME_TEXT :: string where "MIME_TEXT = ''text/plain;charset=utf-8''"
definition MIME_ALT :: string where "MIME_ALT = ''text/plain''"
definition MIME_UTF8 :: string where "MIME_UTF8 = ''UTF8_STRING''"
definition MIME_STRING :: string where "MIME_STRING = ''STRING''"
definition MIME_PNG :: string where "MIME_PNG = ''image/png''"
definition MIME_JPEG :: string where "MIME_JPEG = ''image/jpeg''"

definition mime_is_text :: "string \<Rightarrow> bool" where
  "mime_is_text m \<longleftrightarrow> m = MIME_TEXT \<or> m = MIME_ALT \<or> m = MIME_UTF8 \<or> m = MIME_STRING"

datatype clip_request =
    ClReceive nat string
  | ClDestroy nat
  | ClSource nat
  | ClOffer nat string
  | ClSetSelection nat
  | ClWrote string          \<comment> \<open>what went to the descriptor of a paste before it was closed\<close>

record clip =
  cl_ddm :: bool
  cl_dd :: bool
  cl_source :: "nat option"
  cl_held :: "(string \<times> string) option"     \<comment> \<open>type and bytes, \<open>None\<close>: \<open>held.data\<close> is null\<close>
  cl_is_owner :: bool
  cl_pending :: "nat option"
  cl_has_text :: bool
  cl_image_mime :: string
  cl_live :: "nat list"
  cl_out :: "clip_request list"

definition cl_emit :: "clip_request \<Rightarrow> clip \<Rightarrow> clip" where
  "cl_emit r s = s\<lparr>cl_out := cl_out s @ [r]\<rparr>"

definition cl_destroy :: "nat \<Rightarrow> clip \<Rightarrow> clip option" where
  "cl_destroy x s = (if x \<in> set (cl_live s) then Some (cl_emit (ClDestroy x) (s\<lparr>cl_live := wl_remove x (cl_live s)\<rparr>)) else None)"

definition cl_create :: "nat \<Rightarrow> clip \<Rightarrow> clip" where
  "cl_create x s = s\<lparr>cl_live := wl_insert x (cl_live s)\<rparr>"

section \<open>Reading an offer and writing a paste\<close>

text \<open>
  What the system answers: no pipe, no memory, or the results of \<open>read\<close> in turn, where an
  empty one is the end of the file or an error. A read gets at most the room that is left.
\<close>

datatype clip_answer = NoPipe | NoMemory | Reads "string list"

fun read_all :: "nat \<Rightarrow> string list \<Rightarrow> string" where
  "read_all room [] = []"
| "read_all room (d # ds) =
     (if room = 0 \<or> d = [] then [] else take room d @ read_all (room - length d) ds)"

definition clip_read :: "(string \<Rightarrow> clip_answer) \<Rightarrow> nat \<Rightarrow> string \<Rightarrow> clip \<Rightarrow> (string \<times> string) option \<times> clip" where
  "clip_read rd x m s =
     (case rd m of
        NoPipe \<Rightarrow> (None, s)
      | NoMemory \<Rightarrow> (None, cl_emit (ClReceive x m) s)
      | Reads ds \<Rightarrow> (let d = read_all CLIP_MAX ds in
          (if d = [] then None else Some (strncpy 127 m, d), cl_emit (ClReceive x m) s)))"

text \<open>The types are tried in turn until one gives a byte.\<close>

fun clip_read_first :: "(string \<Rightarrow> clip_answer) \<Rightarrow> nat \<Rightarrow> string list \<Rightarrow> clip \<Rightarrow> (string \<times> string) option \<times> clip" where
  "clip_read_first rd x [] s = (None, s)"
| "clip_read_first rd x (m # ms) s =
     (case clip_read rd x m s of
        (Some c, s1) \<Rightarrow> (Some c, s1)
      | (None, s1) \<Rightarrow> clip_read_first rd x ms s1)"

text \<open>The results of \<open>write\<close> in turn; a result that is not positive ends the paste.\<close>

fun written :: "int list \<Rightarrow> string \<Rightarrow> string" where
  "written [] d = []"
| "written (n # ns) d = (if d = [] \<or> n \<le> 0 then [] else take (nat n) d @ written ns (drop (nat n) d))"

definition source_send :: "int list \<Rightarrow> clip \<Rightarrow> clip" where
  "source_send ns s = (case cl_held s of None \<Rightarrow> s | Some (m, d) \<Rightarrow> cl_emit (ClWrote (written ns d)) s)"

definition source_cancelled :: "nat \<Rightarrow> clip \<Rightarrow> clip option" where
  "source_cancelled x s =
     do { s1 \<leftarrow> cl_destroy x (s\<lparr>cl_is_owner := False\<rparr>);
          Some (if cl_source s1 = Some x then s1\<lparr>cl_source := None\<rparr> else s1) }"

section \<open>Owning the clipboard\<close>

definition claimed_types :: "string \<Rightarrow> string list" where
  "claimed_types m = (if mime_is_text m then [MIME_TEXT, MIME_ALT, MIME_UTF8, MIME_STRING] else [m])"

definition claim :: "nat \<Rightarrow> clip \<Rightarrow> clip option" where
  "claim x s =
     (case cl_held s of
        None \<Rightarrow> Some s
      | Some (m, d) \<Rightarrow>
          if cl_is_owner s \<or> \<not> cl_dd s then Some s
          else do {
            s1 \<leftarrow> (case cl_source s of None \<Rightarrow> Some s | Some y \<Rightarrow> cl_destroy y s);
            let s2 = cl_emit (ClSource x) (cl_create x (s1\<lparr>cl_source := Some x\<rparr>));
                s3 = fold (\<lambda>m. cl_emit (ClOffer x m)) (claimed_types m) s2;
                s4 = cl_emit (ClSetSelection x) s3
            in Some (s4\<lparr>cl_is_owner := True\<rparr>) })"

definition offer_mime :: "string \<Rightarrow> clip \<Rightarrow> clip" where
  "offer_mime m s =
     (if mime_is_text m then s\<lparr>cl_has_text := True\<rparr>
      else if cl_image_mime s = [] \<and> (m = MIME_PNG \<or> m = MIME_JPEG) then s\<lparr>cl_image_mime := strncpy 31 m\<rparr>
      else s)"

definition dd_data_offer :: "nat \<Rightarrow> clip \<Rightarrow> clip option" where
  "dd_data_offer x s =
     do { s1 \<leftarrow> (case cl_pending s of None \<Rightarrow> Some s | Some y \<Rightarrow> cl_destroy y s);
          Some (s1\<lparr>cl_pending := Some x, cl_has_text := False, cl_image_mime := []\<rparr>) }"

definition dd_selection :: "(string \<Rightarrow> clip_answer) \<Rightarrow> nat \<Rightarrow> nat option \<Rightarrow> clip \<Rightarrow> clip option" where
  "dd_selection rd src sel s =
     (if cl_is_owner s then Some s
      else case sel of
        None \<Rightarrow> Some s
      | Some x \<Rightarrow>
          if \<not> cl_has_text s \<and> cl_image_mime s = [] then
            do { s1 \<leftarrow> cl_destroy x s; Some (s1\<lparr>cl_pending := None\<rparr>) }
          else do {
            let (r, s1) = clip_read_first rd x
                  ((if cl_has_text s then [MIME_TEXT, MIME_ALT, MIME_UTF8, MIME_STRING] else [])
                   @ (if cl_image_mime s = [] then [] else [cl_image_mime s])) s;
            s2 \<leftarrow> cl_destroy x s1;
            let s3 = s2\<lparr>cl_pending := None\<rparr>;
            (case r of None \<Rightarrow> Some s3 | Some c \<Rightarrow> claim src (s3\<lparr>cl_held := Some c\<rparr>)) })"

definition dd_primary_selection :: "nat option \<Rightarrow> clip \<Rightarrow> clip option" where
  "dd_primary_selection sel s = (case sel of None \<Rightarrow> Some s | Some x \<Rightarrow> cl_destroy x s)"

definition seat_caps :: "clip \<Rightarrow> clip" where
  "seat_caps s = (if \<not> cl_dd s \<and> cl_ddm s then s\<lparr>cl_dd := True\<rparr> else s)"

text \<open>
  What the compositor can send. The library makes the object of a new offer before it calls
  the handler; \<open>ClSelection\<close> carries what the reads answer and the address a new source would get.
\<close>

datatype clip_event =
    ClSeatCaps
  | ClDataOffer nat
  | ClMime string
  | ClSelection "string \<Rightarrow> clip_answer" nat "nat option"
  | ClPrimary "nat option"
  | ClSend "int list"
  | ClCancelled nat

fun clip_step :: "clip_event \<Rightarrow> clip \<Rightarrow> clip option" where
  "clip_step ClSeatCaps s = Some (seat_caps s)"
| "clip_step (ClDataOffer x) s = dd_data_offer x (cl_create x s)"
| "clip_step (ClMime m) s = Some (offer_mime m s)"
| "clip_step (ClSelection rd src sel) s = dd_selection rd src sel s"
| "clip_step (ClPrimary sel) s = dd_primary_selection sel s"
| "clip_step (ClSend ns) s = Some (source_send ns s)"
| "clip_step (ClCancelled x) s = source_cancelled x s"

definition clip_init :: "bool \<Rightarrow> clip" where
  "clip_init ddm = \<lparr>cl_ddm = ddm, cl_dd = False, cl_source = None, cl_held = None, cl_is_owner = False,
     cl_pending = None, cl_has_text = False, cl_image_mime = [], cl_live = [], cl_out = []\<rparr>"

section \<open>No use of a destroyed object\<close>

definition clip_ok :: "clip \<Rightarrow> bool" where
  "clip_ok s \<longleftrightarrow>
     (\<forall>x. cl_source s = Some x \<longrightarrow> x \<in> set (cl_live s) \<and> cl_pending s \<noteq> Some x) \<and>
     (\<forall>x. cl_pending s = Some x \<longrightarrow> x \<in> set (cl_live s)) \<and>
     (cl_is_owner s \<longrightarrow> cl_source s \<noteq> None \<and> cl_held s \<noteq> None)"

text \<open>
  What the protocol promises: new objects have fresh addresses, a selection is the offer
  announced last, and only the source of the client is cancelled.
\<close>

fun clip_fits :: "clip_event \<Rightarrow> clip \<Rightarrow> bool" where
  "clip_fits (ClDataOffer x) s = (x \<notin> set (cl_live s))"
| "clip_fits (ClSelection rd src sel) s = (src \<notin> set (cl_live s) \<and> (case sel of None \<Rightarrow> True | Some x \<Rightarrow> cl_pending s = Some x))"
| "clip_fits (ClPrimary sel) s = (case sel of None \<Rightarrow> True | Some x \<Rightarrow> cl_pending s = Some x)"
| "clip_fits (ClCancelled x) s = (cl_source s = Some x)"
| "clip_fits _ s = True"

primrec clip_conforms :: "clip_event list \<Rightarrow> clip \<Rightarrow> bool" where
  "clip_conforms [] s = True"
| "clip_conforms (e # es) s = (clip_fits e s \<and> (case clip_step e s of None \<Rightarrow> True | Some t \<Rightarrow> clip_conforms es t))"

lemma cl_emit_simps [simp]:
  "cl_dd (cl_emit r s) = cl_dd s" "cl_source (cl_emit r s) = cl_source s" "cl_held (cl_emit r s) = cl_held s"
  "cl_is_owner (cl_emit r s) = cl_is_owner s" "cl_pending (cl_emit r s) = cl_pending s"
  "cl_has_text (cl_emit r s) = cl_has_text s" "cl_image_mime (cl_emit r s) = cl_image_mime s"
  "cl_live (cl_emit r s) = cl_live s" "cl_out (cl_emit r s) = cl_out s @ [r]" "cl_ddm (cl_emit r s) = cl_ddm s"
  by (simp_all add: cl_emit_def)

lemma cl_destroy_eq: "x \<in> set (cl_live s) \<Longrightarrow> cl_destroy x s = Some (cl_emit (ClDestroy x) (s\<lparr>cl_live := wl_remove x (cl_live s)\<rparr>))"
  by (simp add: cl_destroy_def)

text \<open>Reading changes nothing but the trace.\<close>

lemma clip_read_quiet: "\<exists>rs. snd (clip_read rd x m s) = s\<lparr>cl_out := cl_out s @ rs\<rparr>"
proof (cases "rd m")
  case NoPipe
  then have "snd (clip_read rd x m s) = s\<lparr>cl_out := cl_out s @ []\<rparr>" by (simp add: clip_read_def)
  then show ?thesis by blast
qed (auto simp: clip_read_def cl_emit_def Let_def)

lemma clip_read_first_quiet: "\<exists>rs. snd (clip_read_first rd x ms s) = s\<lparr>cl_out := cl_out s @ rs\<rparr>"
proof (induction ms arbitrary: s)
  case Nil
  have "snd (clip_read_first rd x [] s) = s\<lparr>cl_out := cl_out s @ []\<rparr>" by simp
  then show ?case by blast
next
  case (Cons m ms)
  obtain rs where rs: "snd (clip_read rd x m s) = s\<lparr>cl_out := cl_out s @ rs\<rparr>" using clip_read_quiet by blast
  obtain qs where "snd (clip_read_first rd x ms (s\<lparr>cl_out := cl_out s @ rs\<rparr>)) = s\<lparr>cl_out := cl_out s @ rs @ qs\<rparr>"
    using Cons [of "s\<lparr>cl_out := cl_out s @ rs\<rparr>"] by auto
  with rs show ?case by (cases "clip_read rd x m s") (auto split: option.split)
qed

lemma fold_offer: "fold (\<lambda>m. cl_emit (ClOffer x m)) ms s = s\<lparr>cl_out := cl_out s @ map (ClOffer x) ms\<rparr>"
  by (induction ms arbitrary: s) (simp_all add: cl_emit_def)

lemma claim_eq:
  assumes "clip_ok s" and "\<not> cl_is_owner s" and "cl_dd s" and "cl_held s = Some (m, d)"
  shows "claim x s = Some (s\<lparr>cl_source := Some x, cl_is_owner := True,
     cl_live := wl_insert x (case cl_source s of None \<Rightarrow> cl_live s | Some y \<Rightarrow> wl_remove y (cl_live s)),
     cl_out := cl_out s @ (case cl_source s of None \<Rightarrow> [] | Some y \<Rightarrow> [ClDestroy y]) @
       ClSource x # map (ClOffer x) (claimed_types m) @ [ClSetSelection x]\<rparr>)"
  using assms
  by (cases "cl_source s") (auto simp: claim_def clip_ok_def cl_destroy_eq fold_offer Let_def cl_create_def cl_emit_def)

lemma claim_ok:
  assumes "clip_ok s" and "x \<notin> set (cl_live s)"
  shows "\<exists>t. claim x s = Some t \<and> clip_ok t"
proof (cases "cl_is_owner s \<or> \<not> cl_dd s \<or> cl_held s = None")
  case True
  then have "claim x s = Some s" by (auto simp: claim_def split: option.split)
  with assms(1) show ?thesis by blast
next
  case False
  then obtain m d where "\<not> cl_is_owner s" "cl_dd s" "cl_held s = Some (m, d)" by auto
  then show ?thesis
    using assms by (auto simp: claim_eq) (auto simp: clip_ok_def split: option.split)
qed

definition no_primary :: "clip_event \<Rightarrow> bool" where
  "no_primary e = (case e of ClPrimary sel \<Rightarrow> sel = None | _ \<Rightarrow> True)"

lemma selection_ok:
  assumes "clip_ok s" and "clip_fits (ClSelection rd src sel) s"
  shows "\<exists>t. dd_selection rd src sel s = Some t \<and> clip_ok t"
proof (cases "cl_is_owner s \<or> sel = None")
  case True
  with assms(1) show ?thesis by (auto simp: dd_selection_def)
next
  case False
  then obtain x where x: "sel = Some x" "\<not> cl_is_owner s" by auto
  with assms have p: "cl_pending s = Some x" "x \<in> set (cl_live s)" "src \<notin> set (cl_live s)"
    by (auto simp: clip_ok_def)
  show ?thesis
  proof (cases "\<not> cl_has_text s \<and> cl_image_mime s = []")
    case True
    with assms(1) p x show ?thesis by (auto simp: dd_selection_def cl_destroy_eq clip_ok_def)
  next
    case False
    define ms where "ms = (if cl_has_text s then [MIME_TEXT, MIME_ALT, MIME_UTF8, MIME_STRING] else [])
                   @ (if cl_image_mime s = [] then [] else [cl_image_mime s])"
    obtain r s1 where f: "clip_read_first rd x ms s = (r, s1)" by fastforce
    then obtain rs where s1: "s1 = s\<lparr>cl_out := cl_out s @ rs\<rparr>" using clip_read_first_quiet [of rd x ms s] by auto
    define s3 where "s3 = (cl_emit (ClDestroy x) (s1\<lparr>cl_live := wl_remove x (cl_live s1)\<rparr>))\<lparr>cl_pending := None\<rparr>"
    have e: "dd_selection rd src sel s = (case r of None \<Rightarrow> Some s3 | Some c \<Rightarrow> claim src (s3\<lparr>cl_held := Some c\<rparr>))"
      using x False f p by (cases r) (auto simp: dd_selection_def ms_def [symmetric] s3_def cl_destroy_eq s1 Let_def)
    have k: "clip_ok s3" "\<And>c. clip_ok (s3\<lparr>cl_held := Some c\<rparr>)" "src \<notin> set (cl_live s3)"
      using assms(1) p x by (auto simp: clip_ok_def s3_def s1)
    then show ?thesis unfolding e using claim_ok by (cases r) simp_all
  qed
qed

lemma clip_step_ok:
  assumes "clip_ok s" and "clip_fits e s" and "no_primary e"
  shows "\<exists>t. clip_step e s = Some t \<and> clip_ok t"
proof (cases e)
  case (ClSelection rd src sel)
  with assms selection_ok show ?thesis by simp
qed (use assms in \<open>auto simp: seat_caps_def clip_ok_def dd_data_offer_def cl_create_def cl_destroy_def offer_mime_def
  dd_primary_selection_def source_send_def source_cancelled_def no_primary_def split: option.split\<close>)

text \<open>
  C32. As long as the compositor announces no primary selection the daemon never touches an
  object it has destroyed, whatever is copied, pasted, cancelled or fails to be read.
\<close>

theorem clip_never_dangles:
  assumes "clip_ok s" and "clip_conforms es s" and "list_all no_primary es"
  shows "\<exists>t. run clip_step es s = Some t \<and> clip_ok t"
  using assms
proof (induction es arbitrary: s)
  case (Cons e es)
  then obtain t where "clip_step e s = Some t" "clip_ok t" using clip_step_ok [of s e] by auto
  with Cons show ?case by auto
qed simp

text \<open>
  A primary selection breaks it: the handler destroys the offer that is still noted as
  pending, so the next offer of any kind destroys a freed object. Selecting text twice is enough.
\<close>

theorem primary_selection_use_after_free:
  assumes "clip_ok s" and "x \<notin> set (cl_live s)" and "y \<noteq> x"
  shows "clip_conforms [ClDataOffer x, ClPrimary (Some x)] s \<and>
     run clip_step [ClDataOffer x, ClPrimary (Some x)] s \<noteq> None \<and>
     run clip_step [ClDataOffer x, ClPrimary (Some x), ClDataOffer y] s = None"
  using assms
  by (auto simp: dd_data_offer_def cl_create_def cl_destroy_def dd_primary_selection_def clip_ok_def split: option.split)

lemma primary_selection_use_after_free_witness:
  "run clip_step [ClDataOffer 1, ClPrimary (Some 1), ClDataOffer 2] (clip_init True) = None"
proof -
  have "clip_ok (clip_init True)" by (simp add: clip_ok_def clip_init_def)
  from primary_selection_use_after_free [OF this, of 1 2] show ?thesis by (simp add: clip_init_def)
qed

section \<open>The clipboard outlives its owner\<close>

lemma read_all_concat: "[] \<notin> set ds \<Longrightarrow> length (concat ds) \<le> room \<Longrightarrow> read_all room ds = concat ds"
proof (induction ds arbitrary: room)
  case (Cons d ds)
  then show ?case by (cases "room = 0") auto
qed simp

lemma read_all_cut: "[] \<notin> set ds \<Longrightarrow> read_all room ds = take room (concat ds)"
  by (induction ds arbitrary: room) auto

lemma written_all: "\<forall>n \<in> set ns. 0 < n \<Longrightarrow> int (length d) \<le> sum_list ns \<Longrightarrow> written ns d = d"
proof (induction ns arbitrary: d)
  case (Cons n ns)
  then have "written ns (drop (nat n) d) = drop (nat n) d"
    by (cases "nat n \<le> length d") (auto intro!: Cons.IH sum_list_nonneg simp: of_nat_diff less_imp_le)
  with Cons.prems show ?case by (cases "d = []") auto
qed simp

lemma mimes_pending:
  "m \<in> set ms \<Longrightarrow> mime_is_text m \<Longrightarrow> \<exists>im. fold offer_mime ms s = s\<lparr>cl_has_text := True, cl_image_mime := im\<rparr>"
proof -
  have f: "\<exists>b im. fold offer_mime ms s = s\<lparr>cl_has_text := b, cl_image_mime := im\<rparr> \<and>
      (b \<longleftrightarrow> cl_has_text s \<or> (\<exists>m \<in> set ms. mime_is_text m))"
  proof (induction ms arbitrary: s)
    case Nil
    show ?case by (intro exI [of _ "cl_has_text s"] exI [of _ "cl_image_mime s"]) simp
  next
    case (Cons m ms)
    obtain b im where h: "fold offer_mime ms (offer_mime m s) = (offer_mime m s)\<lparr>cl_has_text := b, cl_image_mime := im\<rparr>"
      "b \<longleftrightarrow> cl_has_text (offer_mime m s) \<or> (\<exists>m \<in> set ms. mime_is_text m)" using Cons by blast
    have "(offer_mime m s)\<lparr>cl_has_text := b, cl_image_mime := im\<rparr> = s\<lparr>cl_has_text := b, cl_image_mime := im\<rparr>"
      by (simp add: offer_mime_def)
    moreover have "cl_has_text (offer_mime m s) \<longleftrightarrow> cl_has_text s \<or> mime_is_text m" by (simp add: offer_mime_def)
    ultimately show ?case using h by auto
  qed
  assume m: "m \<in> set ms" "mime_is_text m"
  obtain b im where b: "fold offer_mime ms s = s\<lparr>cl_has_text := b, cl_image_mime := im\<rparr>"
      "b \<longleftrightarrow> cl_has_text s \<or> (\<exists>m \<in> set ms. mime_is_text m)" using f by blast
  from b(2) m have "b = True" by blast
  with b(1) show ?thesis by blast
qed

lemma run_mimes: "run clip_step (map ClMime ms) s = Some (fold offer_mime ms s)"
  by (induction ms arbitrary: s) simp_all

text \<open>
  C31. When another client puts a text on the clipboard, the daemon ends up holding its first
  32 MB and owning the clipboard with a source that offers all four text types; a paste then
  writes exactly the bytes held, also after the other client has gone.
\<close>

theorem clipboard_outlives_owner:
  assumes "clip_ok s" and "cl_dd s" and "\<not> cl_is_owner s"
    and "x \<notin> set (cl_live s)" and "src \<notin> set (cl_live s)" and "src \<noteq> x"
    and "m \<in> set ms" and "mime_is_text m"
    and "rd MIME_TEXT = Reads ds" and "ds \<noteq> []" and "[] \<notin> set ds"
    and "\<forall>n \<in> set ns. 0 < n" and "int (length (concat ds)) \<le> sum_list ns"
  shows "\<exists>t. run clip_step (ClDataOffer x # map ClMime ms @ [ClSelection rd src (Some x)]) s = Some t \<and>
     cl_is_owner t \<and> cl_source t = Some src \<and> cl_held t = Some (MIME_TEXT, take CLIP_MAX (concat ds)) \<and>
     (\<exists>rs. cl_out t = rs @ [ClSource src, ClOffer src MIME_TEXT, ClOffer src MIME_ALT, ClOffer src MIME_UTF8,
        ClOffer src MIME_STRING, ClSetSelection src]) \<and>
     (\<exists>u. clip_step (ClSend ns) t = Some u \<and> cl_out u = cl_out t @ [ClWrote (take CLIP_MAX (concat ds))])"
proof -
  define d where "d = take CLIP_MAX (concat ds)"
  have dne: "d \<noteq> []" using assms(10,11) by (cases ds) (auto simp: d_def CLIP_MAX_def)
  obtain s1 where s1: "clip_step (ClDataOffer x) s = Some s1" "clip_ok s1" and
      f1: "cl_pending s1 = Some x" "cl_dd s1" "\<not> cl_is_owner s1" "src \<notin> set (cl_live s1)"
    using clip_step_ok [OF assms(1), of "ClDataOffer x"] assms(1-6)
    by (auto simp: no_primary_def dd_data_offer_def cl_create_def cl_destroy_def clip_ok_def split: option.split_asm)
  obtain im where s2: "fold offer_mime ms s1 = s1\<lparr>cl_has_text := True, cl_image_mime := im\<rparr>"
    using mimes_pending [OF assms(7,8)] by blast
  define s2 where "s2 = s1\<lparr>cl_has_text := True, cl_image_mime := im\<rparr>"
  have r: "clip_read rd x MIME_TEXT s2 = (Some (MIME_TEXT, d), cl_emit (ClReceive x MIME_TEXT) s2)"
    using dne assms(9,11) by (simp add: clip_read_def read_all_cut d_def [symmetric] strncpy_def MIME_TEXT_def Let_def)
  define s3 where "s3 = (cl_emit (ClDestroy x) ((cl_emit (ClReceive x MIME_TEXT) s2)\<lparr>cl_live := wl_remove x (cl_live s1)\<rparr>))\<lparr>cl_pending := None, cl_held := Some (MIME_TEXT, d)\<rparr>"
  have l: "x \<in> set (cl_live s1)" using s1(2) f1 by (simp add: clip_ok_def)
  have e: "dd_selection rd src (Some x) s2 = claim src s3"
  proof -
    have "cl_has_text s2" "\<not> cl_is_owner s2" "cl_live s2 = cl_live s1" using f1 by (simp_all add: s2_def)
    then show ?thesis using l r by (simp add: dd_selection_def cl_destroy_eq Let_def s3_def)
  qed
  have k: "clip_ok s3" "\<not> cl_is_owner s3" "cl_dd s3" "cl_held s3 = Some (MIME_TEXT, d)"
    using s1(2) f1 by (auto simp: clip_ok_def s3_def s2_def)
  have w: "written ns d = d" using assms(12,13) by (intro written_all) (auto simp: d_def)
  have ty: "claimed_types MIME_TEXT = [MIME_TEXT, MIME_ALT, MIME_UTF8, MIME_STRING]"
    by (simp add: claimed_types_def mime_is_text_def)
  have "run clip_step (ClDataOffer x # map ClMime ms @ [ClSelection rd src (Some x)]) s = claim src s3"
    using s1(1) by (cases "claim src s3") (simp_all add: run_append run_mimes s2 s2_def [symmetric] e)
  with claim_eq [OF k, of src] k(4) w show ?thesis
    by (simp add: ty d_def [symmetric] source_send_def)
qed

lemma clip_never_dangles_witness:
  "\<exists>t. run clip_step [ClSeatCaps, ClDataOffer 1, ClMime MIME_TEXT,
       ClSelection (\<lambda>m. Reads [''hello'']) 2 (Some 1), ClDataOffer 3, ClSelection (\<lambda>m. NoPipe) 4 (Some 3), ClCancelled 2]
     (clip_init True) = Some t \<and> clip_ok t"
proof -
  have "clip_ok (clip_init True)" by (simp add: clip_ok_def clip_init_def)
  moreover have "read_all CLIP_MAX [''hello''] = ''hello''" by (simp add: read_all_cut CLIP_MAX_def)
  ultimately show ?thesis
    by (intro clip_never_dangles)
      (simp_all add: clip_init_def no_primary_def seat_caps_def dd_data_offer_def cl_create_def offer_mime_def
        mime_is_text_def dd_selection_def clip_read_def cl_destroy_def claim_def fold_offer strncpy_def
        MIME_TEXT_def MIME_ALT_def MIME_UTF8_def MIME_STRING_def claimed_types_def source_cancelled_def Let_def)
qed

lemma clipboard_outlives_owner_witness:
  "\<exists>t u. run clip_step [ClDataOffer 1, ClMime MIME_TEXT, ClSelection (\<lambda>m. Reads [''hel'', ''lo'']) 2 (Some 1)]
       ((clip_init True)\<lparr>cl_dd := True\<rparr>) = Some t \<and>
     cl_is_owner t \<and> clip_step (ClSend [3, 2]) t = Some u \<and> cl_out u = cl_out t @ [ClWrote ''hello'']"
proof -
  let ?s = "(clip_init True)\<lparr>cl_dd := True\<rparr>"
  have "clip_ok ?s" by (simp add: clip_ok_def clip_init_def)
  moreover have "take CLIP_MAX ''hello'' = ''hello''" by (simp add: CLIP_MAX_def)
  ultimately show ?thesis
    using clipboard_outlives_owner [of ?s 1 2 MIME_TEXT "[MIME_TEXT]" "\<lambda>m. Reads [''hel'', ''lo'']" "[''hel'', ''lo'']" "[3, 2]"]
    by (fastforce simp: clip_init_def mime_is_text_def)
qed

end
