(* ===== verification/Kumidle.thy ===== *)
theory Kumidle
  imports CString
begin

text \<open>
  The idle daemon (\<open>kumidle\<close>): its options, the notifications it asks the compositor for,
  and what it runs when the seat falls idle and when it is used again. A \<open>uint32_t\<close> of
  milliseconds is an integer below \<open>2 ^ 32\<close>.
\<close>

section \<open>Options\<close>

record idle_opts =
  io_idle_ms :: int
  io_lock_ms :: int
  io_dpms_ms :: int
  io_lock_cmd :: string
  io_idle_cmd :: string
  io_resume_cmd :: string

definition idle_defaults :: idle_opts where
  "idle_defaults = \<lparr>io_idle_ms = 300 * 1000, io_lock_ms = 310 * 1000, io_dpms_ms = 330 * 1000,
     io_lock_cmd = ''kumlock'', io_idle_cmd = [], io_resume_cmd = []\<rparr>"

text \<open>
  \<open>(uint32_t)(atoi(v) * 1000)\<close>: the product is an \<open>int\<close>, \<open>None\<close> when it overflows; a
  negative one wraps around.
\<close>

definition seconds_ms :: "string \<Rightarrow> int option" where
  "seconds_ms v = (let k = atoi v * 1000 in if - (2 ^ 31) \<le> k \<and> k < 2 ^ 31 then Some (k mod 2 ^ 32) else None)"

text \<open>
  The arguments behind the program's name. \<open>Inl\<close>: the argument that is refused, an option
  that ends the line among them. \<open>None\<close>: the overflow.
\<close>

fun idle_args :: "string list \<Rightarrow> idle_opts \<Rightarrow> (string + idle_opts) option" where
  "idle_args [] p = Some (Inr p)"
| "idle_args [a] p = Some (Inl a)"
| "idle_args (a # v # as) p =
     (if a = ''--idle-s'' then do { k \<leftarrow> seconds_ms v; idle_args as (p\<lparr>io_idle_ms := k\<rparr>) }
      else if a = ''--lock-s'' then do { k \<leftarrow> seconds_ms v; idle_args as (p\<lparr>io_lock_ms := k\<rparr>) }
      else if a = ''--dpms-s'' then do { k \<leftarrow> seconds_ms v; idle_args as (p\<lparr>io_dpms_ms := k\<rparr>) }
      else if a = ''--lock-cmd'' then idle_args as (p\<lparr>io_lock_cmd := strncpy 255 v\<rparr>)
      else if a = ''--idle-cmd'' then idle_args as (p\<lparr>io_idle_cmd := strncpy 255 v\<rparr>)
      else if a = ''--resume-cmd'' then idle_args as (p\<lparr>io_resume_cmd := strncpy 255 v\<rparr>)
      else Some (Inl a))"

section \<open>Notifications\<close>

datatype idle_command = Shell string | ScreensOff | ScreensOn

record idler =
  id_opts :: idle_opts
  id_idle_n :: "nat option"
  id_lock_n :: "nat option"
  id_dpms_n :: "nat option"
  id_asked :: "(nat \<times> int) list"      \<comment> \<open>the notifications asked for, with their timeouts\<close>
  id_ran :: "idle_command list"

definition ask :: "nat \<Rightarrow> int \<Rightarrow> idler \<Rightarrow> idler" where
  "ask n ms s = s\<lparr>id_asked := id_asked s @ [(n, ms)]\<rparr>"

definition run_cmd :: "string \<Rightarrow> idler \<Rightarrow> idler" where
  "run_cmd c s = (if c = [] then s else s\<lparr>id_ran := id_ran s @ [Shell c]\<rparr>)"

text \<open>The objects the three requests create are given by \<open>addr\<close>; \<open>None\<close>: no idle notifier, the program ends.\<close>

definition idle_setup :: "bool \<Rightarrow> nat \<times> nat \<times> nat \<Rightarrow> idle_opts \<Rightarrow> idler option" where
  "idle_setup notifier addr p =
     (let (a, b, c) = addr;
          s0 = \<lparr>id_opts = p, id_idle_n = None, id_lock_n = None, id_dpms_n = None, id_asked = [], id_ran = []\<rparr>;
          s1 = if 0 < io_idle_ms p \<and> io_idle_cmd p \<noteq> [] then (ask a (io_idle_ms p) s0)\<lparr>id_idle_n := Some a\<rparr> else s0;
          s2 = if 0 < io_lock_ms p then (ask b (io_lock_ms p) s1)\<lparr>id_lock_n := Some b\<rparr> else s1;
          s3 = if 0 < io_dpms_ms p then (ask c (io_dpms_ms p) s2)\<lparr>id_dpms_n := Some c\<rparr> else s2
      in if notifier then Some s3 else None)"

text \<open>\<open>popen\<close> runs the command whether or not its pipe can be read.\<close>

definition notif_idled :: "nat \<Rightarrow> idler \<Rightarrow> idler" where
  "notif_idled n s =
     (if id_idle_n s = Some n then run_cmd (io_idle_cmd (id_opts s)) s
      else if id_lock_n s = Some n then run_cmd (io_lock_cmd (id_opts s)) s
      else if id_dpms_n s = Some n then s\<lparr>id_ran := id_ran s @ [ScreensOff]\<rparr>
      else s)"

definition notif_resumed :: "nat \<Rightarrow> idler \<Rightarrow> idler" where
  "notif_resumed n s =
     (let s1 = if id_dpms_n s = Some n then s\<lparr>id_ran := id_ran s @ [ScreensOn]\<rparr> else s in
      if id_idle_n s1 = Some n then run_cmd (io_resume_cmd (id_opts s1)) s1 else s1)"

datatype idle_event = Idled nat | Resumed nat

fun idle_step :: "idle_event \<Rightarrow> idler \<Rightarrow> idler" where
  "idle_step (Idled n) s = notif_idled n s"
| "idle_step (Resumed n) s = notif_resumed n s"

text \<open>The command line, from the options to the objects.\<close>

definition kumidle_start :: "bool \<Rightarrow> nat \<times> nat \<times> nat \<Rightarrow> string list \<Rightarrow> (string + idler option) option" where
  "kumidle_start notifier addr args =
     do { r \<leftarrow> idle_args args idle_defaults;
          Some (case r of Inl a \<Rightarrow> Inl a | Inr p \<Rightarrow> Inr (idle_setup notifier addr p)) }"

section \<open>Facts\<close>

lemma seconds_ms_range: "seconds_ms v = Some k \<Longrightarrow> 0 \<le> k \<and> k < 2 ^ 32"
  by (auto simp: seconds_ms_def Let_def split: if_split_asm)

lemma seconds_ms_show: "0 \<le> k \<Longrightarrow> k \<le> 2147483 \<Longrightarrow> seconds_ms (show_int k) = Some (k * 1000)"
  by (simp add: seconds_ms_def Let_def)

text \<open>A negative number of seconds is a timeout of weeks, not an error.\<close>

lemma negative_seconds: "seconds_ms ''-1'' = Some 4294966296"
  by code_simp

text \<open>The largest timeout that can be given is 2147483 seconds: one more overflows.\<close>

lemma seconds_overflow: "2147483 < k \<Longrightarrow> seconds_ms (show_int k) = None"
  by (simp add: seconds_ms_def Let_def)

text \<open>The command line that sets every option.\<close>

definition idle_line :: "int \<Rightarrow> int \<Rightarrow> int \<Rightarrow> string \<Rightarrow> string \<Rightarrow> string \<Rightarrow> string list" where
  "idle_line i l d lc ic rc =
     [''--idle-s'', show_int i, ''--lock-s'', show_int l, ''--dpms-s'', show_int d,
      ''--lock-cmd'', lc, ''--idle-cmd'', ic, ''--resume-cmd'', rc]"

lemma idle_line_parsed:
  assumes "0 \<le> i" "i \<le> 2147483" "0 \<le> l" "l \<le> 2147483" "0 \<le> d" "d \<le> 2147483"
  shows "idle_args (idle_line i l d lc ic rc) p =
    Some (Inr \<lparr>io_idle_ms = i * 1000, io_lock_ms = l * 1000, io_dpms_ms = d * 1000,
      io_lock_cmd = take 255 lc, io_idle_cmd = take 255 ic, io_resume_cmd = take 255 rc\<rparr>)"
  using assms by (simp add: idle_line_def seconds_ms_show strncpy_def)

lemma run_cmd_simps [simp]:
  "id_opts (run_cmd c s) = id_opts s" "id_idle_n (run_cmd c s) = id_idle_n s"
  "id_lock_n (run_cmd c s) = id_lock_n s" "id_dpms_n (run_cmd c s) = id_dpms_n s"
  "id_asked (run_cmd c s) = id_asked s"
  "id_ran (run_cmd c s) = id_ran s @ (if c = [] then [] else [Shell c])"
  by (simp_all add: run_cmd_def)

section \<open>What an idle period runs\<close>

text \<open>
  Which command a notification stands for: the three notifications of a daemon are three
  objects.
\<close>

definition idled_command :: "idler \<Rightarrow> nat \<Rightarrow> idle_command list" where
  "idled_command s n =
     (if id_idle_n s = Some n then (if io_idle_cmd (id_opts s) = [] then [] else [Shell (io_idle_cmd (id_opts s))])
      else if id_lock_n s = Some n then (if io_lock_cmd (id_opts s) = [] then [] else [Shell (io_lock_cmd (id_opts s))])
      else if id_dpms_n s = Some n then [ScreensOff] else [])"

definition resumed_command :: "idler \<Rightarrow> nat \<Rightarrow> idle_command list" where
  "resumed_command s n =
     (if id_dpms_n s = Some n then [ScreensOn] else []) @
     (if id_idle_n s = Some n \<and> io_resume_cmd (id_opts s) \<noteq> [] then [Shell (io_resume_cmd (id_opts s))] else [])"

fun event_command :: "idler \<Rightarrow> idle_event \<Rightarrow> idle_command list" where
  "event_command s (Idled n) = idled_command s n"
| "event_command s (Resumed n) = resumed_command s n"

lemma idle_step_runs: "idle_step e s = s\<lparr>id_ran := id_ran s @ event_command s e\<rparr>"
  by (cases e) (simp_all add: notif_idled_def notif_resumed_def run_cmd_def idled_command_def resumed_command_def Let_def)

lemma idle_steps_run: "fold idle_step es s = s\<lparr>id_ran := id_ran s @ concat (map (event_command s) es)\<rparr>"
proof (induction es arbitrary: s)
  case (Cons e es)
  have "event_command (s\<lparr>id_ran := r\<rparr>) = event_command s" for r
    by (rule ext, rename_tac f, case_tac f) (simp_all add: idled_command_def resumed_command_def)
  with Cons show ?case by (simp add: idle_step_runs)
qed simp

text \<open>
  Without an idle command the idle notification is never asked for, and the resume command
  never runs, whatever happens.
\<close>

lemma resume_needs_idle_cmd:
  assumes "idle_setup True addr p = Some s" and "io_idle_cmd p = []"
  shows "concat (map (event_command s) (map Resumed ns)) = concat (map (\<lambda>n. if id_dpms_n s = Some n then [ScreensOn] else []) ns)"
proof -
  have "id_idle_n s = None" using assms by (auto simp: idle_setup_def ask_def Let_def split: prod.splits)
  then show ?thesis by (simp add: resumed_command_def comp_def)
qed

text \<open>
  An idle period of \<open>t\<close> milliseconds: the compositor reports, in the order of their
  timeouts, the notifications whose timeout has passed, and resumes them at the end. With
  thresholds in the order idle, lock, power, the daemon runs the idle command, the lock
  command and the power command, each exactly when its threshold has passed; at the end it
  turns the screens on if it turned them off, and runs the resume command if the idle
  threshold had passed.
\<close>

theorem idle_period_runs:
  assumes "idle_setup True (a, b, c) p = Some s" and "distinct [a, b, c]"
    and "0 < io_idle_ms p" "io_idle_ms p < io_lock_ms p" "io_lock_ms p < io_dpms_ms p"
    and "io_idle_cmd p \<noteq> []" "io_lock_cmd p \<noteq> []" "io_resume_cmd p \<noteq> []"
    and "ns = map fst (filter (\<lambda>(n, ms). ms \<le> t) (sort_key snd (id_asked s)))"
  shows "id_ran (fold idle_step (map Idled ns @ map Resumed ns) s) =
     (if io_idle_ms p \<le> t then [Shell (io_idle_cmd p)] else []) @
     (if io_lock_ms p \<le> t then [Shell (io_lock_cmd p)] else []) @
     (if io_dpms_ms p \<le> t then [ScreensOff] else []) @
     (if io_idle_ms p \<le> t then [Shell (io_resume_cmd p)] else []) @
     (if io_dpms_ms p \<le> t then [ScreensOn] else [])"
proof -
  have s: "s = \<lparr>id_opts = p, id_idle_n = Some a, id_lock_n = Some b, id_dpms_n = Some c,
      id_asked = [(a, io_idle_ms p), (b, io_lock_ms p), (c, io_dpms_ms p)], id_ran = []\<rparr>"
    using assms(1,3-6) by (simp add: idle_setup_def ask_def Let_def)
  then have n: "ns = (if io_idle_ms p \<le> t then [a] else []) @ (if io_lock_ms p \<le> t then [b] else []) @
      (if io_dpms_ms p \<le> t then [c] else [])"
    using assms(3-5,9) by simp
  show ?thesis
    unfolding idle_steps_run n using assms(2) assms(6-8) by (auto simp add: s idled_command_def resumed_command_def)
qed

lemma idle_period_runs_witness:
  "\<exists>s ns. idle_setup True (7, 8, 9) \<lparr>io_idle_ms = 300000, io_lock_ms = 310000, io_dpms_ms = 330000,
        io_lock_cmd = ''kumlock'', io_idle_cmd = ''dim'', io_resume_cmd = ''undim''\<rparr> = Some s \<and>
     id_ran (fold idle_step (map Idled ns @ map Resumed ns) s) = [Shell ''dim'', Shell ''kumlock'', Shell ''undim'']"
proof -
  let ?p = "\<lparr>io_idle_ms = 300000, io_lock_ms = 310000, io_dpms_ms = 330000,
        io_lock_cmd = ''kumlock'', io_idle_cmd = ''dim'', io_resume_cmd = ''undim''\<rparr>"
  obtain s where s: "idle_setup True (7, 8, 9) ?p = Some s" by (simp add: idle_setup_def Let_def)
  note idle_period_runs [OF s _ _ _ _ _ _ _ refl, of 320000]
  then have "id_ran (fold idle_step (map Idled ns @ map Resumed ns) s) = [Shell ''dim'', Shell ''kumlock'', Shell ''undim'']"
    if "ns = map fst (filter (\<lambda>(n, ms). ms \<le> 320000) (sort_key snd (id_asked s)))" for ns
    using that by simp
  with s show ?thesis by blast
qed

end
