(* ===== verification/Kumshot.thy ===== *)
theory Kumshot
  imports Cfloat Scanf
begin

text \<open>
  The screenshot client (\<open>kumshot\<close>): its options, the outputs it learns about, the
  interactive selection of a region, the capture of frames and the picture it writes.
  Pointer coordinates are \<open>wl_fixed_t\<close>, multiples of 1/256 below \<open>2 ^ 23\<close>, so that the sums and
  differences of the code are exact in \<open>double\<close> and are written without rounding. A frame
  is the function of its pixels. \<open>None\<close> is a request on a null object.
\<close>

section \<open>State\<close>

definition MAX_OUTPUTS :: nat where "MAX_OUTPUTS = 8"

record shot_output =
  sh_name :: string
  sh_width :: int
  sh_height :: int
  sh_stride :: int
  sh_data :: "(int \<Rightarrow> int \<Rightarrow> int) option"
  sh_frame :: bool
  sh_done :: bool
  sh_failed :: bool
  sh_x :: int
  sh_y :: int
  sh_surface :: "nat option"       \<comment> \<open>the address of \<open>overlay_surface\<close>\<close>
  sh_layer :: bool
  sh_buffer :: bool
  sh_overlay_w :: int
  sh_overlay_h :: int
  sh_configured :: bool

text \<open>An output is named by its index in \<open>app.outputs\<close>.\<close>

record region =
  hover_output :: "nat option"
  hover_x :: rat
  hover_y :: rat
  dragging :: bool
  start_x :: rat
  start_y :: rat
  drag_output :: "nat option"
  rg_done :: bool
  rg_cancelled :: bool

datatype shot_draw =
    Dim int int
  | Clear rat rat rat rat
  | Outline rat rat rat rat

datatype shot_request =
    ShOverlay nat nat                 \<comment> \<open>output, surface\<close>
  | ShAttach nat "shot_draw list"     \<comment> \<open>surface, what is on it\<close>
  | ShDestroyBuffer nat
  | ShDestroyOverlay nat
  | ShCopy nat int int int            \<comment> \<open>output, width, height, stride\<close>
  | ShCapture nat
  | ShCaptureRegion nat int int int int

record shot =
  sh_outputs :: "shot_output list"
  sh_region :: region
  sh_pointer :: bool
  sh_keyboard :: bool
  sh_xkb :: bool
  sh_out :: "shot_request list"

definition fresh_output :: shot_output where
  "fresh_output = \<lparr>sh_name = [], sh_width = 0, sh_height = 0, sh_stride = 0, sh_data = None, sh_frame = False,
     sh_done = False, sh_failed = False, sh_x = 0, sh_y = 0, sh_surface = None, sh_layer = False, sh_buffer = False,
     sh_overlay_w = 0, sh_overlay_h = 0, sh_configured = False\<rparr>"

definition shot_init :: shot where
  "shot_init = \<lparr>sh_outputs = [],
     sh_region = \<lparr>hover_output = None, hover_x = 0, hover_y = 0, dragging = False, start_x = 0, start_y = 0,
       drag_output = None, rg_done = False, rg_cancelled = False\<rparr>,
     sh_pointer = False, sh_keyboard = False, sh_xkb = False, sh_out = []\<rparr>"

definition sh_emit :: "shot_request \<Rightarrow> shot \<Rightarrow> shot" where
  "sh_emit r s = s\<lparr>sh_out := sh_out s @ [r]\<rparr>"

definition upd_shot :: "nat \<Rightarrow> (shot_output \<Rightarrow> shot_output) \<Rightarrow> shot \<Rightarrow> shot" where
  "upd_shot i f s = s\<lparr>sh_outputs := (sh_outputs s)[i := f (sh_outputs s ! i)]\<rparr>"

definition upd_region :: "(region \<Rightarrow> region) \<Rightarrow> shot \<Rightarrow> shot" where
  "upd_region f s = s\<lparr>sh_region := f (sh_region s)\<rparr>"

section \<open>Options\<close>

record shot_opts =
  so_outpath :: string
  so_target :: string
  so_all :: bool
  so_region :: bool

text \<open>\<open>None\<close>: help was asked for. An unknown argument is passed over, an option without its value too.\<close>

fun shot_args :: "string list \<Rightarrow> shot_opts \<Rightarrow> shot_opts option" where
  "shot_args [] p = Some p"
| "shot_args [a] p =
     (if a = ''-a'' then Some (p\<lparr>so_all := True\<rparr>)
      else if a = ''-r'' then Some (p\<lparr>so_region := True\<rparr>)
      else if a = ''-h'' then None
      else Some p)"
| "shot_args (a # v # as) p =
     (if a = ''-o'' then shot_args as (p\<lparr>so_outpath := strncpy 511 v\<rparr>)
      else if a = ''-s'' then shot_args as (p\<lparr>so_target := strncpy 63 v\<rparr>)
      else if a = ''-a'' then shot_args (v # as) (p\<lparr>so_all := True\<rparr>)
      else if a = ''-r'' then shot_args (v # as) (p\<lparr>so_region := True\<rparr>)
      else if a = ''-h'' then None
      else shot_args (v # as) p)"

definition default_path :: "string option \<Rightarrow> string \<Rightarrow> string" where
  "default_path home ts =
     snprintf 512 ((case home of None \<Rightarrow> ''/tmp'' | Some h \<Rightarrow> h) @ ''/Pictures/kumshot_'' @ ts @ ''.png'')"

definition shot_path :: "string option \<Rightarrow> string \<Rightarrow> shot_opts \<Rightarrow> string" where
  "shot_path home ts p = (if so_outpath p = [] then default_path home ts else so_outpath p)"

section \<open>The overlay\<close>

text \<open>
  What is drawn over an output: the dim sheet and, where the drag started on this output,
  the hole and its outline. \<open>shm\<close> is whether the system gives memory of that many bytes.
\<close>

definition drag_rect :: "region \<Rightarrow> rat \<times> rat \<times> rat \<times> rat" where
  "drag_rect r =
     (let x0 = start_x r; y0 = start_y r; x1 = hover_x r; y1 = hover_y r in
      (if x0 < x1 then x0 else x1, if y0 < y1 then y0 else y1, \<bar>x1 - x0\<bar>, \<bar>y1 - y0\<bar>))"

definition overlay_frame :: "nat \<Rightarrow> shot \<Rightarrow> shot_draw list" where
  "overlay_frame i s =
     (let p = sh_outputs s ! i; r = sh_region s; (rx, ry, rw, rh) = drag_rect r in
      Dim (sh_overlay_w p) (sh_overlay_h p) #
      (if dragging r \<and> drag_output r = Some i
       then [Clear rx ry rw rh, Outline (rx + 1 / 2) (ry + 1 / 2) rw rh] else []))"

definition overlay_render :: "(int \<Rightarrow> bool) \<Rightarrow> nat \<Rightarrow> shot \<Rightarrow> shot option" where
  "overlay_render shm i s =
     (let p = sh_outputs s ! i in
      if \<not> sh_configured p \<or> sh_overlay_w p \<le> 0 \<or> sh_overlay_h p \<le> 0 then Some s
      else if \<not> shm (sh_overlay_w p * 4 * sh_overlay_h p) then Some s
      else do {
        surf \<leftarrow> sh_surface p;
        let s1 = (if sh_buffer p then sh_emit (ShDestroyBuffer i) s else s);
            s2 = upd_shot i (\<lambda>q. q\<lparr>sh_buffer := True\<rparr>) s1
        in Some (sh_emit (ShAttach surf (overlay_frame i s)) s2) })"

definition overlay_configure :: "(int \<Rightarrow> bool) \<Rightarrow> nat \<Rightarrow> int \<Rightarrow> int \<Rightarrow> shot \<Rightarrow> shot option" where
  "overlay_configure shm i w h s =
     overlay_render shm i (upd_shot i (\<lambda>p. p\<lparr>sh_overlay_w := w, sh_overlay_h := h, sh_configured := True\<rparr>) s)"

text \<open>A surface the client has destroyed arrives as a null pointer, which matches an output without overlay.\<close>

definition output_owning_surface :: "nat option \<Rightarrow> shot \<Rightarrow> nat option" where
  "output_owning_surface surf s = List.find (\<lambda>i. sh_surface (sh_outputs s ! i) = surf) [0..<length (sh_outputs s)]"

definition shot_ptr_enter :: "nat option \<Rightarrow> rat \<Rightarrow> rat \<Rightarrow> shot \<Rightarrow> shot" where
  "shot_ptr_enter surf x y s = upd_region (\<lambda>r. r\<lparr>hover_output := output_owning_surface surf s, hover_x := x, hover_y := y\<rparr>) s"

definition shot_ptr_motion :: "(int \<Rightarrow> bool) \<Rightarrow> rat \<Rightarrow> rat \<Rightarrow> shot \<Rightarrow> shot option" where
  "shot_ptr_motion shm x y s =
     (let s1 = upd_region (\<lambda>r. r\<lparr>hover_x := x, hover_y := y\<rparr>) s in
      case drag_output (sh_region s1) of
        Some i \<Rightarrow> if dragging (sh_region s1) then overlay_render shm i s1 else Some s1
      | None \<Rightarrow> Some s1)"

definition shot_ptr_button :: "bool \<Rightarrow> shot \<Rightarrow> shot" where
  "shot_ptr_button pressed s =
     (if pressed then
        (if hover_output (sh_region s) = None then s
         else upd_region (\<lambda>r. r\<lparr>dragging := True, drag_output := hover_output r, start_x := hover_x r, start_y := hover_y r\<rparr>) s)
      else upd_region (\<lambda>r. r\<lparr>rg_done := rg_done r \<or> dragging r, dragging := False\<rparr>) s)"

definition shot_kb_key :: "string \<Rightarrow> bool \<Rightarrow> shot \<Rightarrow> shot" where
  "shot_kb_key ks pressed s =
     (if \<not> pressed \<or> \<not> sh_xkb s then s
      else if ks = ''Escape'' then upd_region (\<lambda>r. r\<lparr>rg_cancelled := True\<rparr>) s
      else s)"

section \<open>Events\<close>

text \<open>
  \<open>ShKeymap\<close> says whether the keymap could be mapped (what the compositor sends compiles),
  \<open>ShKey\<close> carries the key symbol xkbcommon gives, \<open>ShBuffer\<close> whether the system gave memory,
  and \<open>ShReady\<close> the pixels the compositor has written into the buffer.
\<close>

datatype shot_event =
    ShGlobalOutput
  | ShGeometry nat int int
  | ShMode nat bool int int
  | ShName nat string
  | ShLogicalPosition nat int int
  | ShSeat bool bool
  | ShKeymap bool
  | ShKey string bool
  | ShEnter "nat option" rat rat
  | ShMotion rat rat
  | ShButton bool
  | ShConfigure nat int int
  | ShClosed nat
  | ShBuffer nat bool int int int
  | ShReady nat "int \<Rightarrow> int \<Rightarrow> int"
  | ShFailed nat

definition add_output :: "shot \<Rightarrow> shot" where
  "add_output s = (if length (sh_outputs s) < MAX_OUTPUTS then s\<lparr>sh_outputs := sh_outputs s @ [fresh_output]\<rparr> else s)"

definition frame_buffer :: "nat \<Rightarrow> bool \<Rightarrow> int \<Rightarrow> int \<Rightarrow> int \<Rightarrow> shot \<Rightarrow> shot" where
  "frame_buffer i memory w h stride s =
     (let s1 = upd_shot i (\<lambda>p. p\<lparr>sh_width := w, sh_height := h, sh_stride := stride\<rparr>) s in
      if \<not> memory then upd_shot i (\<lambda>p. p\<lparr>sh_failed := True\<rparr>) s1
      else sh_emit (ShCopy i w h stride) (upd_shot i (\<lambda>p. p\<lparr>sh_data := Some (\<lambda>x y. 0)\<rparr>) s1))"

definition frame_ready :: "nat \<Rightarrow> (int \<Rightarrow> int \<Rightarrow> int) \<Rightarrow> shot \<Rightarrow> shot" where
  "frame_ready i px = upd_shot i (\<lambda>p. p\<lparr>sh_done := True, sh_data := map_option (\<lambda>_. px) (sh_data p)\<rparr>)"

definition frame_failed :: "nat \<Rightarrow> shot \<Rightarrow> shot" where
  "frame_failed i = upd_shot i (\<lambda>p. p\<lparr>sh_failed := True\<rparr>)"

fun shot_step :: "(int \<Rightarrow> bool) \<Rightarrow> shot_event \<Rightarrow> shot \<Rightarrow> shot option" where
  "shot_step shm ShGlobalOutput s = Some (add_output s)"
| "shot_step shm (ShGeometry i x y) s = Some (upd_shot i (\<lambda>p. p\<lparr>sh_x := x, sh_y := y\<rparr>) s)"
| "shot_step shm (ShMode i cur w h) s = Some (if cur then upd_shot i (\<lambda>p. p\<lparr>sh_width := w, sh_height := h\<rparr>) s else s)"
| "shot_step shm (ShName i n) s = Some (upd_shot i (\<lambda>p. p\<lparr>sh_name := strncpy 63 n\<rparr>) s)"
| "shot_step shm (ShLogicalPosition i x y) s = Some (upd_shot i (\<lambda>p. p\<lparr>sh_x := x, sh_y := y\<rparr>) s)"
| "shot_step shm (ShSeat ptr kb) s = Some (s\<lparr>sh_pointer := sh_pointer s \<or> ptr, sh_keyboard := sh_keyboard s \<or> kb\<rparr>)"
| "shot_step shm (ShKeymap mapped) s = Some (if mapped then s\<lparr>sh_xkb := True\<rparr> else s)"
| "shot_step shm (ShKey ks pressed) s = Some (shot_kb_key ks pressed s)"
| "shot_step shm (ShEnter surf x y) s = Some (shot_ptr_enter surf x y s)"
| "shot_step shm (ShMotion x y) s = shot_ptr_motion shm x y s"
| "shot_step shm (ShButton pressed) s = Some (shot_ptr_button pressed s)"
| "shot_step shm (ShConfigure i w h) s = overlay_configure shm i w h s"
| "shot_step shm (ShClosed i) s = Some (upd_region (\<lambda>r. r\<lparr>rg_cancelled := True\<rparr>) s)"
| "shot_step shm (ShBuffer i memory w h stride) s = Some (frame_buffer i memory w h stride s)"
| "shot_step shm (ShReady i px) s = Some (frame_ready i px s)"
| "shot_step shm (ShFailed i) s = Some (frame_failed i s)"

section \<open>Selecting a region\<close>

definition create_overlays :: "(nat \<Rightarrow> nat) \<Rightarrow> shot \<Rightarrow> shot" where
  "create_overlays addr s =
     fold (\<lambda>i s. sh_emit (ShOverlay i (addr i)) (upd_shot i (\<lambda>p. p\<lparr>sh_surface := Some (addr i), sh_layer := True\<rparr>) s))
       [0..<length (sh_outputs s)] s"

definition destroy_overlays :: "shot \<Rightarrow> shot" where
  "destroy_overlays s =
     fold (\<lambda>i s.
         let p = sh_outputs s ! i;
             s1 = (if sh_surface p \<noteq> None then sh_emit (ShDestroyOverlay i) s else s);
             s2 = (if sh_buffer p then sh_emit (ShDestroyBuffer i) s1 else s1)
         in upd_shot i (\<lambda>p. p\<lparr>sh_surface := None, sh_layer := False, sh_buffer := False\<rparr>) s2)
       [0..<length (sh_outputs s)] s"

text \<open>
  The loop of \<open>run_region_select\<close>: each dispatch handles the events that have arrived, and
  the end of the list is a dispatch that fails.
\<close>

primrec select_loop :: "(int \<Rightarrow> bool) \<Rightarrow> shot_event list list \<Rightarrow> shot \<Rightarrow> shot option" where
  "select_loop shm [] s =
     Some (if rg_done (sh_region s) \<or> rg_cancelled (sh_region s) then s else upd_region (\<lambda>r. r\<lparr>rg_cancelled := True\<rparr>) s)"
| "select_loop shm (es # ess) s =
     (if rg_done (sh_region s) \<or> rg_cancelled (sh_region s) then Some s
      else do { t \<leftarrow> run (shot_step shm) es s; select_loop shm ess t })"

text \<open>The rectangle at the end, \<open>None\<close> when there is nothing to capture.\<close>

definition selected_region :: "region \<Rightarrow> (nat \<times> int \<times> int \<times> int \<times> int) option" where
  "selected_region r =
     (if rg_cancelled r then None
      else do {
        i \<leftarrow> drag_output r;
        let (x, y, w, h) = drag_rect r; rw = trunc w; rh = trunc h in
        if rw < 2 \<or> rh < 2 then None else Some (i, trunc x, trunc y, rw, rh) })"

text \<open>
  \<open>first\<close>: the events of the round trip after the overlays are created; \<open>late\<close>: those of the
  round trip after they are destroyed. \<open>ok\<close>: the compositor, the layer shell and the seat are there.
\<close>

definition run_region_select ::
  "(int \<Rightarrow> bool) \<Rightarrow> bool \<Rightarrow> (nat \<Rightarrow> nat) \<Rightarrow> shot_event list \<Rightarrow> shot_event list list \<Rightarrow> shot_event list \<Rightarrow> shot \<Rightarrow>
     ((nat \<times> int \<times> int \<times> int \<times> int) option \<times> shot) option" where
  "run_region_select shm ok addr first ess late s =
     (if \<not> ok then Some (None, s)
      else do {
        s1 \<leftarrow> run (shot_step shm) first (create_overlays addr s);
        s2 \<leftarrow> select_loop shm ess s1;
        s3 \<leftarrow> run (shot_step shm) late (destroy_overlays s2);
        Some (selected_region (sh_region s3), s3) })"

section \<open>Capturing\<close>

text \<open>Which outputs are captured: all of them, those with the name asked for, or the first.\<close>

definition wanted :: "shot_opts \<Rightarrow> shot \<Rightarrow> nat \<Rightarrow> bool" where
  "wanted p s i \<longleftrightarrow> so_all p \<or> (if so_target p \<noteq> [] then sh_name (sh_outputs s ! i) = so_target p else i = 0)"

definition request_frames :: "shot_opts \<Rightarrow> shot \<Rightarrow> shot" where
  "request_frames p s =
     fold (\<lambda>i s. if wanted p s i then sh_emit (ShCapture i) (upd_shot i (\<lambda>q. q\<lparr>sh_frame := True\<rparr>) s) else s)
       [0..<length (sh_outputs s)] s"

definition frame_pending :: "shot_output \<Rightarrow> bool" where
  "frame_pending q \<longleftrightarrow> sh_frame q \<and> \<not> sh_done q \<and> \<not> sh_failed q"

definition all_done :: "shot \<Rightarrow> bool" where
  "all_done s \<longleftrightarrow> list_all (\<lambda>q. \<not> frame_pending q) (sh_outputs s)"

text \<open>
  The loop that waits for the frames. \<open>ev k\<close> are the events of the \<open>k\<close>-th dispatch; a dispatch
  whose connection is gone handles none and returns, and the loop does not look at its
  result. The loop need not end, and its value is then undefined: \<open>None\<close>.
\<close>

partial_function (option) capture_loop :: "(int \<Rightarrow> bool) \<Rightarrow> (nat \<Rightarrow> shot_event list) \<Rightarrow> nat \<Rightarrow> shot \<Rightarrow> shot option" where
  "capture_loop shm ev k s =
     do { t \<leftarrow> run (shot_step shm) (ev k) s;
          if all_done t then Some t else capture_loop shm ev (Suc k) t }"

text \<open>The region's frame: this loop does stop when the connection is gone (the end of the list).\<close>

primrec region_loop :: "(int \<Rightarrow> bool) \<Rightarrow> nat \<Rightarrow> shot_event list list \<Rightarrow> shot \<Rightarrow> shot option" where
  "region_loop shm i [] s = Some s"
| "region_loop shm i (es # ess) s =
     (if sh_done (sh_outputs s ! i) \<or> sh_failed (sh_outputs s ! i) then Some s
      else do { t \<leftarrow> run (shot_step shm) es s; region_loop shm i ess t })"

definition capture_region ::
  "(int \<Rightarrow> bool) \<Rightarrow> nat \<times> int \<times> int \<times> int \<times> int \<Rightarrow> shot_event list list \<Rightarrow> shot \<Rightarrow> shot option" where
  "capture_region shm sel ess s =
     (let (i, x, y, w, h) = sel in
      region_loop shm i ess (sh_emit (ShCaptureRegion i x y w h) (upd_shot i (\<lambda>p. p\<lparr>sh_frame := True\<rparr>) s)))"

section \<open>The picture\<close>

text \<open>Width, height and the pixels of the file.\<close>

type_synonym picture = "int \<times> int \<times> (int \<Rightarrow> int \<Rightarrow> int)"

definition output_picture :: "shot_output \<Rightarrow> picture option" where
  "output_picture q = map_option (\<lambda>px. (sh_width q, sh_height q, px)) (sh_data q)"

definition canvas_step :: "int \<times> int \<Rightarrow> shot_output \<Rightarrow> int \<times> int" where
  "canvas_step wh q =
     (if \<not> sh_done q then wh
      else (let (w, h) = wh in
        (if w < sh_x q + sh_width q then sh_x q + sh_width q else w,
         if h < sh_y q + sh_height q then sh_y q + sh_height q else h)))"

definition canvas_size :: "shot_output list \<Rightarrow> int \<times> int" where
  "canvas_size qs = foldl canvas_step (0, 0) qs"

text \<open>A frame is opaque: it replaces what is under it. A new canvas is black.\<close>

definition covers :: "shot_output \<Rightarrow> int \<Rightarrow> int \<Rightarrow> bool" where
  "covers q x y \<longleftrightarrow> sh_x q \<le> x \<and> x < sh_x q + sh_width q \<and> sh_y q \<le> y \<and> y < sh_y q + sh_height q"

definition paint_output :: "(int \<Rightarrow> int \<Rightarrow> int) \<Rightarrow> shot_output \<Rightarrow> int \<Rightarrow> int \<Rightarrow> int" where
  "paint_output c q =
     (case sh_data q of
        Some px \<Rightarrow> if sh_done q then (\<lambda>x y. if covers q x y then px (x - sh_x q) (y - sh_y q) else c x y) else c
      | None \<Rightarrow> c)"

definition composite :: "shot_output list \<Rightarrow> picture option" where
  "composite qs =
     (let (w, h) = canvas_size qs in
      if 0 < w \<and> 0 < h then Some (w, h, foldl paint_output (\<lambda>x y. 0) qs) else None)"

text \<open>What is written to the file, if anything; the path is printed in any case.\<close>

definition save_shot :: "shot_opts \<Rightarrow> shot \<Rightarrow> picture option" where
  "save_shot p s =
     (if so_all p \<and> 1 < length (sh_outputs s) then composite (sh_outputs s)
      else case List.find sh_done (sh_outputs s) of
        None \<Rightarrow> None
      | Some q \<Rightarrow> output_picture q)"

text \<open>
  The rest of the program after the outputs are known: the exit status and what is written to
  the file. The two cases of \<open>Inl\<close> and \<open>Inr\<close> are the region mode and the others.
\<close>

definition kumshot_region :: "(int \<Rightarrow> bool) \<Rightarrow> (nat \<times> int \<times> int \<times> int \<times> int) option \<Rightarrow> shot_event list list \<Rightarrow> shot \<Rightarrow>
    (int \<times> picture option) option" where
  "kumshot_region shm sel ess s =
     (case sel of
        None \<Rightarrow> Some (1, None)
      | Some r \<Rightarrow> do {
          t \<leftarrow> capture_region shm r ess s;
          let q = sh_outputs t ! fst r in
          Some (if sh_done q then (0, output_picture q) else (1, None)) })"

definition kumshot_outputs :: "(int \<Rightarrow> bool) \<Rightarrow> shot_opts \<Rightarrow> (nat \<Rightarrow> shot_event list) \<Rightarrow> shot \<Rightarrow> (int \<times> picture option) option" where
  "kumshot_outputs shm p ev s =
     do { t \<leftarrow> capture_loop shm ev 0 (request_frames p s); Some (0, save_shot p t) }"

section \<open>A drag selects a rectangle\<close>

text \<open>Drawing an overlay that is there changes no region and no surface.\<close>

definition surfaces :: "shot \<Rightarrow> nat option list" where
  "surfaces s = map sh_surface (sh_outputs s)"

lemma sh_emit_simps [simp]:
  "sh_outputs (sh_emit r s) = sh_outputs s" "sh_region (sh_emit r s) = sh_region s"
  by (simp_all add: sh_emit_def)

lemma upd_shot_simps [simp]:
  "sh_region (upd_shot i f s) = sh_region s" "length (sh_outputs (upd_shot i f s)) = length (sh_outputs s)"
  by (simp_all add: upd_shot_def)

lemma upd_shot_nth [simp]:
  "i < length (sh_outputs s) \<Longrightarrow> sh_outputs (upd_shot i f s) ! j = (if j = i then f (sh_outputs s ! i) else sh_outputs s ! j)"
  by (simp add: upd_shot_def nth_list_update)

lemma upd_region_simps [simp]:
  "sh_outputs (upd_region f s) = sh_outputs s" "sh_region (upd_region f s) = f (sh_region s)"
  by (simp_all add: upd_region_def)

lemma surfaces_nth: "i < length (sh_outputs s) \<Longrightarrow> surfaces s ! i = sh_surface (sh_outputs s ! i)"
  by (simp add: surfaces_def)

lemma overlay_render_defined:
  assumes "i < length (sh_outputs s)" and "surfaces s ! i \<noteq> None"
  shows "\<exists>t. overlay_render shm i s = Some t \<and> sh_region t = sh_region s \<and> surfaces t = surfaces s"
proof -
  have "map sh_surface ((sh_outputs s)[i := (sh_outputs s ! i)\<lparr>sh_buffer := True\<rparr>]) = map sh_surface (sh_outputs s)"
    using assms(1) by (simp add: map_update) (metis list_update_id length_map nth_map)
  then show ?thesis
    using assms by (auto simp: overlay_render_def surfaces_def upd_shot_def Let_def)
qed

text \<open>What a pointer needs: the output of the drag has its overlay.\<close>

definition drag_ok :: "shot \<Rightarrow> bool" where
  "drag_ok s \<longleftrightarrow> (\<forall>i. drag_output (sh_region s) = Some i \<longrightarrow> i < length (surfaces s) \<and> surfaces s ! i \<noteq> None)"

lemma motion_effect:
  assumes "drag_ok s"
  shows "\<exists>t. shot_ptr_motion shm x y s = Some t \<and> sh_region t = (sh_region s)\<lparr>hover_x := x, hover_y := y\<rparr> \<and>
    surfaces t = surfaces s"
proof -
  let ?s = "upd_region (\<lambda>r. r\<lparr>hover_x := x, hover_y := y\<rparr>) s"
  have f: "surfaces ?s = surfaces s" by (simp add: surfaces_def)
  show ?thesis
  proof (cases "drag_output (sh_region s)")
    case None
    then show ?thesis using f by (simp add: shot_ptr_motion_def Let_def)
  next
    case (Some i)
    with assms have "i < length (sh_outputs ?s)" "surfaces ?s ! i \<noteq> None" by (auto simp: drag_ok_def surfaces_def)
    from overlay_render_defined [OF this] Some f show ?thesis by (auto simp: shot_ptr_motion_def Let_def)
  qed
qed

lemma motions_effect:
  assumes "drag_ok s"
  shows "\<exists>t. run (shot_step shm) (map (\<lambda>(x, y). ShMotion x y) ps @ [ShMotion x1 y1]) s = Some t \<and>
    sh_region t = (sh_region s)\<lparr>hover_x := x1, hover_y := y1\<rparr> \<and> surfaces t = surfaces s"
  using assms
proof (induction ps arbitrary: s)
  case Nil
  then show ?case using motion_effect [OF Nil, of shm x1 y1] by auto
next
  case (Cons q ps)
  obtain x y where q: "q = (x, y)" by (cases q)
  obtain t where t: "shot_ptr_motion shm x y s = Some t" "sh_region t = (sh_region s)\<lparr>hover_x := x, hover_y := y\<rparr>"
    "surfaces t = surfaces s" using motion_effect [OF Cons.prems] by blast
  then have "drag_ok t" using Cons.prems by (simp add: drag_ok_def)
  from Cons.IH [OF this] t q show ?case by simp
qed

lemma trunc_bounds: "0 \<le> x \<Longrightarrow> of_int (trunc x) \<le> x \<and> x < of_int (trunc x) + 1"
  by (simp add: trunc_def) linarith



section \<open>What happens after the release\<close>

lemma destroy_overlays_effect:
  "sh_region (destroy_overlays s) = sh_region s \<and> length (sh_outputs (destroy_overlays s)) = length (sh_outputs s) \<and>
   (\<forall>j < length (sh_outputs s). sh_outputs (destroy_overlays s) ! j =
      (sh_outputs s ! j)\<lparr>sh_surface := None, sh_layer := False, sh_buffer := False\<rparr>)"
proof -
  let ?f = "\<lambda>i s. let p = sh_outputs s ! i;
             s1 = (if sh_surface p \<noteq> None then sh_emit (ShDestroyOverlay i) s else s);
             s2 = (if sh_buffer p then sh_emit (ShDestroyBuffer i) s1 else s1)
         in upd_shot i (\<lambda>p. p\<lparr>sh_surface := None, sh_layer := False, sh_buffer := False\<rparr>) s2"
  have "n \<le> length (sh_outputs s) \<Longrightarrow> sh_region (fold ?f [0..<n] s) = sh_region s \<and>
      length (sh_outputs (fold ?f [0..<n] s)) = length (sh_outputs s) \<and>
      (\<forall>j < length (sh_outputs s). sh_outputs (fold ?f [0..<n] s) ! j =
        (if j < n then (sh_outputs s ! j)\<lparr>sh_surface := None, sh_layer := False, sh_buffer := False\<rparr> else sh_outputs s ! j))" for n
  proof (induction n)
    case (Suc n)
    then show ?case by (simp add: Let_def less_Suc_eq)
  qed simp
  from this [of "length (sh_outputs s)"] show ?thesis by (simp add: destroy_overlays_def)
qed

text \<open>
  The corner that counts is not where the button was released but the last position the
  pointer had before the program stopped listening: a motion that is on its way
  when the overlays are destroyed moves it.
\<close>

theorem late_motion_moves_corner:
  assumes "run (shot_step shm) first (create_overlays addr s) = Some s1" and "select_loop shm ess s1 = Some s2"
    and "\<not> dragging (sh_region s2)"
  shows "\<exists>t. run_region_select shm True addr first ess [ShMotion x y] s =
     Some (selected_region ((sh_region s2)\<lparr>hover_x := x, hover_y := y\<rparr>), t)"
  using assms destroy_overlays_effect [of s2]
  by (auto simp: run_region_select_def shot_ptr_motion_def Let_def split: option.split)

text \<open>
  Escape in the middle of a drag ends the loop while the drag is still noted: a motion on its
  way is then drawn on the surface that has just been destroyed, a null pointer.
\<close>

theorem escape_while_dragging_crashes:
  assumes "run (shot_step shm) first (create_overlays addr s) = Some s1" and "select_loop shm ess s1 = Some s2"
    and "dragging (sh_region s2)" and "drag_output (sh_region s2) = Some i" and "i < length (sh_outputs s2)"
    and "sh_configured (sh_outputs s2 ! i)" and "0 < sh_overlay_w (sh_outputs s2 ! i)" and "0 < sh_overlay_h (sh_outputs s2 ! i)"
    and "\<And>n. shm n"
  shows "run_region_select shm True addr first ess [ShMotion x y] s = None"
  using assms destroy_overlays_effect [of s2]
  by (simp add: run_region_select_def shot_ptr_motion_def overlay_render_def Let_def)

text \<open>
  Nothing ties the corner to the output of the drag: released over another output, the
  rectangle goes from a corner in the coordinates of the first to one in those of the second.
\<close>

lemma drag_across_outputs:
  assumes "output_owning_surface (Some a) s = Some i" and "output_owning_surface (Some b) s = Some j"
  shows "\<exists>t. run (shot_step shm) [ShEnter (Some a) x0 y0, ShButton True, ShEnter (Some b) x1 y1, ShButton False] s = Some t \<and>
     drag_output (sh_region t) = Some i \<and> drag_rect (sh_region t) = (min x0 x1, min y0 y1, \<bar>x1 - x0\<bar>, \<bar>y1 - y0\<bar>)"
  using assms by (auto simp: shot_ptr_button_def shot_ptr_enter_def drag_rect_def output_owning_surface_def min_def Let_def)

section \<open>Waiting for the frames\<close>

text \<open>The state after \<open>n\<close> dispatches, whether or not the loop would have ended before.\<close>

primrec dispatched :: "(int \<Rightarrow> bool) \<Rightarrow> (nat \<Rightarrow> shot_event list) \<Rightarrow> nat \<Rightarrow> nat \<Rightarrow> shot \<Rightarrow> shot option" where
  "dispatched shm ev k 0 s = Some s"
| "dispatched shm ev k (Suc n) s = do { t \<leftarrow> run (shot_step shm) (ev k) s; dispatched shm ev (Suc k) n t }"

lemma dispatched_Suc: "dispatched shm ev k (Suc n) s = do { t \<leftarrow> dispatched shm ev k n s; run (shot_step shm) (ev (k + n)) t }"
proof (induction n arbitrary: k s)
  case 0
  then show ?case by (cases "run (shot_step shm) (ev k) s") simp_all
next
  case (Suc n)
  show ?case
  proof (cases "run (shot_step shm) (ev k) s")
    case (Some t)
    with Suc [of "Suc k" t] show ?thesis by (simp del: dispatched.simps(2) add: dispatched.simps(2) [of shm ev k])
  qed simp
qed

lemma capture_loop_returns:
  "dispatched shm ev k (Suc n) s = Some t \<Longrightarrow> all_done t \<Longrightarrow>
   \<exists>m \<le> n. \<exists>u. dispatched shm ev k (Suc m) s = Some u \<and> all_done u \<and> capture_loop shm ev k s = Some u"
proof (induction n arbitrary: k s)
  case 0
  then have r: "run (shot_step shm) (ev k) s = Some t" by (cases "run (shot_step shm) (ev k) s") auto
  then have "capture_loop shm ev k s = Some t" using 0 by (subst capture_loop.simps) simp
  with 0 show ?case by blast
next
  case (Suc n)
  then obtain u where u: "run (shot_step shm) (ev k) s = Some u" "dispatched shm ev (Suc k) (Suc n) u = Some t"
    by (cases "run (shot_step shm) (ev k) s") auto
  show ?case
  proof (cases "all_done u")
    case True
    then have "capture_loop shm ev k s = Some u" using u by (subst capture_loop.simps) simp
    moreover have "dispatched shm ev k (Suc 0) s = Some u" using u by simp
    ultimately show ?thesis using True by blast
  next
    case False
    from Suc.IH [OF u(2) Suc.prems(2)] obtain m v where
      "m \<le> n" "dispatched shm ev (Suc k) (Suc m) u = Some v" "all_done v" "capture_loop shm ev (Suc k) u = Some v" by blast
    moreover from this False u have "capture_loop shm ev k s = Some v" by (subst capture_loop.simps) simp
    moreover have "dispatched shm ev k (Suc (Suc m)) s = dispatched shm ev (Suc k) (Suc m) u"
      using u(1) by (simp only: dispatched.simps(2) [of shm ev k]) simp
    ultimately show ?thesis by (metis Suc_le_mono)
  qed
qed

lemma capture_loop_result:
  assumes "capture_loop shm ev k s = Some t"
  shows "\<exists>n. dispatched shm ev k (Suc n) s = Some t \<and> all_done t"
proof (rule capture_loop.raw_induct [of "\<lambda>shm ev k s t. \<exists>n. dispatched shm ev k (Suc n) s = Some t \<and> all_done t", OF _ assms])
  fix loop shm ev k s t
  assume ih: "\<And>shm ev k s t. loop shm ev k s = Some t \<Longrightarrow> \<exists>n. dispatched shm ev k (Suc n) s = Some t \<and> all_done t"
    and body: "(do { t \<leftarrow> run (shot_step shm) (ev k) s; if all_done t then Some t else loop shm ev (Suc k) t }) = Some t"
  then obtain u where u: "run (shot_step shm) (ev k) s = Some u" by (cases "run (shot_step shm) (ev k) s") auto
  show "\<exists>n. dispatched shm ev k (Suc n) s = Some t \<and> all_done t"
  proof (cases "all_done u")
    case True
    with body u have "dispatched shm ev k (Suc 0) s = Some t \<and> all_done t" by simp
    then show ?thesis by blast
  next
    case False
    with body u have "loop shm ev (Suc k) u = Some t" by simp
    from ih [OF this] obtain n where "dispatched shm ev (Suc k) (Suc n) u = Some t" "all_done t" by blast
    with u have "dispatched shm ev k (Suc (Suc n)) s = Some t \<and> all_done t" by simp
    then show ?thesis by blast
  qed
qed

text \<open>An output is settled when its frame is ready or has failed; these events settle it.\<close>

definition settled :: "shot \<Rightarrow> nat \<Rightarrow> bool" where
  "settled s i \<longleftrightarrow> sh_done (sh_outputs s ! i) \<or> sh_failed (sh_outputs s ! i)"

definition answers :: "nat \<Rightarrow> shot_event \<Rightarrow> bool" where
  "answers i e = (case e of ShReady j px \<Rightarrow> j = i | ShFailed j \<Rightarrow> j = i | ShBuffer j memory w h st \<Rightarrow> j = i \<and> \<not> memory | _ \<Rightarrow> False)"

definition asked :: "shot \<Rightarrow> nat \<Rightarrow> bool" where
  "asked s i \<longleftrightarrow> i < length (sh_outputs s) \<and> sh_frame (sh_outputs s ! i)"

lemma all_done_settled: "all_done s \<longleftrightarrow> (\<forall>i. asked s i \<longrightarrow> settled s i)"
  by (auto simp: all_done_def list_all_length frame_pending_def asked_def settled_def)

lemma nth_update: "j < length xs \<Longrightarrow> xs[i := x] ! j = (if j = i then x else xs ! j)"
  by (cases "i < length xs") (auto simp: nth_list_update)

lemma upd_shot_frames:
  assumes "\<And>q. sh_frame (f q) = sh_frame q"
  shows "asked (upd_shot j f s) i \<longleftrightarrow> asked s i"
  using assms by (cases "i < length (sh_outputs s)") (simp_all add: asked_def upd_shot_def nth_update)

lemma upd_shot_settled:
  "i < length (sh_outputs s) \<Longrightarrow> settled (upd_shot j f s) i \<longleftrightarrow>
     (if i = j then sh_done (f (sh_outputs s ! i)) \<or> sh_failed (f (sh_outputs s ! i)) else settled s i)"
  by (simp add: settled_def upd_shot_def nth_update)

lemma overlay_render_quiet:
  "overlay_render shm j s = Some t \<Longrightarrow> (asked t i \<longleftrightarrow> asked s i) \<and> length (sh_outputs t) = length (sh_outputs s) \<and>
     (i < length (sh_outputs s) \<longrightarrow> settled t i = settled s i)"
  by (cases "i < length (sh_outputs s)")
    (auto simp: overlay_render_def Let_def asked_def settled_def upd_shot_def nth_update split: if_split_asm bind_split_asm)

lemma shot_step_settles:
  assumes "shot_step shm e s = Some t"
  shows "(asked t i \<longleftrightarrow> asked s i) \<and> (asked s i \<longrightarrow> (settled t i \<longleftrightarrow> settled s i \<or> answers i e))"
proof (cases e)
  case ShGlobalOutput
  with assms show ?thesis
    by (cases "length (sh_outputs s) < MAX_OUTPUTS") (auto simp: add_output_def asked_def settled_def answers_def nth_append fresh_output_def less_Suc_eq)
next
  case (ShMotion x y)
  let ?s = "upd_region (\<lambda>r. r\<lparr>hover_x := x, hover_y := y\<rparr>) s"
  have q: "asked ?s i = asked s i" "settled ?s i = settled s i" by (simp_all add: asked_def settled_def)
  have "t = ?s \<or> (\<exists>j. overlay_render shm j ?s = Some t)"
  proof (cases "dragging (sh_region s)")
    case True
    with assms ShMotion show ?thesis by (cases "drag_output (sh_region s)") (simp_all add: shot_ptr_motion_def Let_def, blast)
  next
    case False
    with assms ShMotion show ?thesis by (cases "drag_output (sh_region s)") (simp_all add: shot_ptr_motion_def Let_def)
  qed
  then consider "t = ?s" | j where "overlay_render shm j ?s = Some t" by blast
  then show ?thesis
  proof cases
    case 1
    then show ?thesis using q ShMotion by (simp add: answers_def)
  next
    case 2
    from overlay_render_quiet [OF this, of i] q ShMotion show ?thesis by (auto simp: asked_def answers_def)
  qed
next
  case (ShConfigure j w h)
  let ?s = "upd_shot j (\<lambda>p. p\<lparr>sh_overlay_w := w, sh_overlay_h := h, sh_configured := True\<rparr>) s"
  have q: "asked ?s i = asked s i" by (rule upd_shot_frames) simp
  have r: "settled ?s i = settled s i" if "i < length (sh_outputs s)"
    using that by (simp add: upd_shot_settled) (simp add: settled_def)
  have "overlay_render shm j ?s = Some t" using assms ShConfigure by (simp add: overlay_configure_def)
  from overlay_render_quiet [OF this, of i] q r ShConfigure show ?thesis
    by (simp add: answers_def) (auto simp: asked_def)
next
  case (ShMode j cur w h)
  with assms show ?thesis
    by (cases cur; cases "i < length (sh_outputs s)") (auto simp: asked_def settled_def answers_def upd_shot_def nth_update split: if_split_asm)
next
  case (ShBuffer j memory w h st)
  with assms show ?thesis
    by (cases memory; cases "i < length (sh_outputs s)")
      (auto simp: asked_def settled_def answers_def upd_shot_def nth_update frame_buffer_def Let_def split: if_split_asm)
next
  case (ShKey ks pressed)
  with assms have "sh_outputs t = sh_outputs s" by (auto simp: shot_kb_key_def split: if_split_asm)
  with ShKey show ?thesis by (simp add: asked_def settled_def answers_def)
next
  case (ShButton pressed)
  with assms have "sh_outputs t = sh_outputs s" by (auto simp: shot_ptr_button_def split: if_split_asm)
  with ShButton show ?thesis by (simp add: asked_def settled_def answers_def)
next
  case (ShKeymap mapped)
  with assms show ?thesis by (cases mapped) (auto simp: asked_def settled_def answers_def)
qed (use assms in \<open>cases "i < length (sh_outputs s)"; auto simp: asked_def settled_def answers_def
   frame_ready_def frame_failed_def shot_ptr_enter_def upd_shot_def nth_update split: if_split_asm\<close>)+

lemma run_settles:
  "run (shot_step shm) es s = Some t \<Longrightarrow>
     (asked t i \<longleftrightarrow> asked s i) \<and> (asked s i \<longrightarrow> (settled t i \<longleftrightarrow> settled s i \<or> (\<exists>e \<in> set es. answers i e)))"
proof (induction es arbitrary: s)
  case (Cons e es)
  then obtain u where u: "shot_step shm e s = Some u" "run (shot_step shm) es u = Some t"
    by (cases "shot_step shm e s") auto
  from shot_step_settles [OF u(1), of i] Cons.IH [OF u(2)] show ?case by auto
qed simp

lemma dispatched_settles:
  "dispatched shm ev k n s = Some t \<Longrightarrow>
     (asked t i \<longleftrightarrow> asked s i) \<and> (asked s i \<longrightarrow> (settled t i \<longleftrightarrow> settled s i \<or> (\<exists>m < n. \<exists>e \<in> set (ev (k + m)). answers i e)))"
proof (induction n arbitrary: t)
  case (Suc n)
  from Suc.prems obtain u where u: "dispatched shm ev k n s = Some u" "run (shot_step shm) (ev (k + n)) u = Some t"
    unfolding dispatched_Suc by (cases "dispatched shm ev k n s") auto
  from Suc.IH [OF u(1)] run_settles [OF u(2), of i] show ?case by (auto simp: less_Suc_eq)
qed simp

text \<open>
  C33. The program waits for the frames and no longer. If within \<open>n + 1\<close> dispatches every frame asked
  for is answered, ready or failed, the loop returns after at most that many, with every
  frame settled. If one is never answered, because the connection is lost for instance,
  the loop never returns: it does not look at the result of a dispatch.
\<close>

theorem capture_loop_terminates:
  assumes "\<And>m. dispatched shm ev 0 m s \<noteq> None"
  shows "((\<forall>i. asked s i \<longrightarrow> settled s i \<or> (\<exists>m \<le> n. \<exists>e \<in> set (ev m). answers i e)) \<longrightarrow>
       (\<exists>t m. capture_loop shm ev 0 s = Some t \<and> m \<le> n \<and> dispatched shm ev 0 (Suc m) s = Some t \<and>
          (\<forall>i. asked t i \<longrightarrow> settled t i))) \<and>
     ((\<exists>i. asked s i \<and> \<not> settled s i \<and> (\<forall>m. \<forall>e \<in> set (ev m). \<not> answers i e)) \<longrightarrow> capture_loop shm ev 0 s = None)"
proof (intro conjI impI)
  assume a: "\<forall>i. asked s i \<longrightarrow> settled s i \<or> (\<exists>m \<le> n. \<exists>e \<in> set (ev m). answers i e)"
  obtain t where t: "dispatched shm ev 0 (Suc n) s = Some t" using assms by blast
  have "all_done t" unfolding all_done_settled using dispatched_settles [OF t] a by (auto simp: less_Suc_eq_le)
  from capture_loop_returns [OF t this] show "\<exists>t m. capture_loop shm ev 0 s = Some t \<and> m \<le> n \<and>
      dispatched shm ev 0 (Suc m) s = Some t \<and> (\<forall>i. asked t i \<longrightarrow> settled t i)"
    unfolding all_done_settled by blast
next
  assume "\<exists>i. asked s i \<and> \<not> settled s i \<and> (\<forall>m. \<forall>e \<in> set (ev m). \<not> answers i e)"
  then obtain i where i: "asked s i" "\<not> settled s i" "\<And>m e. e \<in> set (ev m) \<Longrightarrow> \<not> answers i e" by blast
  show "capture_loop shm ev 0 s = None"
  proof (rule ccontr)
    assume "capture_loop shm ev 0 s \<noteq> None"
    then obtain t n where "dispatched shm ev 0 (Suc n) s = Some t" "all_done t"
      using capture_loop_result by blast
    with dispatched_settles [OF this(1), of i] i show False by (auto simp: all_done_settled)
  qed
qed

lemma dispatched_idle: "(\<And>m. k \<le> m \<Longrightarrow> ev m = []) \<Longrightarrow> dispatched shm ev k n s = Some s"
  by (induction n arbitrary: k) simp_all

lemma capture_loop_terminates_witness:
  "\<exists>s :: shot. (\<exists>t. capture_loop (\<lambda>_. True) (\<lambda>k. if k = 0 then [ShBuffer 0 True 2 2 8, ShReady 0 (\<lambda>x y. x + y)] else []) 0 s = Some t) \<and>
     capture_loop (\<lambda>_. True) (\<lambda>_. []) 0 s = None"
proof -
  let ?s = "request_frames \<lparr>so_outpath = [], so_target = [], so_all = True, so_region = False\<rparr> (add_output shot_init)"
  let ?ev = "\<lambda>k. if k = 0 then [ShBuffer 0 True 2 2 8, ShReady 0 (\<lambda>x y. x + y :: int)] else []"
  have a: "asked ?s i \<longleftrightarrow> i = 0" and u: "\<not> settled ?s 0" for i
    by (auto simp: asked_def settled_def request_frames_def add_output_def shot_init_def MAX_OUTPUTS_def upd_shot_def fresh_output_def wanted_def)
  have d: "dispatched (\<lambda>_. True) ?ev 0 m ?s \<noteq> None" for m
  proof (cases m)
    case (Suc n)
    have "dispatched (\<lambda>_. True) ?ev (Suc 0) n t = Some t" for t by (rule dispatched_idle) simp
    with Suc show ?thesis by simp
  qed simp
  have e: "dispatched (\<lambda>_. True) (\<lambda>_. []) 0 m ?s \<noteq> None" for m using dispatched_idle [of 0 "\<lambda>_. []"] by simp
  have "\<exists>t. capture_loop (\<lambda>_. True) ?ev 0 ?s = Some t"
    using capture_loop_terminates [OF d, of 0] by (force simp: a answers_def)
  moreover have "capture_loop (\<lambda>_. True) (\<lambda>_. []) 0 ?s = None"
    using capture_loop_terminates [OF e] a u by auto
  ultimately show ?thesis by blast
qed

text \<open>
  An output name that matches nothing: no frame is asked for, the first dispatch that returns ends
  the loop, nothing is written, and the program still prints the path and exits with 0.
\<close>

lemma unknown_output_reports_success:
  assumes "\<not> so_all p" and "so_target p \<noteq> []" and "\<And>q. q \<in> set (sh_outputs s) \<Longrightarrow> sh_name q \<noteq> so_target p \<and> \<not> sh_frame q \<and> \<not> sh_done q"
    and "ev 0 = []"
  shows "kumshot_outputs shm p ev s = Some (0, None)"
proof -
  have "fold (\<lambda>i s. if wanted p s i then sh_emit (ShCapture i) (upd_shot i (\<lambda>q. q\<lparr>sh_frame := True\<rparr>) s) else s) xs s = s"
    if "\<forall>i \<in> set xs. i < length (sh_outputs s)" for xs
    using that
  proof (induction xs)
    case (Cons i xs)
    then have "\<not> wanted p s i" using assms(1-3) nth_mem [of i "sh_outputs s"] by (auto simp: wanted_def)
    with Cons show ?case by simp
  qed simp
  then have r: "request_frames p s = s" by (simp add: request_frames_def)
  have "all_done s" using assms(3) by (auto simp: all_done_def frame_pending_def list_all_iff)
  then have "capture_loop shm ev 0 s = Some s" using assms(4) by (subst capture_loop.simps) simp
  moreover have "List.find sh_done (sh_outputs s) = None" using assms(3) by (auto simp: find_None_iff)
  ultimately show ?thesis using assms(1) by (simp add: kumshot_outputs_def r save_shot_def)
qed

section \<open>The composite picture\<close>

lemma canvas_step_bounds:
  "fst (canvas_step wh q) \<ge> fst wh \<and> snd (canvas_step wh q) \<ge> snd wh \<and>
   (sh_done q \<longrightarrow> sh_x q + sh_width q \<le> fst (canvas_step wh q) \<and> sh_y q + sh_height q \<le> snd (canvas_step wh q))"
  by (auto simp: canvas_step_def Let_def case_prod_unfold)

lemma canvas_bounds:
  "fst wh \<le> fst (foldl canvas_step wh qs) \<and> snd wh \<le> snd (foldl canvas_step wh qs) \<and>
   (\<forall>q \<in> set qs. sh_done q \<longrightarrow> sh_x q + sh_width q \<le> fst (foldl canvas_step wh qs) \<and>
      sh_y q + sh_height q \<le> snd (foldl canvas_step wh qs))"
proof (induction qs arbitrary: wh)
  case (Cons q qs)
  from Cons [of "canvas_step wh q"] canvas_step_bounds [of wh q] show ?case by (auto intro: order_trans)
qed simp

lemma canvas_least:
  "(fst (foldl canvas_step wh qs) = fst wh \<or> (\<exists>q \<in> set qs. sh_done q \<and> fst (foldl canvas_step wh qs) = sh_x q + sh_width q)) \<and>
   (snd (foldl canvas_step wh qs) = snd wh \<or> (\<exists>q \<in> set qs. sh_done q \<and> snd (foldl canvas_step wh qs) = sh_y q + sh_height q))"
proof (induction qs arbitrary: wh)
  case (Cons q qs)
  have "(fst (canvas_step wh q) = fst wh \<or> sh_done q \<and> fst (canvas_step wh q) = sh_x q + sh_width q) \<and>
      (snd (canvas_step wh q) = snd wh \<or> sh_done q \<and> snd (canvas_step wh q) = sh_y q + sh_height q)"
    by (simp add: canvas_step_def Let_def case_prod_unfold)
  with Cons [of "canvas_step wh q"] show ?case by auto
qed simp

lemma paint_outside: "\<forall>q \<in> set qs. \<not> covers q x y \<Longrightarrow> foldl paint_output c qs x y = c x y"
  by (induction qs arbitrary: c) (simp_all add: paint_output_def split: option.split)

lemma paint_inside:
  assumes "sh_done q" and "sh_data q = Some px" and "covers q x y" and "\<forall>r \<in> set bs. \<not> covers r x y"
  shows "foldl paint_output c (as @ q # bs) x y = px (x - sh_x q) (y - sh_y q)"
  using assms by (simp add: paint_outside) (simp add: paint_output_def)

text \<open>
  C34. The picture of all outputs: when their frames do not overlap and no output lies left of or
  above the origin, every pixel of every frame is in the picture at the output's position,
  and the picture is no larger than they need.
\<close>

theorem composite_pixels:
  assumes "qs \<noteq> []" and "\<forall>q \<in> set qs. sh_done q \<and> sh_data q \<noteq> None \<and> 0 \<le> sh_x q \<and> 0 \<le> sh_y q \<and> 0 < sh_width q \<and> 0 < sh_height q"
    and "\<forall>i < length qs. \<forall>j < length qs. i < j \<longrightarrow> (\<forall>x y. \<not> (covers (qs ! i) x y \<and> covers (qs ! j) x y))"
  shows "\<exists>w h pic. composite qs = Some (w, h, pic) \<and>
     (\<forall>q \<in> set qs. sh_x q + sh_width q \<le> w \<and> sh_y q + sh_height q \<le> h \<and>
        (\<forall>u v. 0 \<le> u \<and> u < sh_width q \<and> 0 \<le> v \<and> v < sh_height q \<longrightarrow> pic (sh_x q + u) (sh_y q + v) = the (sh_data q) u v)) \<and>
     (\<exists>q \<in> set qs. w = sh_x q + sh_width q) \<and> (\<exists>q \<in> set qs. h = sh_y q + sh_height q)"
proof -
  obtain w h where wh: "canvas_size qs = (w, h)" by fastforce
  have b: "sh_x q + sh_width q \<le> w \<and> sh_y q + sh_height q \<le> h" if "q \<in> set qs" for q
    using canvas_bounds [of "(0, 0)" qs] wh that assms(2) by (auto simp: canvas_size_def)
  have p: "0 < w \<and> 0 < h" using b [of "hd qs"] assms(1,2) hd_in_set [OF assms(1)] by fastforce
  have m: "(\<exists>q \<in> set qs. w = sh_x q + sh_width q) \<and> (\<exists>q \<in> set qs. h = sh_y q + sh_height q)"
    using canvas_least [of "(0, 0)" qs] wh p by (auto simp: canvas_size_def)
  have c: "foldl paint_output (\<lambda>x y. 0) qs (sh_x q + u) (sh_y q + v) = the (sh_data q) u v"
    if q0: "q \<in> set qs" and q1: "0 \<le> u \<and> u < sh_width q \<and> 0 \<le> v \<and> v < sh_height q" for q u v
  proof -
    obtain i where "i < length qs" "qs ! i = q" using q0 unfolding in_set_conv_nth by blast
    then have i: "i < length qs" "q = qs ! i" by simp_all
    have q: "qs = take i qs @ q # drop (Suc i) qs" using i by (simp add: id_take_nth_drop)
    have cv: "covers q (sh_x q + u) (sh_y q + v)" using q1 by (simp add: covers_def)
    have n: "\<forall>r \<in> set (drop (Suc i) qs). \<not> covers r (sh_x q + u) (sh_y q + v)"
      using assms(3) i cv by (auto simp: in_set_conv_nth)
    obtain px where px: "sh_data q = Some px" "sh_done q" using assms(2) q0 by auto
    from paint_inside [OF px(2,1) cv n, of "\<lambda>x y. 0" "take i qs"] q px(1) show ?thesis by simp
  qed
  have "composite qs = Some (w, h, foldl paint_output (\<lambda>x y. 0) qs)" using p wh by (simp add: composite_def)
  with b c m show ?thesis by blast
qed

definition ex_frame :: "int \<Rightarrow> int \<Rightarrow> int \<Rightarrow> int \<Rightarrow> shot_output" where
  "ex_frame x y w h = fresh_output\<lparr>sh_x := x, sh_y := y, sh_width := w, sh_height := h, sh_done := True,
     sh_data := Some (\<lambda>u v. u + 10 * v)\<rparr>"

lemma composite_pixels_witness:
  "\<exists>w h pic. composite [ex_frame 0 0 2 2, ex_frame 2 1 3 2] = Some (w, h, pic) \<and> pic 3 2 = 11"
proof -
  let ?qs = "[ex_frame 0 0 2 2, ex_frame 2 1 3 2]"
  have "\<exists>w h pic. composite ?qs = Some (w, h, pic) \<and>
     (\<forall>q \<in> set ?qs. sh_x q + sh_width q \<le> w \<and> sh_y q + sh_height q \<le> h \<and>
        (\<forall>u v. 0 \<le> u \<and> u < sh_width q \<and> 0 \<le> v \<and> v < sh_height q \<longrightarrow> pic (sh_x q + u) (sh_y q + v) = the (sh_data q) u v)) \<and>
     (\<exists>q \<in> set ?qs. w = sh_x q + sh_width q) \<and> (\<exists>q \<in> set ?qs. h = sh_y q + sh_height q)"
  proof (rule composite_pixels)
    show "\<forall>i < length ?qs. \<forall>j < length ?qs. i < j \<longrightarrow> (\<forall>x y. \<not> (covers (?qs ! i) x y \<and> covers (?qs ! j) x y))"
      by (auto simp: less_Suc_eq covers_def ex_frame_def)
  qed (auto simp: ex_frame_def)
  then obtain w h pic where p: "composite ?qs = Some (w, h, pic)"
    "\<And>u v. 0 \<le> u \<Longrightarrow> u < 3 \<Longrightarrow> 0 \<le> v \<Longrightarrow> v < 2 \<Longrightarrow> pic (2 + u) (1 + v) = u + 10 * v"
    by (auto simp: ex_frame_def)
  from p(2) [of 1 1] have "pic 3 2 = 11" by simp
  with p(1) show ?thesis by blast
qed

end
