(* ===== verification/Kumwall.thy ===== *)
theory Kumwall
  imports Scanf Cfloat
begin

text \<open>
  The wallpaper client (\<open>kumwall\<close>): its options, the surface it puts behind each output, and
  how an image is placed on it. Computations in \<open>double\<close> are rounded where the code rounds.
  \<open>None\<close> is a request on a null object.
\<close>

section \<open>Options\<close>

record wall_opts =
  wl_color :: "rat \<times> rat \<times> rat"
  wl_image :: "string option"
  wl_use_color :: bool

definition wall_defaults :: wall_opts where
  "wall_defaults = \<lparr>wl_color = (f32 (8 / 100), f32 (8 / 100), f32 (12 / 100)), wl_image = None, wl_use_color = True\<rparr>"

text \<open>\<open>None\<close>: the usage is printed, also for an option whose values are missing.\<close>

fun wall_args :: "string list \<Rightarrow> wall_opts \<Rightarrow> wall_opts option" where
  "wall_args [] p = Some p"
| "wall_args (a # as) p =
     (if a = ''-c'' \<and> 3 \<le> length as then
        wall_args (drop 3 as) (p\<lparr>wl_color := (f32 (f64 (atof (as ! 0))), f32 (f64 (atof (as ! 1))), f32 (f64 (atof (as ! 2)))),
                                  wl_use_color := True\<rparr>)
      else if a = ''-i'' \<and> 1 \<le> length as then
        wall_args (drop 1 as) (p\<lparr>wl_image := Some (as ! 0), wl_use_color := False\<rparr>)
      else None)"

section \<open>State\<close>

record wall_output =
  wo_surface :: "nat option"
  wo_layer :: "nat option"
  wo_buffer :: bool
  wo_width :: int
  wo_height :: int
  wo_configured :: bool

datatype wall_draw =
    Fill rat rat rat
  | Black
  | Image rat rat rat          \<comment> \<open>translation and scale\<close>

datatype wall_request =
    WlCreate nat nat nat       \<comment> \<open>output, surface and layer surface\<close>
  | WlAck nat
  | WlDestroyBuffer nat
  | WlAttach nat int int "wall_draw list"

record wall =
  wl_opts :: wall_opts
  wl_globals :: bool           \<comment> \<open>the compositor and the layer shell are there\<close>
  wl_outputs :: "nat list"
  wl_output_at :: "nat \<Rightarrow> wall_output"
  wl_out :: "wall_request list"

text \<open>What the system and cairo answer: memory, and the size of the image if it can be read.\<close>

record wall_env =
  w_shm :: "int \<Rightarrow> bool"
  w_png :: "string \<Rightarrow> (int \<times> int) option"

definition wl_emit :: "wall_request \<Rightarrow> wall \<Rightarrow> wall" where
  "wl_emit r s = s\<lparr>wl_out := wl_out s @ [r]\<rparr>"

definition upd_wall :: "nat \<Rightarrow> (wall_output \<Rightarrow> wall_output) \<Rightarrow> wall \<Rightarrow> wall" where
  "upd_wall i f s = s\<lparr>wl_output_at := (wl_output_at s)(i := f (wl_output_at s i))\<rparr>"

section \<open>Drawing\<close>

definition wall_scale :: "int \<Rightarrow> int \<Rightarrow> int \<Rightarrow> int \<Rightarrow> rat" where
  "wall_scale w h iw ih =
     (let sx = f64 (of_int w / of_int iw); sy = f64 (of_int h / of_int ih) in if sy < sx then sx else sy)"

definition wall_offset :: "int \<Rightarrow> int \<Rightarrow> rat \<Rightarrow> rat" where
  "wall_offset w iw scale = f64 (f64 (of_int w - f64 (of_int iw * scale)) / 2)"

definition wall_frame :: "wall_env \<Rightarrow> wall_opts \<Rightarrow> int \<Rightarrow> int \<Rightarrow> wall_draw list" where
  "wall_frame E p w h =
     (case (if wl_use_color p then None else wl_image p) of
        None \<Rightarrow> (let (r, g, b) = wl_color p in [Fill r g b])
      | Some path \<Rightarrow>
          (case w_png E path of
             None \<Rightarrow> [Fill (f64 (8 / 100)) (f64 (8 / 100)) (f64 (12 / 100))]
           | Some (iw, ih) \<Rightarrow>
               (let scale = wall_scale w h iw ih in [Black, Image (wall_offset w iw scale) (wall_offset h ih scale) scale])))"

definition wall_render :: "wall_env \<Rightarrow> nat \<Rightarrow> wall \<Rightarrow> wall option" where
  "wall_render E i s =
     (let q = wl_output_at s i; w = wo_width q; h = wo_height q in
      if \<not> wo_configured q \<or> w = 0 \<or> h = 0 then Some s
      else if \<not> w_shm E (w * 4 * h) then Some s
      else do {
        surf \<leftarrow> wo_surface q;
        let s1 = (if wo_buffer q then wl_emit (WlDestroyBuffer i) s else s);
            s2 = upd_wall i (\<lambda>q. q\<lparr>wo_buffer := True\<rparr>) s1
        in Some (wl_emit (WlAttach surf w h (wall_frame E (wl_opts s) w h)) s2) })"

section \<open>Events\<close>

text \<open>\<open>ls\<close> is the layer surface the compositor configures; the handler only knows the output it was made for.\<close>

definition wall_configure :: "wall_env \<Rightarrow> nat \<Rightarrow> nat \<Rightarrow> int \<Rightarrow> int \<Rightarrow> wall \<Rightarrow> wall option" where
  "wall_configure E i ls w h s =
     wall_render E i (wl_emit (WlAck ls) (upd_wall i (\<lambda>q. q\<lparr>wo_width := w, wo_height := h, wo_configured := True\<rparr>) s))"

definition wall_output_done :: "nat \<Rightarrow> nat \<Rightarrow> nat \<Rightarrow> wall \<Rightarrow> wall option" where
  "wall_output_done i surf ls s =
     (if \<not> wl_globals s then None
      else Some (wl_emit (WlCreate i surf ls) (upd_wall i (\<lambda>q. q\<lparr>wo_surface := Some surf, wo_layer := Some ls\<rparr>) s)))"

definition wall_registry_output :: "nat \<Rightarrow> wall \<Rightarrow> wall" where
  "wall_registry_output i s =
     upd_wall i (\<lambda>_. \<lparr>wo_surface = None, wo_layer = None, wo_buffer = False, wo_width = 0, wo_height = 0, wo_configured = False\<rparr>)
       (s\<lparr>wl_outputs := wl_insert i (wl_outputs s)\<rparr>)"

datatype wall_event =
    WlOutput nat
  | WlDone nat nat nat
  | WlConfigure nat nat int int
  | WlClosed nat

fun wall_step :: "wall_env \<Rightarrow> wall_event \<Rightarrow> wall \<Rightarrow> wall option" where
  "wall_step E (WlOutput i) s = Some (wall_registry_output i s)"
| "wall_step E (WlDone i surf ls) s = wall_output_done i surf ls s"
| "wall_step E (WlConfigure i ls w h) s = wall_configure E i ls w h s"
| "wall_step E (WlClosed i) s = Some s"

section \<open>The rounding error\<close>

lemma rne_error: "\<bar>of_int (rne y) - y\<bar> \<le> 1 / 2"
proof -
  define k where "k = (of_int \<lfloor>y\<rfloor> :: rat)"
  have "k \<le> y" "y < k + 1" unfolding k_def by linarith+
  moreover have "of_int (rne y) = (if y - k < 1 / 2 then k else if 1 / 2 < y - k then k + 1 else if even \<lfloor>y\<rfloor> then k else k + 1)"
    by (simp add: rne_def k_def Let_def)
  ultimately show ?thesis by (auto simp: abs_if split: if_split_asm)
qed

lemma rnd_error_pos:
  assumes "0 < x"
  shows "\<bar>rnd p m x - x\<bar> \<le> ulp p m x / 2"
proof -
  let ?u = "ulp p m x"
  have u: "0 < ?u" by simp
  have "rnd p m x - x = (of_int (rne (x / ?u)) - x / ?u) * ?u"
    using assms less_imp_neq [OF u] by (simp add: rnd_def left_diff_distrib)
  then have "\<bar>rnd p m x - x\<bar> = \<bar>of_int (rne (x / ?u)) - x / ?u\<bar> * ?u"
    using u by (simp add: abs_mult less_imp_le)
  also have "\<dots> \<le> 1 / 2 * ?u" using rne_error less_imp_le [OF u] by (rule mult_right_mono)
  finally show ?thesis by simp
qed

lemma ulp_relative:
  assumes "0 < x"
  shows "ulp p m x \<le> x * 2 powi (1 - int p) + 2 powi (m - int p + 1)"
proof -
  have "ulp p m x \<le> 2 powi (expo x) * 2 powi (1 - int p) + 2 powi (m - int p + 1)"
    by (cases "m \<le> expo x") (simp_all add: ulp_def max_def algebra_simps less_imp_le flip: powi_2_add)
  also have "2 powi (expo x) * 2 powi (1 - int p) \<le> x * 2 powi (1 - int p)"
    using expo_bounds(1) [OF assms] by (intro mult_right_mono) (simp_all add: less_imp_le)
  finally show ?thesis by simp
qed

text \<open>The rounding error of \<open>double\<close>: half a unit in the last place, or half the smallest number.\<close>

lemma f64_error: "\<bar>f64 x - x\<bar> \<le> \<bar>x\<bar> / 2 ^ 53 + 1 / 2 ^ 60"
proof -
  have pos: "\<bar>f64 y - y\<bar> \<le> y / 2 ^ 53 + 1 / 2 ^ 60" if "0 < y" for y
  proof -
    have "\<bar>f64 y - y\<bar> \<le> ulp 53 (-1022) y / 2" unfolding f64_def by (rule rnd_error_pos [OF that])
    also have "\<dots> \<le> (y * 2 powi (1 - int 53) + 2 powi (-1022 - int 53 + 1)) / 2"
      using ulp_relative [OF that, of 53 "-1022"] by simp
    also have "(2::rat) powi (1 - int 53) = 1 / 2 ^ 52" by (simp add: power_int_def field_simps)
    also have "(2::rat) powi (-1022 - int 53 + 1) \<le> 2 powi (- 59)" by (simp only: powi_2_le)
    also have "(2::rat) powi (- 59) = 1 / 2 ^ 59" by (simp add: power_int_def field_simps)
    finally show ?thesis by simp
  qed
  consider "x = 0" | "0 < x" | "0 < - x" by linarith
  then show ?thesis
  proof cases
    case 3
    have "f64 (- x) = - f64 x" by (simp add: f64_def rnd_minus)
    with pos [OF 3] 3 show ?thesis by (simp add: abs_if split: if_split_asm)
  qed (use pos in \<open>auto simp: f64_def\<close>)
qed

section \<open>The image fills the output\<close>

text \<open>The exact extent of the painted image along one axis and its distance to the output's edges.\<close>

lemma f64_error_bounded:
  assumes "\<bar>x\<bar> \<le> 2 ^ 34"
  shows "\<bar>f64 x - x\<bar> \<le> 1 / 2 ^ 18"
proof -
  have "\<bar>f64 x - x\<bar> \<le> \<bar>x\<bar> / 2 ^ 53 + 1 / 2 ^ 60" by (rule f64_error)
  with assms show ?thesis by simp
qed

lemma quotient_error:
  assumes "1 \<le> w" "w \<le> 2 ^ 16" "1 \<le> iw" "iw \<le> 2 ^ 16"
  shows "\<bar>of_int iw * f64 (of_int w / of_int iw) - of_int w\<bar> \<le> 1 / 2 ^ 36" and "f64 (of_int w / of_int iw) \<le> 2 ^ 17"
    and "0 \<le> f64 (of_int w / of_int iw)"
proof -
  define q where "q = (of_int w / of_int iw :: rat)"
  define W where "W = (of_int w :: rat)"
  define I where "I = (of_int iw :: rat)"
  have b: "1 \<le> W" "W \<le> 2 ^ 16" "1 \<le> I" "I \<le> 2 ^ 16"
    using assms of_int_le_iff [where 'a=rat, of 1 w] of_int_le_iff [where 'a=rat, of w "2 ^ 16"]
      of_int_le_iff [where 'a=rat, of 1 iw] of_int_le_iff [where 'a=rat, of iw "2 ^ 16"] by (simp_all add: W_def I_def)
  have q: "I * q = W" "0 \<le> q" using b by (simp_all add: q_def W_def I_def)
  have "q \<le> W" using q b mult_right_mono [of 1 I q] by simp
  with b have q2: "q \<le> 2 ^ 16" by simp
  have e: "\<bar>f64 q - q\<bar> \<le> q / 2 ^ 53 + 1 / 2 ^ 60" using f64_error [of q] q by simp
  have "\<bar>I * f64 q - W\<bar> = I * \<bar>f64 q - q\<bar>"
    using b unfolding q(1) [symmetric] right_diff_distrib [symmetric] by (simp add: abs_mult)
  also have "\<dots> \<le> I * (q / 2 ^ 53 + 1 / 2 ^ 60)" using e b by (intro mult_left_mono) simp_all
  also have "\<dots> = W / 2 ^ 53 + I / 2 ^ 60" using q(1) by (simp add: distrib_left)
  also have "\<dots> \<le> 1 / 2 ^ 36" using b by simp
  finally show "\<bar>of_int iw * f64 (of_int w / of_int iw) - of_int w\<bar> \<le> 1 / 2 ^ 36" by (simp add: W_def I_def q_def)
  show "f64 (of_int w / of_int iw) \<le> 2 ^ 17" using e q q2 unfolding q_def [symmetric] by (simp add: abs_le_iff)
  show "0 \<le> f64 (of_int w / of_int iw)" using q(2) by (simp add: q_def f64_def rnd_nonneg)
qed

lemma offset_error:
  assumes "1 \<le> w" "w \<le> 2 ^ 16" "1 \<le> iw" "iw \<le> 2 ^ 16" and "0 \<le> s" "s \<le> 2 ^ 17"
  shows "\<bar>wall_offset w iw s - (of_int w - of_int iw * s) / 2\<bar> \<le> 1 / 2 ^ 16"
proof -
  define W where "W = (of_int w :: rat)"
  define r where "r = (of_int iw * s :: rat)"
  define d where "d = f64 r"
  define e where "e = f64 (W - d)"
  have W: "1 \<le> W" "W \<le> 2 ^ 16"
    using assms of_int_le_iff [where 'a=rat, of 1 w] of_int_le_iff [where 'a=rat, of w "2 ^ 16"] by (simp_all add: W_def)
  have I: "(of_int iw :: rat) \<le> 2 ^ 16" "0 \<le> (of_int iw :: rat)"
    using assms of_int_le_iff [where 'a=rat, of iw "2 ^ 16"] by simp_all
  have r: "0 \<le> r" "r \<le> 2 ^ 33"
    using assms I mult_mono [of "of_int iw" "2 ^ 16 :: rat" s "2 ^ 17"] by (simp_all add: r_def)
  have d: "\<bar>d - r\<bar> \<le> 1 / 2 ^ 18" unfolding d_def using r by (intro f64_error_bounded) simp
  then have d': "d - r \<le> 1 / 2 ^ 18" "r - d \<le> 1 / 2 ^ 18" by (simp_all only: abs_le_iff minus_diff_eq)
  have "\<bar>W - d\<bar> \<le> 2 ^ 34" using d' r W unfolding abs_le_iff by simp
  then have e: "\<bar>e - (W - d)\<bar> \<le> 1 / 2 ^ 18" unfolding e_def by (rule f64_error_bounded)
  then have e': "e - (W - d) \<le> 1 / 2 ^ 18" "(W - d) - e \<le> 1 / 2 ^ 18" by (simp_all only: abs_le_iff minus_diff_eq)
  have "\<bar>e / 2\<bar> \<le> 2 ^ 34" using d' r W e' unfolding abs_le_iff by simp
  then have "\<bar>f64 (e / 2) - e / 2\<bar> \<le> 1 / 2 ^ 18" by (rule f64_error_bounded)
  moreover have "wall_offset w iw s = f64 (e / 2)" by (simp add: wall_offset_def e_def d_def r_def W_def)
  ultimately show ?thesis using d' e' unfolding r_def [symmetric] W_def [symmetric] abs_le_iff
    by (simp add: diff_divide_distrib)
qed

text \<open>
  C35. Along both axes the image reaches over, or misses by less than a thousandth of a pixel, both edges of the
  output, it is centred, and along at least one axis it does not reach further: it is scaled
  to fill, and no more.
\<close>

theorem image_fills_output:
  assumes "1 \<le> w" "w \<le> 2 ^ 16" "1 \<le> h" "h \<le> 2 ^ 16" "1 \<le> iw" "iw \<le> 2 ^ 16" "1 \<le> ih" "ih \<le> 2 ^ 16"
    and "\<not> wl_use_color p" and "wl_image p = Some path" and "w_png E path = Some (iw, ih)"
  shows "\<exists>ox oy scale. wall_frame E p w h = [Black, Image ox oy scale] \<and>
     ox \<le> 1 / 1000 \<and> of_int w - 1 / 1000 \<le> ox + of_int iw * scale \<and>
     oy \<le> 1 / 1000 \<and> of_int h - 1 / 1000 \<le> oy + of_int ih * scale \<and>
     \<bar>(ox + of_int iw * scale - of_int w) + ox\<bar> \<le> 1 / 1000 \<and> \<bar>(oy + of_int ih * scale - of_int h) + oy\<bar> \<le> 1 / 1000 \<and>
     (- 1 / 1000 \<le> ox \<and> ox + of_int iw * scale \<le> of_int w + 1 / 1000 \<or>
      - 1 / 1000 \<le> oy \<and> oy + of_int ih * scale \<le> of_int h + 1 / 1000)"
proof -
  define s where "s = wall_scale w h iw ih"
  define W H I J where defs: "W = (of_int w :: rat)" "H = (of_int h :: rat)" "I = (of_int iw :: rat)" "J = (of_int ih :: rat)"
  let ?sx = "f64 (of_int w / of_int iw)" and ?sy = "f64 (of_int h / of_int ih)"
  note qx = quotient_error [OF assms(1,2,5,6)] and qy = quotient_error [OF assms(3,4,7,8)]
  have s: "?sx \<le> s" "?sy \<le> s" "s = ?sx \<or> s = ?sy" by (simp_all add: s_def wall_scale_def Let_def)
  have b: "0 \<le> s" "s \<le> 2 ^ 17" using s qx(2,3) qy(2) by (simp_all add: s_def wall_scale_def Let_def)
  have x: "of_int iw * ?sx \<le> of_int iw * s" and y: "of_int ih * ?sy \<le> of_int ih * s"
    using s assms by (simp_all add: mult_left_mono)
  define ox where "ox = wall_offset w iw s"
  define oy where "oy = wall_offset h ih s"
  define r where "r = I * s"
  define t where "t = J * s"
  have o1: "ox - (W - r) / 2 \<le> 1 / 2 ^ 16" "(W - r) / 2 - ox \<le> 1 / 2 ^ 16"
    using offset_error [OF assms(1,2,5,6) b] unfolding ox_def r_def defs abs_le_iff by simp_all
  have o2: "oy - (H - t) / 2 \<le> 1 / 2 ^ 16" "(H - t) / 2 - oy \<le> 1 / 2 ^ 16"
    using offset_error [OF assms(3,4,7,8) b] unfolding oy_def t_def defs abs_le_iff by simp_all
  have lo: "W - 1 / 2 ^ 36 \<le> r" "H - 1 / 2 ^ 36 \<le> t"
    using qx(1) qy(1) x y unfolding r_def t_def defs abs_le_iff by simp_all
  have hi: "r \<le> W + 1 / 2 ^ 36 \<or> t \<le> H + 1 / 2 ^ 36"
    using s(3) qx(1) qy(1) unfolding r_def t_def defs abs_le_iff by auto
  have "wall_frame E p w h = [Black, Image ox oy s]"
    using assms(9-11) by (simp add: wall_frame_def ox_def oy_def s_def Let_def)
  moreover have "ox \<le> 1 / 1000" "W - 1 / 1000 \<le> ox + r" "\<bar>(ox + r - W) + ox\<bar> \<le> 1 / 1000"
    using o1 lo(1) unfolding abs_le_iff by (simp_all add: diff_divide_distrib)
  moreover have "oy \<le> 1 / 1000" "H - 1 / 1000 \<le> oy + t" "\<bar>(oy + t - H) + oy\<bar> \<le> 1 / 1000"
    using o2 lo(2) unfolding abs_le_iff by (simp_all add: diff_divide_distrib)
  moreover have "- 1 / 1000 \<le> ox \<and> ox + r \<le> W + 1 / 1000 \<or> - 1 / 1000 \<le> oy \<and> oy + t \<le> H + 1 / 1000"
    using hi
  proof
    assume "r \<le> W + 1 / 2 ^ 36"
    with o1 show ?thesis by (simp add: diff_divide_distrib)
  next
    assume "t \<le> H + 1 / 2 ^ 36"
    with o2 show ?thesis by (simp add: diff_divide_distrib)
  qed
  ultimately show ?thesis unfolding r_def t_def defs by blast
qed

lemma image_fills_output_witness:
  "\<exists>ox oy scale. wall_frame \<lparr>w_shm = \<lambda>_. True, w_png = \<lambda>_. Some (640, 480)\<rparr>
       \<lparr>wl_color = (0, 0, 0), wl_image = Some ''a.png'', wl_use_color = False\<rparr> 1920 1080 = [Black, Image ox oy scale] \<and>
     ox \<le> 1 / 1000 \<and> 1919 \<le> ox + 640 * scale"
proof -
  have "\<exists>ox oy scale. wall_frame \<lparr>w_shm = \<lambda>_. True, w_png = \<lambda>_. Some (640, 480)\<rparr>
       \<lparr>wl_color = (0, 0, 0), wl_image = Some ''a.png'', wl_use_color = False\<rparr> 1920 1080 = [Black, Image ox oy scale] \<and>
     ox \<le> 1 / 1000 \<and> of_int 1920 - 1 / 1000 \<le> ox + of_int 640 * scale \<and>
     oy \<le> 1 / 1000 \<and> of_int 1080 - 1 / 1000 \<le> oy + of_int 480 * scale \<and>
     \<bar>(ox + of_int 640 * scale - of_int 1920) + ox\<bar> \<le> 1 / 1000 \<and> \<bar>(oy + of_int 480 * scale - of_int 1080) + oy\<bar> \<le> 1 / 1000 \<and>
     (- 1 / 1000 \<le> ox \<and> ox + of_int 640 * scale \<le> of_int 1920 + 1 / 1000 \<or>
      - 1 / 1000 \<le> oy \<and> oy + of_int 480 * scale \<le> of_int 1080 + 1 / 1000)"
    by (rule image_fills_output) simp_all
  then obtain ox oy scale where f: "wall_frame \<lparr>w_shm = \<lambda>_. True, w_png = \<lambda>_. Some (640, 480)\<rparr>
       \<lparr>wl_color = (0, 0, 0), wl_image = Some ''a.png'', wl_use_color = False\<rparr> 1920 1080 = [Black, Image ox oy scale]"
    "ox \<le> 1 / 1000" "of_int 1920 - 1 / 1000 \<le> ox + of_int 640 * scale" by blast
  then have "1919 \<le> ox + 640 * scale" by simp
  with f show ?thesis by blast
qed

section \<open>Outputs that change\<close>

text \<open>
  The compositor sends \<open>done\<close> again whenever the mode or the scale of an output changes. Each
  one makes another surface and drops the last: a configure event for the first layer surface is then
  answered on the second surface, which has not been configured.
\<close>

theorem done_replaces_surface:
  assumes "wl_globals s" and "i \<in> set (wl_outputs s)" and "0 < w" "0 < h" and "w_shm E (w * 4 * h)"
  shows "\<exists>t cs. run (wall_step E) [WlDone i a la, WlDone i b lb, WlConfigure i la w h] s = Some t \<and>
     wl_out t = wl_out s @ [WlCreate i a la, WlCreate i b lb, WlAck la] @ cs @ [WlAttach b w h (wall_frame E (wl_opts s) w h)]"
proof -
  have "run (wall_step E) [WlDone i a la, WlDone i b lb, WlConfigure i la w h] s \<noteq> None"
    using assms by (simp add: wall_output_done_def wall_configure_def wall_render_def upd_wall_def wl_emit_def Let_def)
  then obtain t where t: "run (wall_step E) [WlDone i a la, WlDone i b lb, WlConfigure i la w h] s = Some t" by blast
  then have "\<exists>cs. wl_out t = wl_out s @ [WlCreate i a la, WlCreate i b lb, WlAck la] @ cs @ [WlAttach b w h (wall_frame E (wl_opts s) w h)]"
    using assms
    by (cases "wo_buffer (wl_output_at s i)")
      (auto simp: wall_output_done_def wall_configure_def wall_render_def upd_wall_def wl_emit_def Let_def)
  with t show ?thesis by blast
qed

end
