(* ===== verification/Client_Start.thy ===== *)
theory Client_Start
  imports Kumlauncher Kumnotify Kumlock Kumclip Kumidle Kumshot Kumwall
begin

text \<open>
  How the clients come up: the globals each program binds (\<open>registry_global\<close>, \<open>reg_global\<close>),
  the devices it takes from the seat, the protocols it cannot do without, and the ends of the
  loops the other theories do not have.
\<close>

section \<open>Globals\<close>

text \<open>
  A global is a name (a number) with an interface. A program keeps the last one announced of
  each interface it knows, and the outputs apart.
\<close>

record bindings =
  bd_globals :: "string \<Rightarrow> nat option"
  bd_outputs :: "nat list"

definition no_bindings :: bindings where
  "no_bindings = \<lparr>bd_globals = Map.empty, bd_outputs = []\<rparr>"

definition bind_known :: "string list \<Rightarrow> nat \<times> string \<Rightarrow> bindings \<Rightarrow> bindings" where
  "bind_known known = (\<lambda>(n, iface) b. if iface \<in> set known then b\<lparr>bd_globals := (bd_globals b)(iface \<mapsto> n)\<rparr> else b)"

definition launcher_registry_global :: "nat \<times> string \<Rightarrow> bindings \<Rightarrow> bindings" where
  "launcher_registry_global = bind_known [''wl_compositor'', ''wl_shm'', ''wl_seat'', ''zwlr_layer_shell_v1'']"

text \<open>The notification daemon takes the first output only.\<close>

definition notify_reg_global :: "nat \<times> string \<Rightarrow> bindings \<Rightarrow> bindings" where
  "notify_reg_global = (\<lambda>(n, iface) b.
     if iface \<in> {''wl_compositor'', ''wl_shm'', ''zwlr_layer_shell_v1'', ''wl_seat''}
     then b\<lparr>bd_globals := (bd_globals b)(iface \<mapsto> n)\<rparr>
     else if iface = ''wl_output'' \<and> bd_outputs b = [] then b\<lparr>bd_outputs := [n]\<rparr>
     else b)"

definition locker_registry_global :: "nat \<times> string \<Rightarrow> bindings \<Rightarrow> bindings" where
  "locker_registry_global = (\<lambda>(n, iface) b.
     if iface = ''wl_output'' then b\<lparr>bd_outputs := wl_insert n (bd_outputs b)\<rparr>
     else bind_known [''wl_compositor'', ''wl_shm'', ''wl_seat'', ''ext_session_lock_manager_v1''] (n, iface) b)"

definition wall_registry_global :: "nat \<times> string \<Rightarrow> bindings \<Rightarrow> bindings" where
  "wall_registry_global = (\<lambda>(n, iface) b.
     if iface = ''wl_output'' then b\<lparr>bd_outputs := wl_insert n (bd_outputs b)\<rparr>
     else bind_known [''wl_compositor'', ''wl_shm'', ''zwlr_layer_shell_v1''] (n, iface) b)"

definition shot_reg_global :: "nat \<times> string \<Rightarrow> bindings \<Rightarrow> bindings" where
  "shot_reg_global = (\<lambda>(n, iface) b.
     if iface = ''wl_output'' then (if length (bd_outputs b) < MAX_OUTPUTS then b\<lparr>bd_outputs := bd_outputs b @ [n]\<rparr> else b)
     else bind_known [''wl_shm'', ''wl_compositor'', ''wl_seat'', ''zwlr_layer_shell_v1'', ''zwlr_screencopy_manager_v1'',
       ''zxdg_output_manager_v1''] (n, iface) b)"

definition clip_reg_global :: "nat \<times> string \<Rightarrow> bindings \<Rightarrow> bindings" where
  "clip_reg_global = bind_known [''wl_seat'', ''zwlr_data_control_manager_v1'']"

definition idle_reg_global :: "nat \<times> string \<Rightarrow> bindings \<Rightarrow> bindings" where
  "idle_reg_global = bind_known [''wl_seat'', ''ext_idle_notifier_v1'']"

section \<open>Devices of the seat\<close>

record devices =
  dv_keyboard :: bool
  dv_pointer :: bool

text \<open>The seat announces what it has now; a device is taken once.\<close>

definition launcher_seat_capabilities :: "bool \<Rightarrow> bool \<Rightarrow> devices \<Rightarrow> devices" where
  "launcher_seat_capabilities keyboard pointer d =
     (let d1 = if keyboard \<and> \<not> dv_keyboard d then d\<lparr>dv_keyboard := True\<rparr> else d
      in if pointer \<and> \<not> dv_pointer d1 then d1\<lparr>dv_pointer := True\<rparr> else d1)"

definition shot_seat_capabilities :: "bool \<Rightarrow> bool \<Rightarrow> devices \<Rightarrow> devices" where
  "shot_seat_capabilities keyboard pointer d =
     (let d1 = if pointer \<and> \<not> dv_pointer d then d\<lparr>dv_pointer := True\<rparr> else d
      in if keyboard \<and> \<not> dv_keyboard d1 then d1\<lparr>dv_keyboard := True\<rparr> else d1)"

definition locker_seat_capabilities :: "bool \<Rightarrow> devices \<Rightarrow> devices" where
  "locker_seat_capabilities keyboard d = (if keyboard \<and> \<not> dv_keyboard d then d\<lparr>dv_keyboard := True\<rparr> else d)"

section \<open>What a program needs\<close>

definition missing :: "string list \<Rightarrow> bindings \<Rightarrow> bool" where
  "missing needed b \<longleftrightarrow> list_ex (\<lambda>i. bd_globals b i = None) needed"

text \<open>
  The start up to the check: \<open>None\<close> is an exit with status 1. \<open>display\<close> says that there is a
  display to connect to, \<open>announced\<close> is what it announces in the two round trips.
\<close>

definition start_client ::
  "(nat \<times> string \<Rightarrow> bindings \<Rightarrow> bindings) \<Rightarrow> string list \<Rightarrow> bool \<Rightarrow> (nat \<times> string) list \<Rightarrow> bindings option" where
  "start_client reg needed display announced =
     (if \<not> display then None
      else let b = fold reg announced no_bindings in if missing needed b then None else Some b)"

definition launcher_main_start :: "bool \<Rightarrow> (nat \<times> string) list \<Rightarrow> bindings option" where
  "launcher_main_start = start_client launcher_registry_global [''wl_compositor'', ''wl_shm'', ''zwlr_layer_shell_v1'']"

definition notify_main_start :: "bool \<Rightarrow> (nat \<times> string) list \<Rightarrow> bindings option" where
  "notify_main_start = start_client notify_reg_global [''wl_compositor'', ''wl_shm'', ''zwlr_layer_shell_v1'']"

definition locker_main_start :: "bool \<Rightarrow> (nat \<times> string) list \<Rightarrow> bindings option" where
  "locker_main_start = start_client locker_registry_global [''ext_session_lock_manager_v1'']"

definition wall_main_start :: "bool \<Rightarrow> (nat \<times> string) list \<Rightarrow> bindings option" where
  "wall_main_start = start_client wall_registry_global []"

definition shot_main_start :: "bool \<Rightarrow> (nat \<times> string) list \<Rightarrow> bindings option" where
  "shot_main_start = start_client shot_reg_global [''wl_shm'', ''zwlr_screencopy_manager_v1'']"

definition clip_main_start :: "bool \<Rightarrow> (nat \<times> string) list \<Rightarrow> bindings option" where
  "clip_main_start = start_client clip_reg_global [''wl_seat'', ''zwlr_data_control_manager_v1'']"

definition idle_main_start :: "bool \<Rightarrow> (nat \<times> string) list \<Rightarrow> bindings option" where
  "idle_main_start = start_client idle_reg_global [''ext_idle_notifier_v1'']"

section \<open>Loops\<close>

text \<open>
  The loop of the clipboard daemon and of the idle daemon. A turn is what \<open>poll\<close> reports: an error, a wake-up with
  nothing to read, or a dispatch, which may fail.
\<close>

datatype 'e turn = Turn_Error | Turn_Idle | Turn_Dispatch "'e list option"

definition clip_free :: "clip \<Rightarrow> clip" where
  "clip_free s = s\<lparr>cl_held := None\<rparr>"

text \<open>The second component says that the loop has ended.\<close>

fun clip_loop :: "clip_event turn list \<Rightarrow> clip \<Rightarrow> (clip \<times> bool) option" where
  "clip_loop [] s = Some (s, False)"
| "clip_loop (Turn_Error # ts) s = Some (clip_free s, True)"
| "clip_loop (Turn_Idle # ts) s = clip_loop ts s"
| "clip_loop (Turn_Dispatch None # ts) s = Some (clip_free s, True)"
| "clip_loop (Turn_Dispatch (Some es) # ts) s = Option.bind (run clip_step es s) (clip_loop ts)"

fun idle_loop :: "idle_event turn list \<Rightarrow> idler \<Rightarrow> idler \<times> bool" where
  "idle_loop [] s = (s, False)"
| "idle_loop (Turn_Error # ts) s = (s, True)"
| "idle_loop (Turn_Idle # ts) s = idle_loop ts s"
| "idle_loop (Turn_Dispatch None # ts) s = (s, True)"
| "idle_loop (Turn_Dispatch (Some es) # ts) s = idle_loop ts (fold idle_step es s)"

text \<open>The launcher's and the wallpaper's loops dispatch until the connection fails or the program is told to stop.\<close>

fun launcher_loop :: "launcher_env \<Rightarrow> launcher_event list option list \<Rightarrow> launcher \<Rightarrow> (launcher \<times> bool) option" where
  "launcher_loop E [] s = Some (s, \<not> la_running s)"
| "launcher_loop E (t # ts) s =
     (if \<not> la_running s then Some (s, True)
      else case t of None \<Rightarrow> Some (s, True) | Some es \<Rightarrow> Option.bind (run (launcher_step E) es s) (launcher_loop E ts))"

fun wall_loop :: "wall_env \<Rightarrow> wall_event list option list \<Rightarrow> wall \<Rightarrow> (wall \<times> bool) option" where
  "wall_loop E [] s = Some (s, False)"
| "wall_loop E (None # ts) s = Some (s, True)"
| "wall_loop E (Some es # ts) s = Option.bind (run (wall_step E) es s) (wall_loop E ts)"

section \<open>A program starts exactly when it has what it needs\<close>

locale client_registry =
  fixes reg :: "nat \<times> string \<Rightarrow> bindings \<Rightarrow> bindings"
    and needed :: "string list"
  assumes binds: "i \<in> set needed \<Longrightarrow>
     bd_globals (reg (n, iface) b) i = (if iface = i then Some n else bd_globals b i)"
begin

lemma bound_after:
  "i \<in> set needed \<Longrightarrow> bd_globals (fold reg as b) i = None \<longleftrightarrow> bd_globals b i = None \<and> i \<notin> snd ` set as"
proof (induction as arbitrary: b)
  case (Cons a as)
  then show ?case using binds [OF Cons.prems, of "fst a" "snd a" b] by auto
qed simp

lemma starts_iff:
  "start_client reg needed display as \<noteq> None \<longleftrightarrow> display \<and> set needed \<subseteq> snd ` set as"
  using bound_after [of _ as no_bindings]
  by (auto simp: start_client_def Let_def missing_def list_ex_iff no_bindings_def)

end

interpretation launcher_globals: client_registry launcher_registry_global "[''wl_compositor'', ''wl_shm'', ''zwlr_layer_shell_v1'']"
  by unfold_locales (auto simp: launcher_registry_global_def bind_known_def)

interpretation notify_globals: client_registry notify_reg_global "[''wl_compositor'', ''wl_shm'', ''zwlr_layer_shell_v1'']"
  by unfold_locales (auto simp: notify_reg_global_def)

interpretation locker_globals: client_registry locker_registry_global "[''ext_session_lock_manager_v1'']"
  by unfold_locales (auto simp: locker_registry_global_def bind_known_def)

interpretation wall_globals: client_registry wall_registry_global "[]"
  by unfold_locales simp

interpretation shot_globals: client_registry shot_reg_global "[''wl_shm'', ''zwlr_screencopy_manager_v1'']"
  by unfold_locales (auto simp: shot_reg_global_def bind_known_def)

interpretation clip_globals: client_registry clip_reg_global "[''wl_seat'', ''zwlr_data_control_manager_v1'']"
  by unfold_locales (auto simp: clip_reg_global_def bind_known_def)

interpretation idle_globals: client_registry idle_reg_global "[''ext_idle_notifier_v1'']"
  by unfold_locales (auto simp: idle_reg_global_def bind_known_def)

text \<open>
  Missing protocols. Each client gives up with status 1 exactly when there is no display or the
  display does not announce one of the globals the program needs, in whatever order they
  come; the wallpaper checks nothing.
\<close>

theorem clients_start_iff:
  shows "launcher_main_start display as \<noteq> None \<longleftrightarrow>
       display \<and> {''wl_compositor'', ''wl_shm'', ''zwlr_layer_shell_v1''} \<subseteq> snd ` set as"
    and "notify_main_start display as \<noteq> None \<longleftrightarrow>
       display \<and> {''wl_compositor'', ''wl_shm'', ''zwlr_layer_shell_v1''} \<subseteq> snd ` set as"
    and "locker_main_start display as \<noteq> None \<longleftrightarrow> display \<and> {''ext_session_lock_manager_v1''} \<subseteq> snd ` set as"
    and "shot_main_start display as \<noteq> None \<longleftrightarrow> display \<and> {''wl_shm'', ''zwlr_screencopy_manager_v1''} \<subseteq> snd ` set as"
    and "clip_main_start display as \<noteq> None \<longleftrightarrow> display \<and> {''wl_seat'', ''zwlr_data_control_manager_v1''} \<subseteq> snd ` set as"
    and "idle_main_start display as \<noteq> None \<longleftrightarrow> display \<and> {''ext_idle_notifier_v1''} \<subseteq> snd ` set as"
    and "wall_main_start display as \<noteq> None \<longleftrightarrow> display"
  using launcher_globals.starts_iff [of display as] notify_globals.starts_iff [of display as]
    locker_globals.starts_iff [of display as] shot_globals.starts_iff [of display as]
    clip_globals.starts_iff [of display as] idle_globals.starts_iff [of display as] wall_globals.starts_iff [of display as]
  by (simp_all add: launcher_main_start_def notify_main_start_def locker_main_start_def shot_main_start_def
      clip_main_start_def idle_main_start_def wall_main_start_def)

text \<open>
  On a display without a layer shell the wallpaper starts all the same and follows a null pointer
  when the first output is described.
\<close>

lemma wall_needs_layer_shell:
  assumes "''zwlr_layer_shell_v1'' \<notin> snd ` set as" and "wl_globals s \<longleftrightarrow> \<not> missing [''wl_compositor'', ''zwlr_layer_shell_v1''] (fold wall_registry_global as no_bindings)"
  shows "wall_main_start True as \<noteq> None \<and> wall_loop E (Some [WlOutput i, WlDone i surf ls] # ts) s = None"
proof -
  have "bd_globals (fold wall_registry_global as b) ''zwlr_layer_shell_v1'' = bd_globals b ''zwlr_layer_shell_v1''" for b
    using assms(1) by (induction as arbitrary: b) (auto simp: wall_registry_global_def bind_known_def split: prod.split)
  then have "\<not> wl_globals s" using assms(2) by (simp add: missing_def no_bindings_def)
  then show ?thesis
    using clients_start_iff(7) by (simp add: wall_output_done_def wall_registry_output_def upd_wall_def)
qed

end
