(* ===== verification/Spec2Isabelle.thy ===== *)
theory Spec2Isabelle
  imports Jsonutil Desktop Listeners Startup Sockets Kumbar_Loop Client_Shm Client_Start
begin

text \<open>
  A verification development for Kumde, a Wayland desktop in C: a compositor on top of
  wlroots (\<open>src/\<close>, \<open>include/\<close>) and the programs that run beside it, a bar, a launcher, a
  screen locker, a notification daemon, a clipboard daemon, an idle daemon, a wallpaper and
  a screenshot client (\<open>kumbar/\<close>, \<open>kumlauncher/\<close>, \<open>kumlock/\<close>, \<open>kumnotify/\<close>, \<open>kumclip/\<close>,
  \<open>kumidle/\<close>, \<open>kumwall/\<close>, \<open>kumshot/\<close>) and a command line tool (\<open>tools/kumde-msg.c\<close>).

  \<^bold>\<open>How the program is modelled.\<close> Every program is a state record, with the fields its
  structs have, and one definition per function. An object the C code points to is an
  address (a \<open>nat\<close>), and the structures live in maps from addresses, so that aliasing is
  visible. A handler is a function from a state to a state, or to a state \<open>option\<close> where
  the code can run into undefined behaviour, and \<open>None\<close> is that: a null pointer, an index
  outside an array, an object used after it was destroyed. What the code asks of wlroots,
  the Wayland library, the kernel, PAM, cairo or the clock is an answer of an environment
  record, an argument of the definitions; what it tells them is a list of commands in the
  state. There is no fuel: every loop of the modelled code runs over a list or has a proved
  measure, and the event loops of the programs are runs over any list of events. The one loop
  that may run for ever, the wait of the screenshot client for its frames, is a partial
  function whose value is \<open>None\<close> when it does, and the theorem about it says when it returns.
  Bytes are \<open>char\<close>, a C string is the list of its bytes before the NUL, buffers have the
  sizes of the code, and \<open>snprintf\<close>, \<open>sscanf\<close>, \<open>fgets\<close>, \<open>strtok\<close> and \<open>atoi\<close> are
  modelled as the code uses them. An \<open>int\<close> is an unbounded integer where the program stays far from its bounds
  and is checked against them where it does not (the idle daemon's seconds); a \<open>float\<close> or \<open>double\<close> is the rational it stands
  for, with rounding to its format written out where a result depends on it.

  \<^bold>\<open>The theories.\<close>
  \<^item> Shared: \<open>Kum_Prelude\<close> (intrusive lists, runs of events, the locales \<open>linked_list\<close>,
    \<open>event_machine\<close>, \<open>total_event_machine\<close>), \<open>CString\<close>, \<open>Scanf\<close> (locale \<open>codec\<close>),
    \<open>Cfloat\<close> (locale \<open>rounding\<close>), \<open>Client_Keys\<close>.
  \<^item> Data of the compositor: \<open>Conf\<close> (\<open>conf.c\<close>, \<open>config.h\<close>, \<open>runtime_config.h\<close>), \<open>Rules\<close>
    (\<open>rules.c\<close>), \<open>Easing\<close> (\<open>easing.c\<close>, locale \<open>timing_curve\<close>), \<open>Jsonutil\<close>
    (\<open>jsonutil.c\<close>), \<open>Model\<close> (\<open>kumde.h\<close>: the state, the commands and the environment).
  \<^item> Windows and screens: \<open>Decor\<close> (\<open>border.c\<close>, \<open>shadow.c\<close>, \<open>corners.c\<close>,
    \<open>pixelbuffer.c\<close>), \<open>Ipc_Out\<close> (the sending half of \<open>ipc.c\<close>), \<open>Focus\<close> (focus and the
    consistency of the window lists), \<open>Workspace\<close>, \<open>Workspace_Laws\<close>, \<open>Workspace_Cmds\<close>,
    \<open>Workspace_Spec\<close> (\<open>workspace.c\<close>, \<open>tiling.c\<close>, \<open>focus.c\<close>), \<open>Output\<close> (\<open>output.c\<close>,
    \<open>outputcfg.c\<close>), \<open>Toplevel\<close> (\<open>toplevel.c\<close>), \<open>Xwayland\<close> (\<open>xwayland.c\<close>), \<open>Layer\<close>
    (\<open>layer.c\<close>), \<open>Lock\<close> (\<open>sessionlock.c\<close>).
  \<^item> Input and control: \<open>Devices\<close> (\<open>kblayout.c\<close>, \<open>inputcfg.c\<close>, \<open>autostart.c\<close>),
    \<open>Keybind\<close> (\<open>keybind.c\<close>), \<open>Input\<close> (\<open>input.c\<close>), \<open>Reload\<close> and \<open>Server\<close>
    (\<open>server.c\<close>), \<open>Ipc\<close> (the receiving half of \<open>ipc.c\<close>), \<open>Session\<close> (every event of the
    compositor as a step relation), \<open>Listeners\<close> (the listener members of every struct of
    \<open>kumde.h\<close>, linked and unlinked), \<open>Startup\<close> (\<open>main.c\<close> and the wlroots objects, lists and
    listeners of \<open>server.c\<close>), \<open>Sockets\<close> (the sockets of \<open>ipc.c\<close> and \<open>kumnotify\<close> and the
    connections of \<open>kumde-msg\<close>).
  \<^item> The other programs, each from its \<open>main.c\<close>: \<open>Kumde_Msg\<close>, \<open>Kumbar\<close>,
    \<open>Kumlauncher\<close>, \<open>Kumlock\<close>, \<open>Kumnotify\<close>, \<open>Kumclip\<close>, \<open>Kumidle\<close>, \<open>Kumshot\<close>,
    \<open>Kumwall\<close>; \<open>Kumbar_Loop\<close> (the event loop of the bar), \<open>Client_Shm\<close> (the shared memory
    of all clients) and \<open>Client_Start\<close> (their globals, start and loops).
  \<^item> \<open>Desktop\<close>: the compositor and the bar as one system, joined by the socket.

  \<^bold>\<open>What the lemmas show.\<close> The invariant \<open>server_ok\<close> of the compositor says that every
  window is linked in the list of exactly its workspace, that no two screens show the same
  workspace, and that the focus is where the code believes it to be; each operation keeps it, and
  \<open>Session\<close> collects this into an inductive step relation whose reachable states all have
  it. Functional theorems give the effect of switching, moving, tiling, mapping, locking,
  reloading and the key bindings. Round trips connect the printers and the parsers: the configuration file,
  JSON strings, the messages between the tool, the compositor, the bar and the notification
  daemon. \<open>Desktop\<close> composes two programs: whatever the user switches to, the bytes the compositor
  writes make the bar show what the screens show. The clients have theorems of their own: the launcher's filter and scrolling, the
  locker's password, the expiry and stacking of notifications, the ownership of the
  clipboard, the thresholds of the idle daemon, the region and the picture of the screenshot
  client, the placement of the wallpaper in rounded arithmetic. \<open>Listeners\<close>, \<open>Startup\<close> and
  \<open>Client_Shm\<close> are about resources: no null pointer from the first call of \<open>main\<close> to the last,
  no listener that outlives its object, no mapping or descriptor that outlives its frame. Theorems about defects state what the code
  does, not what it should do: a locker whose unlock request is never sent, a window that
  stays hidden, a null pointer, a use after free.

  \<^bold>\<open>Bounds.\<close> Nine workspaces (\<open>KUM_WORKSPACE_COUNT\<close>), the array sizes of the configuration, the IPC
  buffers of 512 bytes, the launcher's 1024 entries and 128 bytes, the locker's 256 bytes, eight notification slots
  and 32 MB of clipboard are those of the code.

  \<^bold>\<open>Not modelled.\<close> wlroots, libwayland, cairo, xkbcommon, PAM and the kernel are not in this
  repository; their answers are arguments and the calls made to them are commands. The
  arguments of the library calls that only configure an object (protocol versions, anchors,
  the colours of glyphs), log messages, usage texts, the cursor image handed to the X server,
  the unit tests and the protocol descriptions hold no logic of their own.
\<close>

end
